(* ===== verification/Fluxor_Prelude.thy ===== *)
theory Fluxor_Prelude
  imports Main "HOL-Library.Word"
begin

text \<open>
  Shared vocabulary of the development: the Go values every component uses (64-bit signed
  integers with their wrap-around, durations, instants, the outcome of a call that may panic or
  block), the generic runs of a state machine, and the interfaces by which the components
  lift their one-step facts to whole runs.

  A Go \<open>int64\<close> (and \<open>int\<close>, on a 64-bit platform) is a HOL \<open>int\<close>
  together with \<open>wrap64\<close> at every addition, subtraction and multiplication that the
  source performs; a Go \<open>uint64\<close> is a \<open>64 word\<close>.
\<close>

section \<open>Collections of lemmas\<close>

named_theorems go_arith \<open>arithmetic of Go integers, durations and instants\<close>
named_theorems machine_inv \<open>operations that keep the invariant of their component\<close>
named_theorems frame \<open>fields an operation leaves alone\<close>

section \<open>Signed 64-bit integers\<close>

type_synonym int64 = int
type_synonym uint64 = "64 word"

definition wrap64 :: "int \<Rightarrow> int64" where
  "wrap64 x = (x + 2 ^ 63) mod 2 ^ 64 - 2 ^ 63"

definition in_int64 :: "int \<Rightarrow> bool" where
  "in_int64 x \<longleftrightarrow> - (2 ^ 63) \<le> x \<and> x < 2 ^ 63"

text \<open>Integer division and remainder of Go truncate towards zero.\<close>

definition go_div :: "int \<Rightarrow> int \<Rightarrow> int" where
  "go_div a b = sgn a * sgn b * (\<bar>a\<bar> div \<bar>b\<bar>)"

definition go_mod :: "int \<Rightarrow> int \<Rightarrow> int" where
  "go_mod a b = a - go_div a b * b"

section \<open>Durations and instants\<close>

text \<open>
  A \<open>time.Duration\<close> is an \<open>int64\<close> number of nanoseconds. A \<open>time.Time\<close> is
  an instant, in nanoseconds after the zero \<open>time.Time\<close>; instants form a type of
  their own, ordered by \<open>Before\<close>/\<open>After\<close>.
\<close>

type_synonym duration = int64

definition Millisecond :: duration where "Millisecond = 1000000"
definition Second :: duration where "Second = 1000000000"
definition Minute :: duration where "Minute = 60000000000"

datatype time = Time (nanos: int)

instantiation time :: linorder
begin

definition less_eq_time :: "time \<Rightarrow> time \<Rightarrow> bool" where
  "less_eq_time s t \<longleftrightarrow> nanos s \<le> nanos t"

definition less_time :: "time \<Rightarrow> time \<Rightarrow> bool" where
  "less_time s t \<longleftrightarrow> nanos s < nanos t"

instance
  by standard (auto simp: less_eq_time_def less_time_def time.expand)

end

definition zero_time :: time where "zero_time = Time 0"

definition IsZero :: "time \<Rightarrow> bool" where
  "IsZero t \<longleftrightarrow> t = zero_time"

definition After :: "time \<Rightarrow> time \<Rightarrow> bool" where
  "After t u \<longleftrightarrow> u < t"

definition time_Add :: "time \<Rightarrow> duration \<Rightarrow> time" where
  "time_Add t d = Time (nanos t + d)"

text \<open>\<open>t.Sub(u)\<close> saturates at the smallest and the largest duration.\<close>

definition time_Sub :: "time \<Rightarrow> time \<Rightarrow> duration" where
  "time_Sub t u = max (- (2 ^ 63)) (min (2 ^ 63 - 1) (nanos t - nanos u))"

section \<open>Calls that may not return a value\<close>

text \<open>
  A call returns, or panics, or never returns because it waits for something that does not
  happen. Operations that can do neither have plain result types.
\<close>

datatype 'a outcome = Ret 'a | Panic string | Blocked

definition nil_dereference :: string where
  "nil_dereference = ''invalid memory address or nil pointer dereference''"

fun bind_outcome :: "'a outcome \<Rightarrow> ('a \<Rightarrow> 'b outcome) \<Rightarrow> 'b outcome" where
  "bind_outcome (Ret a) f = f a"
| "bind_outcome (Panic m) f = Panic m"
| "bind_outcome Blocked f = Blocked"

section \<open>Runs of a state machine\<close>

text \<open>
  A component is driven by a list of events; each event changes the state and produces an
  output.
\<close>

fun run :: "('s \<Rightarrow> 'e \<Rightarrow> 's \<times> 'o) \<Rightarrow> 's \<Rightarrow> 'e list \<Rightarrow> 's \<times> 'o list" where
  "run step s [] = (s, [])"
| "run step s (e # es) =
     (let (s1, out) = step s e; (s2, outs) = run step s1 es in (s2, out # outs))"

section \<open>Lemmas on integers and instants\<close>

lemma wrap64_id [simp]: "in_int64 x \<Longrightarrow> wrap64 x = x"
  by (simp add: wrap64_def in_int64_def)

lemma in_int64_wrap64 [simp]: "in_int64 (wrap64 x)"
  by (simp add: wrap64_def in_int64_def)

lemma wrap64_mod: "wrap64 x mod 2 ^ 64 = x mod 2 ^ 64"
  by (simp add: wrap64_def mod_simps)

lemma wrap64_cong: "x mod 2 ^ 64 = y mod 2 ^ 64 \<Longrightarrow> wrap64 x = wrap64 y"
  unfolding wrap64_def by (metis mod_add_left_eq)

lemma wrap64_add: "wrap64 (wrap64 x + y) = wrap64 (x + y)"
  by (rule wrap64_cong) (metis mod_add_left_eq wrap64_mod)

lemma wrap64_mult: "wrap64 (wrap64 x * y) = wrap64 (x * y)"
  by (rule wrap64_cong) (metis mod_mult_left_eq wrap64_mod)

lemma wrap64_sint: "wrap64 x = sint (word_of_int x :: 64 word)"
  by (simp add: wrap64_def sint_uint signed_take_bit_eq_take_bit_shift take_bit_eq_mod
      uint_word_of_int mod_simps)

lemma in_int64I [intro]: "- (2 ^ 63) \<le> x \<Longrightarrow> x < 2 ^ 63 \<Longrightarrow> in_int64 x"
  by (simp add: in_int64_def)

lemma go_div_nonneg [go_arith]: "0 \<le> a \<Longrightarrow> 0 < b \<Longrightarrow> go_div a b = a div b"
  by (cases "a = 0") (simp_all add: go_div_def)

lemma go_mod_nonneg [go_arith]: "0 \<le> a \<Longrightarrow> 0 < b \<Longrightarrow> go_mod a b = a mod b"
  by (simp add: go_mod_def go_div_nonneg minus_div_mult_eq_mod)

lemma duration_units_pos [simp]: "0 < Millisecond" "0 < Second" "0 < Minute"
  by (simp_all add: Millisecond_def Second_def Minute_def)

lemma time_order_iff [simp]:
  "(Time a \<le> Time b) = (a \<le> b)" "(Time a < Time b) = (a < b)"
  by (simp_all add: less_eq_time_def less_time_def)

lemma time_le_nanos: "s \<le> t \<longleftrightarrow> nanos s \<le> nanos t"
  by (simp add: less_eq_time_def)

lemma time_less_nanos: "s < t \<longleftrightarrow> nanos s < nanos t"
  by (simp add: less_time_def)

lemma nanos_time_Add [simp]: "nanos (time_Add t d) = nanos t + d"
  by (simp add: time_Add_def)

lemma in_int64_time_Sub: "in_int64 (time_Sub t u)"
  by (auto simp: time_Sub_def in_int64_def)

lemma time_Sub_le: "u \<le> t \<Longrightarrow> time_Sub t u \<le> nanos t - nanos u"
  by (simp add: time_Sub_def less_eq_time_def)

lemma time_Sub_nonneg: "u \<le> t \<Longrightarrow> 0 \<le> time_Sub t u"
  by (simp add: time_Sub_def less_eq_time_def)

lemma time_Sub_exact:
  "in_int64 (nanos t - nanos u) \<Longrightarrow> time_Sub t u = nanos t - nanos u"
  by (auto simp: time_Sub_def in_int64_def)

lemma time_Sub_gt_iff:
  "in_int64 d \<Longrightarrow> d < 2 ^ 63 - 1 \<Longrightarrow> d < time_Sub t u \<longleftrightarrow> d < nanos t - nanos u"
  by (auto simp: time_Sub_def in_int64_def)

lemma word_less_succ: "x \<noteq> - 1 \<Longrightarrow> x < x + 1" for x :: "'a::len word"
proof -
  assume "x \<noteq> - 1"
  then have "1 + x \<noteq> 0" by (metis add.commute add_eq_0_iff)
  then have "unat (1 + x) = Suc (unat x)" by (rule unatSuc)
  then show ?thesis by (simp add: word_less_nat_alt add.commute)
qed

section \<open>Lemmas on runs\<close>

lemma run_Cons_fst: "fst (run step s (e # es)) = fst (run step (fst (step s e)) es)"
  by (simp add: Let_def split_beta)

lemma run_Cons_snd:
  "snd (run step s (e # es)) = snd (step s e) # snd (run step (fst (step s e)) es)"
  by (simp add: Let_def split_beta)

lemmas run_Cons = run_Cons_fst run_Cons_snd

lemma length_run [simp]: "length (snd (run step s es)) = length es"
  by (induction es arbitrary: s) (simp_all add: run_Cons del: run.simps(2))

lemma run_append:
  "run step s (es @ fs) =
     (let (t, outs) = run step s es; (u, outs') = run step t fs in (u, outs @ outs'))"
  by (induction es arbitrary: s) (simp_all add: Let_def split_beta)

section \<open>Interfaces of state machines\<close>

text \<open>
  A component whose every step keeps an invariant keeps it over every run
  (\<open>machine_invariant\<close>); if moreover each step is matched by a step of an abstract
  machine with the same output, the outputs of whole runs are those of the abstract machine
  (\<open>machine_refinement\<close>).
\<close>

locale machine_invariant =
  fixes step :: "'s \<Rightarrow> 'e \<Rightarrow> 's \<times> 'o"
    and inv :: "'s \<Rightarrow> bool"
  assumes step_inv: "inv s \<Longrightarrow> inv (fst (step s e))"
begin

lemma run_inv: "inv s \<Longrightarrow> inv (fst (run step s es))"
  by (induction es arbitrary: s) (simp_all add: run_Cons step_inv del: run.simps(2))

end

locale machine_refinement = machine_invariant step inv
  for step :: "'s \<Rightarrow> 'e \<Rightarrow> 's \<times> 'o" and inv :: "'s \<Rightarrow> bool" +
  fixes astep :: "'a \<Rightarrow> 'e \<Rightarrow> 'a \<times> 'o"
    and abs :: "'s \<Rightarrow> 'a"
  assumes step_sim: "inv s \<Longrightarrow> map_prod abs id (step s e) = astep (abs s) e"
begin

lemma step_sim_fst: "inv s \<Longrightarrow> fst (astep (abs s) e) = abs (fst (step s e))"
  by (simp add: step_sim [symmetric])

lemma step_sim_snd: "inv s \<Longrightarrow> snd (astep (abs s) e) = snd (step s e)"
  by (simp add: step_sim [symmetric])

lemma run_sim: "inv s \<Longrightarrow> map_prod abs id (run step s es) = run astep (abs s) es"
proof (induction es arbitrary: s)
  case (Cons e es)
  let ?s = "fst (step s e)"
  have "map_prod abs id (run step ?s es) = run astep (abs ?s) es"
    using Cons.prems by (intro Cons.IH step_inv)
  then show ?case
    using Cons.prems
    by (simp add: prod_eq_iff run_Cons step_sim_fst step_sim_snd del: run.simps(2))
qed simp

end

text \<open>
  A machine whose positive answers take something that the same run never gives back: if no
  state can have more than \<open>cap\<close> of them taken, a run has at most that many positive
  answers.
\<close>

locale counted_machine =
  fixes step :: "'s \<Rightarrow> 'e \<Rightarrow> 's \<times> 'o"
    and positive :: "'o \<Rightarrow> bool"
    and taken :: "'s \<Rightarrow> nat \<Rightarrow> bool"
    and cap :: "'s \<Rightarrow> nat"
  assumes step_taken:
      "taken s h \<Longrightarrow> taken (fst (step s e)) (if positive (snd (step s e)) then Suc h else h)"
    and step_cap: "taken s h \<Longrightarrow> cap (fst (step s e)) = cap s"
    and taken_le_cap: "taken s h \<Longrightarrow> h \<le> cap s"
begin

lemma run_taken:
  "taken s h \<Longrightarrow> taken (fst (run step s es)) (h + length (filter positive (snd (run step s es))))"
proof (induction es arbitrary: s h)
  case (Cons e es)
  from Cons.IH [OF step_taken [OF Cons.prems, of e]] show ?case
    by (simp add: run_Cons del: run.simps(2) split: if_splits)
qed simp

lemma run_cap: "taken s h \<Longrightarrow> cap (fst (run step s es)) = cap s"
proof (induction es arbitrary: s h)
  case (Cons e es)
  from Cons.IH [OF step_taken [OF Cons.prems, of e]] step_cap [OF Cons.prems, of e] show ?case
    by (simp add: run_Cons del: run.simps(2))
qed simp

lemma positive_bound: "taken s h \<Longrightarrow> h + length (filter positive (snd (run step s es))) \<le> cap s"
  using taken_le_cap [OF run_taken] run_cap by metis

end

end
