(* ===== verification/Db_Errors.thy ===== *)
theory Db_Errors
  imports Fluxor_Prelude
begin

text \<open>
  Error values (\<open>errors.go\<close> and the sentinels of \<open>gate.go\<close>). A Go \<open>error\<close> is an
  interface value: sentinels compare by identity, \<open>fmt.Errorf\<close> with \<open>%w\<close> wraps
  another error, \<open>DatabaseError\<close> carries a code, a message and an optional cause.
  Errors of code outside the repository (drivers, the network, JSON) are \<open>ErrExt\<close>
  values with an identity and a text.
\<close>

section \<open>Decimal numbers\<close>

text \<open>\<open>fmt.Sprintf("%d", n)\<close>.\<close>

fun show_digits :: "int \<Rightarrow> string" where
  "show_digits n =
     (if n < 10 then [char_of (48 + n)] else show_digits (n div 10) @ [char_of (48 + n mod 10)])"

definition show_int :: "int \<Rightarrow> string" where
  "show_int n = (if n < 0 then ''-'' @ show_digits (- n) else show_digits n)"

section \<open>Errors\<close>

datatype go_error =
    ErrCircuitOpen
  | ErrRateLimitExceeded
  | ErrConnectionLimit
  | DeadlineExceeded
  | Canceled
  | ErrExt nat string
  | Errorf string
  | ErrorfW string go_error string
  | DatabaseError string string "go_error option"

text \<open>The text of an error, \<open>err.Error()\<close>.\<close>

fun error_text :: "go_error \<Rightarrow> string" where
  "error_text ErrCircuitOpen = ''circuit breaker is open''"
| "error_text ErrRateLimitExceeded = ''rate limit exceeded''"
| "error_text ErrConnectionLimit = ''connection limit exceeded''"
| "error_text DeadlineExceeded = ''context deadline exceeded''"
| "error_text Canceled = ''context canceled''"
| "error_text (ErrExt _ m) = m"
| "error_text (Errorf m) = m"
| "error_text (ErrorfW pre e post) = pre @ error_text e @ post"
| "error_text (DatabaseError code msg (Some e)) =
     code @ '': '' @ msg @ '' ('' @ error_text e @ '')''"
| "error_text (DatabaseError code msg None) = code @ '': '' @ msg"

fun Unwrap :: "go_error \<Rightarrow> go_error option" where
  "Unwrap (ErrorfW _ e _) = Some e"
| "Unwrap (DatabaseError _ _ cause) = cause"
| "Unwrap _ = None"

definition ErrCodeConnectionFailed :: string where
  "ErrCodeConnectionFailed = ''CONNECTION_FAILED''"
definition ErrCodeQueryFailed :: string where
  "ErrCodeQueryFailed = ''QUERY_FAILED''"
definition ErrCodeTransactionFailed :: string where
  "ErrCodeTransactionFailed = ''TRANSACTION_FAILED''"
definition ErrCodeCircuitBreakerOpen :: string where
  "ErrCodeCircuitBreakerOpen = ''CIRCUIT_BREAKER_OPEN''"
definition ErrCodeRateLimitExceeded :: string where
  "ErrCodeRateLimitExceeded = ''RATE_LIMIT_EXCEEDED''"
definition ErrCodeConnectionLeak :: string where
  "ErrCodeConnectionLeak = ''CONNECTION_LEAK''"
definition ErrCodeValidationFailed :: string where
  "ErrCodeValidationFailed = ''VALIDATION_FAILED''"
definition ErrCodeTimeout :: string where
  "ErrCodeTimeout = ''TIMEOUT''"
definition ErrCodeRetryExhausted :: string where
  "ErrCodeRetryExhausted = ''RETRY_EXHAUSTED''"

lemmas err_codes =
  ErrCodeConnectionFailed_def ErrCodeQueryFailed_def ErrCodeTransactionFailed_def
  ErrCodeCircuitBreakerOpen_def ErrCodeRateLimitExceeded_def ErrCodeConnectionLeak_def
  ErrCodeValidationFailed_def ErrCodeTimeout_def ErrCodeRetryExhausted_def

definition NewDatabaseError :: "string \<Rightarrow> string \<Rightarrow> go_error option \<Rightarrow> go_error" where
  "NewDatabaseError code msg err = DatabaseError code msg err"

text \<open>
  \<open>errors.As(err, &dbErr)\<close>: the first \<open>*DatabaseError\<close> along the chain of
  \<open>Unwrap\<close>, as its code.
\<close>

fun as_DatabaseError :: "go_error \<Rightarrow> string option" where
  "as_DatabaseError (DatabaseError code _ _) = Some code"
| "as_DatabaseError (ErrorfW _ e _) = as_DatabaseError e"
| "as_DatabaseError _ = None"

definition IsRetryableError :: "go_error option \<Rightarrow> bool" where
  "IsRetryableError err =
     (case Option.bind err as_DatabaseError of
        Some code \<Rightarrow> code = ErrCodeTimeout \<or> code = ErrCodeConnectionFailed
      | None \<Rightarrow> False)"

definition IsCircuitBreakerError :: "go_error option \<Rightarrow> bool" where
  "IsCircuitBreakerError err =
     (case Option.bind err as_DatabaseError of
        Some code \<Rightarrow> code = ErrCodeCircuitBreakerOpen
      | None \<Rightarrow> False)"

definition WrapError :: "string \<Rightarrow> string \<Rightarrow> go_error option \<Rightarrow> go_error option" where
  "WrapError code msg err =
     (case err of None \<Rightarrow> None | Some e \<Rightarrow> Some (NewDatabaseError code msg (Some e)))"

section \<open>The chain of causes\<close>

text \<open>
  The specification of \<open>errors.As\<close>: walk the chain of \<open>Unwrap\<close> from the error itself
  and stop at the first \<open>DatabaseError\<close>.
\<close>

inductive in_chain :: "go_error \<Rightarrow> go_error \<Rightarrow> bool" where
  chain_self: "in_chain e e"
| chain_unwrap: "Unwrap e = Some f \<Longrightarrow> in_chain f g \<Longrightarrow> in_chain e g"

lemma as_DatabaseError_in_chain:
  "as_DatabaseError e = Some code \<Longrightarrow> \<exists>msg cause. in_chain e (DatabaseError code msg cause)"
proof (induction e rule: as_DatabaseError.induct)
  case (2 pre e post)
  then show ?case by (metis Unwrap.simps(1) as_DatabaseError.simps(2) chain_unwrap)
qed (auto intro: chain_self)

lemma in_chain_as_DatabaseError:
  "in_chain e f \<Longrightarrow> as_DatabaseError f \<noteq> None \<Longrightarrow> as_DatabaseError e \<noteq> None"
proof (induction rule: in_chain.induct)
  case (chain_unwrap e f g)
  then show ?case by (cases e) auto
qed simp

section \<open>Decimal numbers are read back\<close>

definition read_digits :: "string \<Rightarrow> int" where
  "read_digits s = foldl (\<lambda>n c. 10 * n + (of_char c - 48)) 0 s"

declare show_digits.simps [simp del]

lemma of_char_digit [simp]:
  "0 \<le> d \<Longrightarrow> d < 10 \<Longrightarrow> of_char (char_of (48 + d :: int)) = 48 + d"
  by simp

lemma read_show_digits: "0 \<le> n \<Longrightarrow> read_digits (show_digits n) = n"
proof (induction n rule: show_digits.induct)
  case (1 n)
  show ?case
  proof (cases "n < 10")
    case True
    with "1.prems" show ?thesis by (subst show_digits.simps) (simp add: read_digits_def)
  next
    case False
    with 1 have "read_digits (show_digits (n div 10)) = n div 10" by simp
    with False show ?thesis by (subst show_digits.simps) (simp add: read_digits_def)
  qed
qed

lemma show_digits_inj: "0 \<le> m \<Longrightarrow> 0 \<le> n \<Longrightarrow> show_digits m = show_digits n \<longleftrightarrow> m = n"
  by (metis read_show_digits)

text \<open>
  The retry test of \<open>errors.go\<close> follows the chain of causes.
\<close>

lemma IsRetryableError_chain:
  assumes "IsRetryableError (Some e)"
  shows "\<exists>code msg cause. in_chain e (DatabaseError code msg cause) \<and>
    (code = ErrCodeTimeout \<or> code = ErrCodeConnectionFailed)"
  using assms as_DatabaseError_in_chain
  by (fastforce simp: IsRetryableError_def split: option.splits)

end
