(* ===== verification/Gate_Circuit.thy ===== *)
theory Gate_Circuit
  imports Db_Errors
begin

text \<open>
  The circuit breaker of \<open>gate.go\<close>: its state, its operations as whole critical
  sections, the abstract three-state machine it implements and the refinement between the two.
  Times are the readings of \<open>time.Now()\<close> that the operations make.
\<close>

section \<open>Configuration and state\<close>

record GateConfig =
  MaxFailures :: int
  ResetTimeout :: duration
  HalfOpenTimeout :: duration
  MaxRequestsPerSecond :: int64
  MaxConcurrentConnections :: int64
  BackpressureMode :: string
  BackpressureTimeout :: duration

definition CircuitStateClosed :: string where "CircuitStateClosed = ''closed''"
definition CircuitStateOpen :: string where "CircuitStateOpen = ''open''"
definition CircuitStateHalfOpen :: string where "CircuitStateHalfOpen = ''half-open''"

definition circuitClosed :: int where "circuitClosed = 0"
definition circuitOpen :: int where "circuitOpen = 1"
definition circuitHalfOpen :: int where "circuitHalfOpen = 2"

lemmas circuit_consts = circuitClosed_def circuitOpen_def circuitHalfOpen_def
  CircuitStateClosed_def CircuitStateOpen_def CircuitStateHalfOpen_def

text \<open>
  \<open>onStateChange\<close> says whether a callback is installed, \<open>stateChanges\<close> lists the
  calls made to it, oldest first.
\<close>

record CircuitBreaker =
  maxFailures :: int
  resetTimeout :: duration
  halfOpenTimeout :: duration
  failureCount :: int64
  lastFailureTime :: time
  cb_state :: int
  onStateChange :: bool
  stateChanges :: "(string \<times> string) list"

section \<open>Operations\<close>

definition NewCircuitBreaker :: "GateConfig option \<Rightarrow> CircuitBreaker" where
  "NewCircuitBreaker config =
     (let cb = \<lparr>maxFailures = 5, resetTimeout = 60 * Second, halfOpenTimeout = 10 * Second,
                failureCount = 0, lastFailureTime = zero_time, cb_state = circuitClosed,
                onStateChange = False, stateChanges = []\<rparr>
      in case config of
           None \<Rightarrow> cb
         | Some c \<Rightarrow>
             cb\<lparr>maxFailures := (if MaxFailures c > 0 then MaxFailures c else maxFailures cb),
                resetTimeout := (if ResetTimeout c > 0 then ResetTimeout c else resetTimeout cb),
                halfOpenTimeout :=
                  (if HalfOpenTimeout c > 0 then HalfOpenTimeout c else halfOpenTimeout cb)\<rparr>)"

definition notify :: "string \<Rightarrow> string \<Rightarrow> CircuitBreaker \<Rightarrow> CircuitBreaker" where
  "notify from to cb =
     (if onStateChange cb then cb\<lparr>stateChanges := stateChanges cb @ [(from, to)]\<rparr> else cb)"

definition CircuitBreaker_Allow ::
    "time \<Rightarrow> CircuitBreaker \<Rightarrow> CircuitBreaker \<times> go_error option" where
  "CircuitBreaker_Allow now cb =
     (if cb_state cb = circuitOpen then
        (if time_Sub now (lastFailureTime cb) > resetTimeout cb
         then (notify CircuitStateOpen CircuitStateHalfOpen
                 (cb\<lparr>cb_state := circuitHalfOpen, failureCount := 0\<rparr>), None)
         else (cb, Some ErrCircuitOpen))
      else if cb_state cb = circuitHalfOpen then (cb, None)
      else if cb_state cb = circuitClosed then (cb, None)
      else (cb, None))"

definition CircuitBreaker_RecordSuccess :: "CircuitBreaker \<Rightarrow> CircuitBreaker" where
  "CircuitBreaker_RecordSuccess cb =
     (if cb_state cb = circuitHalfOpen then
        notify CircuitStateHalfOpen CircuitStateClosed
          (cb\<lparr>cb_state := circuitClosed, failureCount := 0\<rparr>)
      else if cb_state cb = circuitClosed then cb\<lparr>failureCount := 0\<rparr>
      else cb)"

definition CircuitBreaker_RecordFailure :: "time \<Rightarrow> CircuitBreaker \<Rightarrow> CircuitBreaker" where
  "CircuitBreaker_RecordFailure now cb =
     (let state = cb_state cb;
          failures = wrap64 (failureCount cb + 1);
          cb1 = cb\<lparr>failureCount := failures, lastFailureTime := now\<rparr>
      in if state = circuitHalfOpen then
           notify CircuitStateHalfOpen CircuitStateOpen (cb1\<lparr>cb_state := circuitOpen\<rparr>)
         else if state = circuitClosed \<and> failures \<ge> maxFailures cb then
           notify CircuitStateClosed CircuitStateOpen (cb1\<lparr>cb_state := circuitOpen\<rparr>)
         else cb1)"

definition CircuitBreaker_State :: "CircuitBreaker \<Rightarrow> string" where
  "CircuitBreaker_State cb =
     (if cb_state cb = circuitClosed then CircuitStateClosed
      else if cb_state cb = circuitOpen then CircuitStateOpen
      else if cb_state cb = circuitHalfOpen then CircuitStateHalfOpen
      else ''unknown'')"

text \<open>The operations as events of a machine.\<close>

datatype circuit_event = EvAllow time | EvSuccess | EvFailure time

fun circuit_step ::
    "CircuitBreaker \<Rightarrow> circuit_event \<Rightarrow> CircuitBreaker \<times> go_error option" where
  "circuit_step cb (EvAllow now) = CircuitBreaker_Allow now cb"
| "circuit_step cb EvSuccess = (CircuitBreaker_RecordSuccess cb, None)"
| "circuit_step cb (EvFailure now) = (CircuitBreaker_RecordFailure now cb, None)"

section \<open>The abstract circuit\<close>

text \<open>
  What the breaker promises: it counts consecutive failures while closed, opens at the limit,
  remembers the latest failure while open, lets requests through again once the reset timeout
  has passed since then, and goes back to open or closed with the next outcome.
\<close>

datatype circuit = Shut int | Tripped time | Probing

fun circuit_spec ::
    "int \<Rightarrow> duration \<Rightarrow> circuit \<Rightarrow> circuit_event \<Rightarrow> circuit \<times> go_error option" where
  "circuit_spec lim reset (Shut n) (EvAllow now) = (Shut n, None)"
| "circuit_spec lim reset (Shut n) EvSuccess = (Shut 0, None)"
| "circuit_spec lim reset (Shut n) (EvFailure now) =
     (if n + 1 \<ge> lim then Tripped now else Shut (n + 1), None)"
| "circuit_spec lim reset (Tripped t) (EvAllow now) =
     (if nanos now - nanos t > reset then (Probing, None) else (Tripped t, Some ErrCircuitOpen))"
| "circuit_spec lim reset (Tripped t) EvSuccess = (Tripped t, None)"
| "circuit_spec lim reset (Tripped t) (EvFailure now) = (Tripped now, None)"
| "circuit_spec lim reset Probing (EvAllow now) = (Probing, None)"
| "circuit_spec lim reset Probing EvSuccess = (Shut 0, None)"
| "circuit_spec lim reset Probing (EvFailure now) = (Tripped now, None)"

definition circuit_abs :: "CircuitBreaker \<Rightarrow> circuit" where
  "circuit_abs cb =
     (if cb_state cb = circuitClosed then Shut (failureCount cb)
      else if cb_state cb = circuitOpen then Tripped (lastFailureTime cb)
      else Probing)"

text \<open>
  The invariant: the state is one of the three constants, the limit is positive, and a closed
  breaker has counted fewer failures than the limit.
\<close>

definition circuit_inv :: "int \<Rightarrow> duration \<Rightarrow> CircuitBreaker \<Rightarrow> bool" where
  "circuit_inv lim reset cb \<longleftrightarrow>
     maxFailures cb = lim \<and> resetTimeout cb = reset \<and>
     0 < lim \<and> lim < 2 ^ 63 \<and> 0 < reset \<and> reset < 2 ^ 63 - 1 \<and>
     cb_state cb \<in> {circuitClosed, circuitOpen, circuitHalfOpen} \<and>
     (cb_state cb = circuitClosed \<longrightarrow> 0 \<le> failureCount cb \<and> failureCount cb < lim) \<and>
     (cb_state cb = circuitHalfOpen \<longrightarrow> failureCount cb = 0)"

text \<open>A configuration of values the Go types can hold.\<close>

definition config_ok :: "GateConfig option \<Rightarrow> bool" where
  "config_ok config =
     (case config of
        None \<Rightarrow> True
      | Some c \<Rightarrow> in_int64 (MaxFailures c) \<and> ResetTimeout c < 2 ^ 63 - 1)"

section \<open>Lemmas\<close>

lemma notify_fields [simp]:
  "maxFailures (notify f t cb) = maxFailures cb"
  "resetTimeout (notify f t cb) = resetTimeout cb"
  "halfOpenTimeout (notify f t cb) = halfOpenTimeout cb"
  "failureCount (notify f t cb) = failureCount cb"
  "lastFailureTime (notify f t cb) = lastFailureTime cb"
  "cb_state (notify f t cb) = cb_state cb"
  "onStateChange (notify f t cb) = onStateChange cb"
  by (simp_all add: notify_def)

lemmas circuit_op_defs = CircuitBreaker_Allow_def CircuitBreaker_RecordSuccess_def
  CircuitBreaker_RecordFailure_def

lemma NewCircuitBreaker_inv:
  assumes "config_ok config"
  shows "circuit_inv (maxFailures (NewCircuitBreaker config))
    (resetTimeout (NewCircuitBreaker config)) (NewCircuitBreaker config)"
  using assms
  by (cases config)
    (auto simp: NewCircuitBreaker_def circuit_inv_def config_ok_def in_int64_def Second_def Let_def)

lemma NewCircuitBreaker_state [simp]:
  "cb_state (NewCircuitBreaker config) = circuitClosed"
  "failureCount (NewCircuitBreaker config) = 0"
  by (simp_all add: NewCircuitBreaker_def Let_def split: option.split)

lemma circuit_step_inv [machine_inv]:
  "circuit_inv lim reset cb \<Longrightarrow> circuit_inv lim reset (fst (circuit_step cb e))"
  by (cases e)
    (auto simp: circuit_inv_def circuit_op_defs circuit_consts Let_def wrap64_id in_int64_def)

lemma circuit_step_sim:
  "circuit_inv lim reset cb \<Longrightarrow>
   map_prod circuit_abs id (circuit_step cb e) = circuit_spec lim reset (circuit_abs cb) e"
  by (cases e)
    (auto simp: circuit_inv_def circuit_abs_def circuit_op_defs circuit_consts Let_def
      wrap64_id in_int64_def time_Sub_gt_iff)

interpretation circuit: machine_refinement circuit_step "circuit_inv lim reset"
  "circuit_spec lim reset" circuit_abs
  by unfold_locales (auto simp: circuit_step_inv circuit_step_sim)

text \<open>Runs of the abstract circuit.\<close>

lemma spec_failures:
  "n < lim \<Longrightarrow> fst (run (circuit_spec lim reset) (Shut n) (map EvFailure ts)) =
     (if n + int (length ts) < lim then Shut (n + int (length ts))
      else Tripped (last (drop (nat (lim - n - 1)) ts)))"
proof (induction ts arbitrary: n)
  case (Cons t ts)
  show ?case
  proof (cases "n + 1 < lim")
    case True
    then have "nat (lim - n - 1) = Suc (nat (lim - (n + 1) - 1))" by simp
    with True Cons.IH [of "n + 1"] show ?thesis by (simp add: run_Cons algebra_simps del: run.simps(2))
  next
    case False
    with Cons.prems have lim: "lim = n + 1" by simp
    have "fst (run (circuit_spec lim reset) (Tripped t) (map EvFailure ts)) = Tripped (last (t # ts))" for t
      by (induction ts arbitrary: t) (simp_all add: run_Cons del: run.simps(2))
    with lim show ?thesis by (simp add: run_Cons del: run.simps(2))
  qed
qed simp

fun event_within :: "time \<Rightarrow> duration \<Rightarrow> circuit_event \<Rightarrow> bool" where
  "event_within t d (EvAllow now) = (t \<le> now \<and> nanos now \<le> nanos t + d)"
| "event_within t d (EvFailure now) = (t \<le> now \<and> nanos now \<le> nanos t + d)"
| "event_within t d EvSuccess = True"

fun refusal :: "circuit_event \<Rightarrow> go_error option" where
  "refusal (EvAllow _) = Some ErrCircuitOpen"
| "refusal _ = None"

lemma spec_tripped_refuses:
  assumes "list_all (event_within t reset) es" and "t \<le> t'"
  shows "\<exists>t''. t \<le> t'' \<and>
    run (circuit_spec lim reset) (Tripped t') es = (Tripped t'', map refusal es)"
  using assms
proof (induction es arbitrary: t')
  case (Cons e es)
  then have w: "event_within t reset e" "list_all (event_within t reset) es" by auto
  have "\<exists>u. t \<le> u \<and> circuit_spec lim reset (Tripped t') e = (Tripped u, refusal e)"
    using w(1) Cons.prems(2) by (cases e) (auto simp: time_le_nanos)
  then obtain u where u: "t \<le> u" "circuit_spec lim reset (Tripped t') e = (Tripped u, refusal e)"
    by blast
  from Cons.IH [OF w(2) u(1)] show ?case using u by (auto simp: Let_def)
qed auto

section \<open>Properties\<close>

text \<open>
  C1. The circuit breaker implements the abstract circuit: from the breaker that
  \<open>NewCircuitBreaker\<close> builds (with or without a configuration), every sequence of
  \<open>Allow\<close>, \<open>RecordSuccess\<close> and \<open>RecordFailure\<close> calls, at any times, gives the
  answers and ends in the state that the abstract circuit prescribes for the configured limit
  and reset timeout.
\<close>

theorem circuit_breaker_refines:
  assumes "config_ok config"
    and "lim = maxFailures (NewCircuitBreaker config)"
    and "reset = resetTimeout (NewCircuitBreaker config)"
  shows "map_prod circuit_abs id (run circuit_step (NewCircuitBreaker config) es) =
    run (circuit_spec lim reset) (Shut 0) es"
proof -
  have "circuit_abs (NewCircuitBreaker config) = Shut 0" by (simp add: circuit_abs_def)
  with circuit.run_sim [OF NewCircuitBreaker_inv [OF assms(1)]] assms(2,3) show ?thesis by metis
qed

definition sample_config :: GateConfig where
  "sample_config = \<lparr>MaxFailures = 2, ResetTimeout = Second, HalfOpenTimeout = 0,
     MaxRequestsPerSecond = 100, MaxConcurrentConnections = 3,
     BackpressureMode = ''drop'', BackpressureTimeout = 0\<rparr>"

lemma sample_config_simps [simp]:
  "config_ok (Some sample_config)"
  "maxFailures (NewCircuitBreaker (Some sample_config)) = 2"
  "resetTimeout (NewCircuitBreaker (Some sample_config)) = 1000000000"
  by (simp_all add: NewCircuitBreaker_def sample_config_def config_ok_def in_int64_def Second_def)

theorem circuit_breaker_refines_witness:
  "map_prod circuit_abs id (run circuit_step (NewCircuitBreaker (Some sample_config))
     [EvFailure (Time 5), EvFailure (Time 9), EvAllow (Time 10), EvAllow (Time 2000000000), EvSuccess]) =
   (Shut 0, [None, None, Some ErrCircuitOpen, None, None])"
  by (subst circuit_breaker_refines [of _ 2 1000000000]) simp_all

text \<open>
  A breaker that has just been built opens exactly when the configured number of
  consecutive failures is reached: after any number of \<open>RecordFailure\<close> calls, at whatever
  times, \<open>State()\<close> is "open" if they are at least \<open>maxFailures\<close> many and "closed"
  otherwise.
\<close>

theorem circuit_opens_at_limit:
  assumes "config_ok config"
  shows "CircuitBreaker_State (fst (run circuit_step (NewCircuitBreaker config) (map EvFailure ts))) =
    (if int (length ts) \<ge> maxFailures (NewCircuitBreaker config)
     then CircuitStateOpen else CircuitStateClosed)"
proof -
  let ?cb = "NewCircuitBreaker config" and ?es = "map EvFailure ts"
  let ?cb' = "fst (run circuit_step ?cb ?es)"
  note inv = NewCircuitBreaker_inv [OF assms]
  have pos: "0 < maxFailures ?cb" using inv by (simp add: circuit_inv_def)
  have "circuit_abs ?cb' = fst (run (circuit_spec (maxFailures ?cb) (resetTimeout ?cb)) (Shut 0) ?es)"
    using circuit.run_sim [OF inv, of ?es]
    by (metis NewCircuitBreaker_state circuit_abs_def fst_map_prod)
  then show ?thesis
    using spec_failures [OF pos, of "resetTimeout ?cb" ts]
    by (auto simp: circuit_abs_def CircuitBreaker_State_def circuit_consts split: if_splits)
qed

theorem circuit_opens_at_limit_witness:
  "CircuitBreaker_State (fst (run circuit_step (NewCircuitBreaker (Some sample_config))
     (map EvFailure [Time 1, Time 2]))) = CircuitStateOpen"
  by (subst circuit_opens_at_limit) simp_all

text \<open>
  An open breaker lets nothing through before the reset timeout has passed: whatever calls
  are made between the latest recorded failure and \<open>resetTimeout\<close> after it, every
  \<open>Allow\<close> among them returns \<open>ErrCircuitOpen\<close> and the breaker is still open
  afterwards.
\<close>

theorem open_circuit_refuses:
  assumes "circuit_inv lim reset cb" and "cb_state cb = circuitOpen"
    and "list_all (event_within (lastFailureTime cb) reset) es"
  shows "CircuitBreaker_State (fst (run circuit_step cb es)) = CircuitStateOpen \<and>
    snd (run circuit_step cb es) = map refusal es"
proof -
  have "circuit_abs cb = Tripped (lastFailureTime cb)"
    using assms(2) by (simp add: circuit_abs_def circuit_consts)
  then obtain t'' where *: "map_prod circuit_abs id (run circuit_step cb es) = (Tripped t'', map refusal es)"
    using spec_tripped_refuses [OF assms(3) order_refl, of lim] circuit.run_sim [OF assms(1), of es] by metis
  then have "snd (run circuit_step cb es) = map refusal es"
    by (metis id_apply snd_conv snd_map_prod)
  moreover from * have "circuit_abs (fst (run circuit_step cb es)) = Tripped t''"
    by (metis fst_conv fst_map_prod)
  then have "CircuitBreaker_State (fst (run circuit_step cb es)) = CircuitStateOpen"
    by (auto simp: circuit_abs_def CircuitBreaker_State_def circuit_consts split: if_splits)
  ultimately show ?thesis by blast
qed

definition sample_open :: CircuitBreaker where
  "sample_open = \<lparr>maxFailures = 2, resetTimeout = 100, halfOpenTimeout = 10, failureCount = 2,
     lastFailureTime = Time 50, cb_state = circuitOpen, onStateChange = False, stateChanges = []\<rparr>"

theorem open_circuit_refuses_witness:
  "CircuitBreaker_State (fst (run circuit_step sample_open
     [EvAllow (Time 60), EvFailure (Time 90), EvSuccess, EvAllow (Time 150)])) = CircuitStateOpen \<and>
   snd (run circuit_step sample_open
     [EvAllow (Time 60), EvFailure (Time 90), EvSuccess, EvAllow (Time 150)]) =
   [Some ErrCircuitOpen, None, None, Some ErrCircuitOpen]"
proof -
  have "circuit_inv 2 100 sample_open"
    by (simp add: circuit_inv_def sample_open_def circuit_consts)
  from open_circuit_refuses [OF this, of
      "[EvAllow (Time 60), EvFailure (Time 90), EvSuccess, EvAllow (Time 150)]"]
  show ?thesis by (simp add: sample_open_def circuit_consts del: run.simps)
qed

text \<open>
  Recovery: an open breaker lets the first request through once more than the reset
  timeout has passed since the latest failure and is then half-open; from there a recorded
  success closes it with a cleared failure count, and a recorded failure opens it again at once.
\<close>

theorem circuit_recovers:
  assumes "circuit_inv lim reset cb" and "cb_state cb = circuitOpen"
    and "nanos now - nanos (lastFailureTime cb) > reset"
    and "CircuitBreaker_Allow now cb = (cb', err)"
  shows "err = None \<and> CircuitBreaker_State cb' = CircuitStateHalfOpen \<and>
    (let closed = CircuitBreaker_RecordSuccess cb'
     in CircuitBreaker_State closed = CircuitStateClosed \<and> failureCount closed = 0) \<and>
    (let opened = CircuitBreaker_RecordFailure later cb'
     in CircuitBreaker_State opened = CircuitStateOpen \<and> lastFailureTime opened = later)"
  using assms
  by (auto simp: CircuitBreaker_Allow_def CircuitBreaker_RecordSuccess_def
      CircuitBreaker_RecordFailure_def CircuitBreaker_State_def circuit_inv_def circuit_consts
      in_int64_def time_Sub_gt_iff Let_def)

theorem circuit_recovers_witness:
  "snd (CircuitBreaker_Allow (Time 200) sample_open) = None \<and>
   CircuitBreaker_State (fst (CircuitBreaker_Allow (Time 200) sample_open)) = CircuitStateHalfOpen"
proof -
  have "circuit_inv 2 100 sample_open" "cb_state sample_open = circuitOpen"
    "nanos (Time 200) - nanos (lastFailureTime sample_open) > 100"
    by (simp_all add: circuit_inv_def sample_open_def circuit_consts)
  from circuit_recovers [OF this prod.collapse [symmetric], of "Time 300"] show ?thesis by blast
qed

end
