(* ===== verification/Go_Float64.thy ===== *)
theory Go_Float64
  imports Complex_Main Fluxor_Prelude
begin

text \<open>
  The \<open>float64\<close> arithmetic of the program: the rate limiter multiplies seconds by a
  rate, the retry policy multiplies a backoff by a factor, the metrics form a percentage.
  A \<open>float64\<close> is NaN, an infinity or a rational; every operation computes the exact
  rational result and rounds it to 53 significant bits, ties to even, as IEEE-754 binary64
  does. The two zeros are identified. The conversion to \<open>int64\<close> truncates towards
  zero and yields the smallest \<open>int64\<close> outside its range, as the 64-bit x86
  instruction does (the Go specification leaves that case to the implementation).
\<close>

section \<open>Rounding\<close>

definition pow2 :: "int \<Rightarrow> rat" where
  "pow2 e = (if 0 \<le> e then of_int (2 ^ nat e) else 1 / of_int (2 ^ nat (- e)))"

text \<open>The binary exponent of a non-zero rational, from the bit lengths of its parts.\<close>

fun bit_len :: "int \<Rightarrow> int" where
  "bit_len n = (if n \<le> 0 then 0 else 1 + bit_len (n div 2))"

definition f64_exp :: "rat \<Rightarrow> int" where
  "f64_exp x =
     (let (p, q) = quotient_of \<bar>x\<bar>; k = bit_len p - bit_len q
      in if pow2 k \<le> \<bar>x\<bar> then k else k - 1)"

text \<open>Nearest integer, ties to the even one.\<close>

definition round_even :: "rat \<Rightarrow> int" where
  "round_even y =
     (let f = \<lfloor>y\<rfloor>; r = y - of_int f
      in if r < 1 / 2 then f
         else if 1 / 2 < r then f + 1
         else if even f then f else f + 1)"

text \<open>The distance of adjacent floats around x; below the normal range it stays fixed.\<close>

definition f64_ulp :: "rat \<Rightarrow> rat" where
  "f64_ulp x = pow2 (max (f64_exp x) (- 1022) - 52)"

definition f64_round :: "rat \<Rightarrow> rat" where
  "f64_round x =
     (if x = 0 then 0 else of_int (round_even (x / f64_ulp x)) * f64_ulp x)"

section \<open>Values and operations\<close>

datatype float64 = NaN | PosInf | NegInf | Finite rat

definition f64_of_rat :: "rat \<Rightarrow> float64" where
  "f64_of_rat x =
     (let r = f64_round x
      in if r \<noteq> 0 \<and> 1024 \<le> f64_exp r then (if 0 < r then PosInf else NegInf) else Finite r)"

definition f64_of_int :: "int \<Rightarrow> float64" where
  "f64_of_int n = f64_of_rat (of_int n)"

fun f64_add :: "float64 \<Rightarrow> float64 \<Rightarrow> float64" where
  "f64_add (Finite x) (Finite y) = f64_of_rat (x + y)"
| "f64_add NaN y = NaN"
| "f64_add x NaN = NaN"
| "f64_add PosInf NegInf = NaN"
| "f64_add NegInf PosInf = NaN"
| "f64_add PosInf y = PosInf"
| "f64_add NegInf y = NegInf"
| "f64_add x PosInf = PosInf"
| "f64_add x NegInf = NegInf"

fun f64_sgn :: "float64 \<Rightarrow> rat" where
  "f64_sgn NaN = 0"
| "f64_sgn PosInf = 1"
| "f64_sgn NegInf = -1"
| "f64_sgn (Finite x) = sgn x"

definition f64_inf_of :: "rat \<Rightarrow> float64" where
  "f64_inf_of s = (if s = 0 then NaN else if 0 < s then PosInf else NegInf)"

fun f64_mul :: "float64 \<Rightarrow> float64 \<Rightarrow> float64" where
  "f64_mul (Finite x) (Finite y) = f64_of_rat (x * y)"
| "f64_mul NaN y = NaN"
| "f64_mul x NaN = NaN"
| "f64_mul x y = f64_inf_of (f64_sgn x * f64_sgn y)"

text \<open>Division; the divisor zero is the positive one, which is all the program forms.\<close>

fun f64_div :: "float64 \<Rightarrow> float64 \<Rightarrow> float64" where
  "f64_div (Finite x) (Finite y) = (if y = 0 then f64_inf_of (sgn x) else f64_of_rat (x / y))"
| "f64_div NaN y = NaN"
| "f64_div x NaN = NaN"
| "f64_div (Finite x) y = Finite 0"
| "f64_div x (Finite y) = f64_inf_of (f64_sgn x * (if y < 0 then -1 else 1))"
| "f64_div x y = NaN"

definition rat_trunc :: "rat \<Rightarrow> int" where
  "rat_trunc x = (if 0 \<le> x then \<lfloor>x\<rfloor> else \<lceil>x\<rceil>)"

fun f64_to_int64 :: "float64 \<Rightarrow> int64" where
  "f64_to_int64 (Finite x) = (if in_int64 (rat_trunc x) then rat_trunc x else - (2 ^ 63))"
| "f64_to_int64 _ = - (2 ^ 63)"

text \<open>\<open>Duration.Seconds\<close> of package \<open>time\<close>.\<close>

definition Duration_Seconds :: "duration \<Rightarrow> float64" where
  "Duration_Seconds d =
     f64_add (f64_of_int (go_div d Second))
       (f64_div (f64_of_int (go_mod d Second)) (f64_of_int 1000000000))"

section \<open>Powers of two\<close>

lemma pow2_pos [simp]: "0 < pow2 e"
  by (simp add: pow2_def)

lemma pow2_nonzero [simp]: "pow2 e \<noteq> 0"
  using pow2_pos [of e] by linarith

lemma pow2_powi: "pow2 e = 2 powi e"
  by (simp add: pow2_def power_int_def field_simps)

lemma pow2_add: "pow2 (a + b) = pow2 a * pow2 b"
  by (simp add: pow2_powi power_int_add)

lemma pow2_mono: "a \<le> b \<Longrightarrow> pow2 a \<le> pow2 b"
  by (simp add: pow2_powi power_int_increasing)

lemma pow2_strict_mono: "a < b \<Longrightarrow> pow2 a < pow2 b"
  by (simp add: pow2_powi power_int_strict_increasing)

lemma pow2_less_iff: "pow2 a < pow2 b \<longleftrightarrow> a < b"
  using pow2_strict_mono [of a b] pow2_mono [of b a] by (cases "a < b") auto

lemma pow2_le_iff: "pow2 a \<le> pow2 b \<longleftrightarrow> a \<le> b"
  using pow2_less_iff [of b a] by (simp add: linorder_not_less [symmetric])

lemma pow2_diff: "pow2 (a - b) = pow2 a / pow2 b"
  by (simp add: pow2_powi power_int_diff)

lemma pow2_nat: "pow2 (int n) = 2 ^ n"
  by (simp add: pow2_def)

section \<open>The exponent\<close>

declare bit_len.simps [simp del]

lemma bit_len_nonneg: "0 \<le> bit_len n"
  by (induction n rule: bit_len.induct) (subst bit_len.simps, simp)

lemma bit_len_bounds: "0 < n \<Longrightarrow> pow2 (bit_len n - 1) \<le> of_int n \<and> of_int n < pow2 (bit_len n)"
proof (induction n rule: bit_len.induct)
  case (1 n)
  let ?h = "n div 2"
  show ?case
  proof (cases "n = 1")
    case True
    have "bit_len 1 = 1" by (simp add: bit_len.simps [of 1] bit_len.simps [of 0])
    with True show ?thesis by (simp add: pow2_def)
  next
    case False
    with 1 have IH: "pow2 (bit_len ?h - 1) \<le> of_int ?h" "of_int ?h < pow2 (bit_len ?h)" by auto
    have b: "bit_len n = bit_len ?h + 1" using "1.prems" by (subst bit_len.simps) simp
    have dbl: "pow2 (bit_len ?h) = 2 * pow2 (bit_len ?h - 1)" "pow2 (bit_len ?h + 1) = 2 * pow2 (bit_len ?h)"
      using pow2_add [of "bit_len ?h - 1" 1] pow2_add [of "bit_len ?h" 1] by (simp_all add: pow2_def [of 1])
    have "0 < bit_len ?h"
      using False "1.prems" bit_len_nonneg [of "?h div 2"] by (subst bit_len.simps) auto
    then have "pow2 (bit_len ?h) = of_int (2 ^ nat (bit_len ?h))" by (simp add: pow2_def)
    with IH(2) have "of_int (?h + 1) \<le> pow2 (bit_len ?h)"
      by (metis of_int_le_iff of_int_less_iff zless_imp_add1_zle)
    moreover have "of_int n < (of_int (2 * (?h + 1)) :: rat)" "of_int (2 * ?h) \<le> (of_int n :: rat)"
      unfolding of_int_less_iff of_int_le_iff by presburger+
    ultimately show ?thesis using IH(1) dbl by (simp add: b)
  qed
qed

lemma f64_exp_bounds:
  assumes "x \<noteq> 0"
  shows "pow2 (f64_exp x) \<le> \<bar>x\<bar>" "\<bar>x\<bar> < pow2 (f64_exp x + 1)"
proof -
  obtain p q where pq: "quotient_of \<bar>x\<bar> = (p, q)" by fastforce
  have q: "0 < q" and xpq: "\<bar>x\<bar> = of_int p / of_int q"
    using quotient_of_denom_pos [OF pq] quotient_of_div [OF pq] by auto
  with assms have p: "0 < p"
    by (metis of_int_0_less_iff zero_less_abs_iff zero_less_divide_iff of_int_0_less_iff not_less_iff_gr_or_eq)
  define a where "a = bit_len p"
  define b where "b = bit_len q"
  have pb: "pow2 (a - 1) \<le> of_int p" "of_int p < pow2 a"
    using bit_len_bounds [OF p] by (simp_all add: a_def)
  have qb: "pow2 (b - 1) \<le> of_int q" "of_int q < pow2 b"
    using bit_len_bounds [OF q] by (simp_all add: b_def)
  have lo: "pow2 (a - b - 1) \<le> \<bar>x\<bar>"
  proof -
    have "pow2 (a - 1) / pow2 b \<le> of_int p / of_int q"
      using pb qb p q by (intro frac_le) auto
    then show ?thesis by (simp add: xpq pow2_diff divide_simps mult_ac)
  qed
  have hi: "\<bar>x\<bar> < pow2 (a - b + 1)"
  proof -
    have "of_int p / of_int q < pow2 a / pow2 (b - 1)"
      using pb qb p q by (intro frac_less) auto
    also have "\<dots> = pow2 (a - (b - 1))" by (rule pow2_diff [symmetric])
    finally show ?thesis by (simp add: xpq algebra_simps)
  qed
  have e: "f64_exp x = (if pow2 (a - b) \<le> \<bar>x\<bar> then a - b else a - b - 1)"
    by (simp add: f64_exp_def pq a_def b_def)
  show "pow2 (f64_exp x) \<le> \<bar>x\<bar>" using lo by (auto simp: e)
  show "\<bar>x\<bar> < pow2 (f64_exp x + 1)" using hi by (auto simp: e)
qed

lemma f64_exp_unique:
  assumes "pow2 e \<le> \<bar>x\<bar>" "\<bar>x\<bar> < pow2 (e + 1)"
  shows "f64_exp x = e"
proof -
  have "x \<noteq> 0" using assms(1) pow2_pos [of e] by (auto simp: linorder_not_le [symmetric])
  note b = f64_exp_bounds [OF this]
  from b(1) assms(2) have "f64_exp x < e + 1" by (meson le_less_trans pow2_less_iff)
  moreover from assms(1) b(2) have "e < f64_exp x + 1" by (meson le_less_trans pow2_less_iff)
  ultimately show ?thesis by linarith
qed

section \<open>Rounding errors\<close>

lemma round_even_near: "\<bar>of_int (round_even y) - y\<bar> \<le> 1 / 2"
proof -
  have "of_int \<lfloor>y\<rfloor> \<le> y" "y < of_int \<lfloor>y\<rfloor> + 1"
    using floor_correct [of y] by simp_all
  then show ?thesis
    by (auto simp: round_even_def Let_def abs_le_iff)
qed

lemma round_even_of_int [simp]: "round_even (of_int n) = n"
  by (simp add: round_even_def)

definition normal_range :: "rat \<Rightarrow> bool" where
  "normal_range x \<longleftrightarrow> x = 0 \<or> (pow2 (- 1022) \<le> \<bar>x\<bar> \<and> \<bar>x\<bar> < pow2 1023)"

lemma f64_ulp_normal: "normal_range x \<Longrightarrow> x \<noteq> 0 \<Longrightarrow> f64_ulp x = pow2 (f64_exp x - 52)"
  using f64_exp_bounds(2) [of x] pow2_less_iff [of "- 1022" "f64_exp x + 1"]
  by (force simp: f64_ulp_def normal_range_def max_def)

lemma f64_round_error:
  assumes "normal_range x"
  shows "\<bar>f64_round x - x\<bar> \<le> \<bar>x\<bar> * pow2 (- 53)"
proof (cases "x = 0")
  case False
  let ?u = "f64_ulp x"
  have u: "?u = pow2 (f64_exp x) * pow2 (- 52)"
    using f64_ulp_normal [OF assms False] by (simp add: pow2_add [symmetric])
  have upos: "0 < ?u" by (simp add: f64_ulp_def)
  have "f64_round x - x = (of_int (round_even (x / ?u)) - x / ?u) * ?u"
    using False upos by (simp add: f64_round_def algebra_simps)
  then have "\<bar>f64_round x - x\<bar> = \<bar>of_int (round_even (x / ?u)) - x / ?u\<bar> * ?u"
    using upos by (simp add: abs_mult)
  also have "\<dots> \<le> 1 / 2 * ?u"
    using upos by (intro mult_right_mono round_even_near) simp
  also have "\<dots> = pow2 (f64_exp x) * pow2 (- 53)"
    by (simp add: u pow2_def)
  also have "\<dots> \<le> \<bar>x\<bar> * pow2 (- 53)"
    using f64_exp_bounds(1) [OF False] by (intro mult_right_mono) (auto simp: less_imp_le)
  finally show ?thesis .
qed (simp add: f64_round_def)

lemma f64_round_upper:
  assumes "normal_range x" "0 \<le> x"
  shows "f64_round x \<le> x * (1 + pow2 (- 53))"
  using f64_round_error [OF assms(1)] assms(2) by (simp add: algebra_simps abs_le_iff)

lemma f64_round_nonneg:
  assumes "0 \<le> x"
  shows "0 \<le> f64_round x"
proof -
  have "0 \<le> x / f64_ulp x" using assms by (simp add: f64_ulp_def less_imp_le)
  then have "0 \<le> \<lfloor>x / f64_ulp x\<rfloor>" by simp
  then have "0 \<le> round_even (x / f64_ulp x)" by (simp add: round_even_def Let_def)
  then show ?thesis by (simp add: f64_round_def f64_ulp_def less_imp_le)
qed

text \<open>Integers of at most 53 bits are exact, and so are their multiples by powers of two.\<close>

lemma f64_round_exact:
  assumes x: "x = of_int m * pow2 k" and m: "\<bar>m\<bar> < 2 ^ 53" and k: "- 1074 \<le> k"
  shows "f64_round x = x"
proof (cases "x = 0")
  case False
  define e where "e = max (f64_exp x) (- 1022) - 52"
  have "\<bar>of_int m\<bar> < (2 ^ 53 :: rat)"
    using m by (metis of_int_abs of_int_less_iff of_int_numeral of_int_power)
  then have "\<bar>x\<bar> < 2 ^ 53 * pow2 k"
    by (simp add: x abs_mult abs_of_pos)
  also have "\<dots> = pow2 (k + 53)" using pow2_nat [of 53] by (simp add: pow2_add)
  finally have "pow2 (f64_exp x) < pow2 (k + 53)"
    using f64_exp_bounds(1) [OF False] by simp
  then have j: "0 \<le> k - e" using k by (simp add: pow2_less_iff e_def)
  have "x / f64_ulp x = of_int m * pow2 (k - e)"
    by (simp add: x f64_ulp_def e_def pow2_diff)
  also have "\<dots> = of_int (m * 2 ^ nat (k - e))"
    using j by (simp add: pow2_def)
  finally have "of_int (round_even (x / f64_ulp x)) = x / f64_ulp x"
    using round_even_of_int by metis
  then show ?thesis by (simp add: f64_round_def f64_ulp_def)
qed (simp add: f64_round_def)

lemma f64_round_of_int [simp]: "\<bar>n\<bar> < 2 ^ 53 \<Longrightarrow> f64_round (of_int n) = of_int n"
  by (rule f64_round_exact [where k = 0]) (simp_all add: pow2_def)

section \<open>Ranges\<close>

text \<open>
  A non-negative value is zero or lies between \<open>2^(-k)\<close> and \<open>2^k\<close>; the operations
  widen the range by little, so none of the program's results leaves the normal range.
\<close>

definition f64_within :: "nat \<Rightarrow> rat \<Rightarrow> bool" where
  "f64_within k x \<longleftrightarrow> x = 0 \<or> (pow2 (- int k) \<le> x \<and> x < pow2 (int k))"

lemma f64_within_nonneg: "f64_within k x \<Longrightarrow> 0 \<le> x"
  unfolding f64_within_def by (meson less_imp_le order_refl order_trans pow2_pos)

lemma f64_within_mono:
  assumes "k \<le> l" "f64_within k x"
  shows "f64_within l x"
  using assms pow2_mono [of "- int l" "- int k"] pow2_mono [of "int k" "int l"]
  by (auto simp: f64_within_def)

lemma f64_within_normal:
  assumes "f64_within k x" "k \<le> 1022"
  shows "normal_range x"
  using assms f64_within_nonneg [OF assms(1)] pow2_mono [of "- 1022" "- int k"]
    pow2_mono [of "int k" 1023]
  by (auto simp: f64_within_def normal_range_def)

lemma f64_within_round:
  assumes w: "f64_within k x" and k: "k \<le> 1022"
  shows "f64_within (Suc k) (f64_round x)"
proof (cases "x = 0")
  case False
  have x: "pow2 (- int k) \<le> x" "x < pow2 (int k)" using w False by (auto simp: f64_within_def)
  have err: "\<bar>f64_round x - x\<bar> \<le> \<bar>x\<bar> * pow2 (- 53)"
    by (rule f64_round_error [OF f64_within_normal [OF w k]])
  also have "\<dots> \<le> \<bar>x\<bar> * (1 / 2)" by (intro mult_left_mono) (simp_all add: pow2_def)
  finally have "x / 2 \<le> f64_round x" "f64_round x \<le> 2 * x"
    using f64_within_nonneg [OF w] by linarith+
  moreover have "pow2 (- int (Suc k)) = pow2 (- int k) / 2" "pow2 (int (Suc k)) = 2 * pow2 (int k)"
    using pow2_add [of "- int k" "- 1"] pow2_add [of "int k" 1]
    by (simp_all add: pow2_def [of "- 1"] pow2_def [of 1] algebra_simps)
  ultimately show ?thesis using x by (auto simp: f64_within_def)
qed (simp add: f64_round_def f64_within_def)

lemma f64_within_mult:
  assumes "f64_within k x" "f64_within l y"
  shows "f64_within (k + l) (x * y)"
proof (cases "x = 0 \<or> y = 0")
  case False
  then have b: "pow2 (- int k) \<le> x" "x < pow2 (int k)" "pow2 (- int l) \<le> y" "y < pow2 (int l)"
    using assms by (auto simp: f64_within_def)
  have "pow2 (- int k) * pow2 (- int l) \<le> x * y"
    using b by (intro mult_mono) (auto intro: less_imp_le order_trans [OF less_imp_le [OF pow2_pos]])
  moreover have "x * y < pow2 (int k) * pow2 (int l)"
    using b by (intro mult_strict_mono) (auto intro: order_trans [OF less_imp_le [OF pow2_pos]])
  ultimately show ?thesis by (simp add: f64_within_def pow2_add [symmetric])
qed (auto simp: f64_within_def)

lemma f64_within_add:
  assumes "f64_within k x" "f64_within k y"
  shows "f64_within (Suc k) (x + y)"
proof -
  have half: "pow2 (- int (Suc k)) \<le> pow2 (- int k)" by (rule pow2_mono) simp
  have dbl: "pow2 (int (Suc k)) = 2 * pow2 (int k)"
    using pow2_add [of "int k" 1] by (simp add: pow2_def [of 1] algebra_simps)
  show ?thesis
    using assms half dbl pow2_pos [of "- int k"] pow2_pos [of "int k"]
    unfolding f64_within_def by (elim disjE conjE; (intro disjI1; simp; fail)?; intro disjI2 conjI; linarith)
qed

lemma f64_within_of_int:
  assumes "0 \<le> n" "n < 2 ^ k"
  shows "f64_within k (of_int n)"
proof (cases "n = 0")
  case False
  have "pow2 (- int k) \<le> pow2 0" by (rule pow2_mono) simp
  moreover have "(1::rat) \<le> of_int n" using False assms(1) by simp
  moreover have "(of_int n :: rat) < 2 ^ k"
    using assms(2) by (metis of_int_less_iff of_int_numeral of_int_power)
  ultimately show ?thesis by (simp add: f64_within_def pow2_nat) (simp add: pow2_def)
qed (simp add: f64_within_def)

lemma f64_of_rat_finite:
  assumes "f64_within k x" "k \<le> 1022"
  shows "f64_of_rat x = Finite (f64_round x)"
proof -
  have "f64_within (Suc k) (f64_round x)" by (rule f64_within_round [OF assms])
  then have "f64_within 1023 (f64_round x)" by (rule f64_within_mono [rotated]) (use assms in simp)
  then have "0 \<le> f64_round x" "f64_round x = 0 \<or> f64_round x < pow2 1023"
    by (rule f64_within_nonneg) (use \<open>f64_within 1023 (f64_round x)\<close> in \<open>auto simp: f64_within_def\<close>)
  moreover have "f64_round x \<noteq> 0 \<Longrightarrow> pow2 (f64_exp (f64_round x)) \<le> \<bar>f64_round x\<bar>"
    by (rule f64_exp_bounds(1))
  ultimately have "f64_round x \<noteq> 0 \<Longrightarrow> pow2 (f64_exp (f64_round x)) < pow2 1023" by auto
  then show ?thesis by (auto simp: f64_of_rat_def Let_def pow2_less_iff)
qed

lemma rat_trunc_nonneg: "0 \<le> x \<Longrightarrow> 0 \<le> rat_trunc x \<and> of_int (rat_trunc x) \<le> x"
  by (simp add: rat_trunc_def)

lemma f64_of_int_exact: "0 \<le> n \<Longrightarrow> n < 2 ^ 53 \<Longrightarrow> f64_of_int n = Finite (of_int n)"
  using f64_of_rat_finite [OF f64_within_of_int, of n 53] by (simp add: f64_of_int_def)

lemma f64_to_int64_of_int: "in_int64 n \<Longrightarrow> f64_to_int64 (Finite (of_int n)) = n"
  by (simp add: rat_trunc_def)

end
