(* ===== verification/Gate_Rate.thy ===== *)
theory Gate_Rate
  imports Gate_Circuit Go_Float64
begin

text \<open>
  The token bucket of \<open>gate.go\<close>. The refill is computed in \<open>float64\<close> as the source
  does; the theory bounds its rounding error, shows that the token count stays in range, that
  the number of admitted requests is bounded by the bucket and the elapsed time, and that a
  drained bucket recovers.
\<close>

section \<open>State and operations\<close>

record RateLimiter =
  tokens :: int64
  maxTokens :: int64
  refillRate :: int64
  lastRefill :: time

definition min_int64 :: "int64 \<Rightarrow> int64 \<Rightarrow> int64" where
  "min_int64 a b = (if a < b then a else b)"

definition NewRateLimiter :: "time \<Rightarrow> GateConfig option \<Rightarrow> RateLimiter" where
  "NewRateLimiter now config =
     (let rl = \<lparr>tokens = 0, maxTokens = 1000, refillRate = 100, lastRefill = now\<rparr>;
          rl1 = (case config of
                   None \<Rightarrow> rl
                 | Some c \<Rightarrow>
                     if MaxRequestsPerSecond c > 0
                     then rl\<lparr>maxTokens := wrap64 (MaxRequestsPerSecond c * 10),
                             refillRate := MaxRequestsPerSecond c\<rparr>
                     else rl)
      in rl1\<lparr>tokens := maxTokens rl1\<rparr>)"

text \<open>\<open>int64(elapsed.Seconds() * float64(rl.refillRate))\<close>\<close>

definition refill_amount :: "duration \<Rightarrow> int64 \<Rightarrow> int64" where
  "refill_amount elapsed rate =
     f64_to_int64 (f64_mul (Duration_Seconds elapsed) (f64_of_int rate))"

definition RateLimiter_Allow :: "time \<Rightarrow> RateLimiter \<Rightarrow> RateLimiter \<times> go_error option" where
  "RateLimiter_Allow now rl =
     (let elapsed = time_Sub now (lastRefill rl);
          tokensToAdd = refill_amount elapsed (refillRate rl);
          rl1 = (if tokensToAdd > 0
                 then rl\<lparr>tokens := min_int64 (wrap64 (tokens rl + tokensToAdd)) (maxTokens rl),
                         lastRefill := now\<rparr>
                 else rl)
      in if tokens rl1 > 0 then (rl1\<lparr>tokens := wrap64 (tokens rl1 - 1)\<rparr>, None)
         else (rl1, Some ErrRateLimitExceeded))"

text \<open>A sequence of requests at given times, as a machine.\<close>

definition rate_step :: "RateLimiter \<Rightarrow> time \<Rightarrow> RateLimiter \<times> go_error option" where
  "rate_step rl now = RateLimiter_Allow now rl"

definition admitted :: "go_error option list \<Rightarrow> nat" where
  "admitted outs = length (filter (\<lambda>r. r = None) outs)"

section \<open>The invariant\<close>

text \<open>
  Rates up to 900 million requests per second: there the refill of any elapsed
  \<open>time.Duration\<close> fits an \<open>int64\<close> together with a full bucket.
\<close>

definition max_rate :: int64 where "max_rate = 900000000"

definition rate_inv :: "int64 \<Rightarrow> RateLimiter \<Rightarrow> bool" where
  "rate_inv rate rl \<longleftrightarrow>
     refillRate rl = rate \<and> 0 < rate \<and> rate \<le> max_rate \<and> maxTokens rl = 10 * rate \<and>
     0 \<le> tokens rl \<and> tokens rl \<le> maxTokens rl"

definition rate_config_ok :: "GateConfig option \<Rightarrow> bool" where
  "rate_config_ok config =
     (case config of None \<Rightarrow> True | Some c \<Rightarrow> MaxRequestsPerSecond c \<le> max_rate)"

section \<open>Bounds on the refill\<close>

fun f64_le0 :: "float64 \<Rightarrow> bool" where
  "f64_le0 (Finite x) = (x \<le> 0)"
| "f64_le0 PosInf = False"
| "f64_le0 NegInf = True"
| "f64_le0 NaN = True"

lemma round_even_nonpos: "y \<le> 0 \<Longrightarrow> round_even y \<le> 0"
  by (auto simp: round_even_def Let_def)

lemma f64_round_nonpos:
  assumes "x \<le> 0"
  shows "f64_round x \<le> 0"
proof -
  have pos: "0 < f64_ulp x" by (simp add: f64_ulp_def)
  then have "x / f64_ulp x \<le> 0" using assms by (simp add: divide_nonpos_pos)
  then have "round_even (x / f64_ulp x) \<le> 0" by (rule round_even_nonpos)
  then show ?thesis using pos by (simp add: f64_round_def mult_nonpos_nonneg)
qed

lemma f64_le0_of_rat: "x \<le> 0 \<Longrightarrow> f64_le0 (f64_of_rat x)"
  using f64_round_nonpos [of x] by (auto simp: f64_of_rat_def Let_def)

lemma f64_le0_to_int64: "f64_le0 v \<Longrightarrow> f64_to_int64 v \<le> 0"
  by (cases v) (auto simp: rat_trunc_def ceiling_le_zero)

lemma f64_of_small_int: "0 \<le> n \<Longrightarrow> n < 2 ^ 53 \<Longrightarrow> f64_of_int n = Finite (of_int n)"
  using f64_of_rat_finite [OF f64_within_of_int [of n 53]] by (simp add: f64_of_int_def)

lemma f64_div_le0: "f64_le0 v \<Longrightarrow> f64_le0 (f64_div v (f64_of_int 1000000000))"
  by (cases v) (simp_all add: f64_of_small_int f64_inf_of_def divide_nonpos_pos f64_le0_of_rat)

lemma f64_add_le0: "f64_le0 v \<Longrightarrow> f64_le0 w \<Longrightarrow> f64_le0 (f64_add v w)"
  by (cases v; cases w) (simp_all add: f64_le0_of_rat)

lemma f64_mul_le0: "f64_le0 v \<Longrightarrow> 0 \<le> r \<Longrightarrow> f64_le0 (f64_mul v (Finite r))"
  by (cases v) (simp_all add: f64_inf_of_def sgn_if mult_nonpos_nonneg f64_le0_of_rat)

lemma Duration_Seconds_le0:
  assumes "d \<le> 0"
  shows "f64_le0 (Duration_Seconds d)"
proof -
  have eq: "go_div d Second = - (\<bar>d\<bar> div Second)"
    using assms by (auto simp: go_div_def Second_def sgn_if)
  have "0 \<le> \<bar>d\<bar> div Second" by (simp add: Second_def pos_imp_zdiv_nonneg_iff)
  with eq have div: "go_div d Second \<le> 0" by simp
  have "\<bar>d\<bar> div Second * Second \<le> \<bar>d\<bar>"
    using pos_mod_sign [of Second "\<bar>d\<bar>"] div_mult_mod_eq [of "\<bar>d\<bar>" Second] by (simp add: Second_def)
  with eq assms have "go_mod d Second \<le> 0" by (simp add: go_mod_def)
  with div show ?thesis
    by (simp add: Duration_Seconds_def f64_of_int_def [of "go_div d Second"]
        f64_of_int_def [of "go_mod d Second"] f64_le0_of_rat f64_div_le0 f64_add_le0)
qed

lemma refill_amount_nonpos:
  assumes "d \<le> 0" "0 \<le> r" "r \<le> max_rate"
  shows "refill_amount d r \<le> 0"
proof -
  have "f64_of_int r = Finite (of_int r)"
    using assms by (intro f64_of_small_int) (simp_all add: max_rate_def)
  with assms show ?thesis
    by (simp add: refill_amount_def f64_le0_to_int64 f64_mul_le0 Duration_Seconds_le0)
qed

text \<open>The relative error of one rounding.\<close>

abbreviation eps :: rat where "eps \<equiv> pow2 (- 53)"

lemma f64_round_lower:
  assumes "normal_range x" "0 \<le> x"
  shows "x * (1 - eps) \<le> f64_round x"
  using f64_round_error [OF assms(1)] assms(2) by (simp add: algebra_simps abs_le_iff)

lemma eps_small: "0 < eps" "eps < 1"
  by (simp_all add: pow2_def)

lemma Duration_Seconds_bounds:
  assumes "0 \<le> d" "d < 2 ^ 63"
  defines "x \<equiv> of_int d / 1000000000"
  shows "\<exists>s. Duration_Seconds d = Finite s \<and> f64_within 68 s \<and>
    x * (1 - eps) ^ 2 \<le> s \<and> s \<le> x * (1 + eps) ^ 2"
proof -
  let ?q = "d div Second" and ?r = "d mod Second"
  have q: "0 \<le> ?q" "?q < 2 ^ 34" and r: "0 \<le> ?r" "?r < 2 ^ 30"
    using assms(1,2) by (simp_all add: Second_def div_less_iff_less_mult pos_imp_zdiv_nonneg_iff)
  have x: "x = of_int ?q + of_int ?r / 1000000000"
  proof -
    have "(of_int d :: rat) = of_int (?q * 1000000000 + ?r)" by (simp add: Second_def)
    then show ?thesis by (simp add: x_def)
  qed
  define f where "f = (of_int ?r :: rat) / 1000000000"
  have "f64_within (30 + 30) (of_int ?r * (1 / 1000000000))"
    using r by (intro f64_within_mult f64_within_of_int) (simp_all add: f64_within_def pow2_def)
  then have f60: "f64_within 60 f" by (simp add: f_def)
  have fr: "f64_div (f64_of_int ?r) (f64_of_int 1000000000) = Finite (f64_round f)"
    using r f64_of_rat_finite [OF f60] by (simp add: f64_of_small_int f_def)
  have f61: "f64_within 61 (f64_round f)" using f64_within_round [OF f60] by simp
  define g where "g = of_int ?q + f64_round f"
  have q61: "f64_within 61 (of_int ?q)"
    by (rule f64_within_mono [OF _ f64_within_of_int [of ?q 34]]) (use q in simp_all)
  have g62: "f64_within 62 g" using f64_within_add [OF q61 f61] by (simp add: g_def)
  have s: "Duration_Seconds d = Finite (f64_round g)"
    using q assms(1) fr f64_of_rat_finite [OF g62]
    by (simp add: Duration_Seconds_def go_div_nonneg go_mod_nonneg f64_of_small_int g_def)
  have fn: "0 \<le> f" "0 \<le> (of_int ?q :: rat)" using f64_within_nonneg [OF f60] q by simp_all
  have fb: "f * (1 - eps) \<le> f64_round f" "f64_round f \<le> f * (1 + eps)"
    using f60 fn by (auto intro!: f64_round_lower f64_round_upper f64_within_normal)
  have gb: "x * (1 - eps) \<le> g" "g \<le> x * (1 + eps)"
    using fb mult_nonneg_nonneg [OF fn(2) less_imp_le [OF eps_small(1)]]
    unfolding g_def x f_def [symmetric] by (simp_all add: algebra_simps add_increasing2)
  have "g * (1 - eps) \<le> f64_round g" "f64_round g \<le> g * (1 + eps)"
    using g62 f64_within_nonneg [OF g62] by (auto intro!: f64_round_lower f64_round_upper f64_within_normal)
  moreover have "x * (1 - eps) * (1 - eps) \<le> g * (1 - eps)" "g * (1 + eps) \<le> x * (1 + eps) * (1 + eps)"
    using gb by (auto intro!: mult_right_mono simp: pow2_def)
  ultimately have "x * (1 - eps) ^ 2 \<le> f64_round g" "f64_round g \<le> x * (1 + eps) ^ 2"
    by (simp_all add: power2_eq_square)
  moreover have "f64_within 68 (f64_round g)"
    by (rule f64_within_mono [OF _ f64_within_round [OF g62]]) simp_all
  ultimately show ?thesis using s by blast
qed

lemma refill_product:
  assumes "0 \<le> d" "d < 2 ^ 63" "0 < r" "r \<le> max_rate"
  defines "x \<equiv> of_int d / 1000000000 * of_int r"
  obtains y where "f64_mul (Duration_Seconds d) (f64_of_int r) = Finite y" "0 \<le> y"
    "x * (1 - pow2 (- 50)) \<le> y" "y \<le> x * (1 + pow2 (- 50))"
proof -
  obtain s where s: "Duration_Seconds d = Finite s" "f64_within 68 s"
    "of_int d / 1000000000 * (1 - eps) ^ 2 \<le> s" "s \<le> of_int d / 1000000000 * (1 + eps) ^ 2"
    using Duration_Seconds_bounds [OF assms(1,2)] by blast
  have r: "f64_of_int r = Finite (of_int r)"
    using assms(3,4) by (intro f64_of_small_int) (simp_all add: max_rate_def)
  have "f64_within 30 (of_int r)"
    using assms(3,4) by (intro f64_within_of_int) (simp_all add: max_rate_def)
  then have p98: "f64_within 98 (s * of_int r)" using f64_within_mult [OF s(2)] by fastforce
  define y where "y = f64_round (s * of_int r)"
  have mul: "f64_mul (Duration_Seconds d) (f64_of_int r) = Finite y"
    using f64_of_rat_finite [OF p98] by (simp add: s(1) r y_def)
  have sr: "x * (1 - eps) ^ 2 \<le> s * of_int r" "s * of_int r \<le> x * (1 + eps) ^ 2"
    using mult_right_mono [OF s(3), of "of_int r"] mult_right_mono [OF s(4), of "of_int r"] assms(3)
    by (simp_all add: x_def mult_ac)
  have "s * of_int r * (1 - eps) \<le> y" "y \<le> s * of_int r * (1 + eps)"
    using p98 f64_within_nonneg [OF p98] unfolding y_def
    by (auto intro!: f64_round_lower f64_round_upper f64_within_normal)
  then have y3: "x * (1 - eps) ^ 2 * (1 - eps) \<le> y" "y \<le> x * (1 + eps) ^ 2 * (1 + eps)"
    using mult_right_mono [OF sr(1), of "1 - eps"] mult_right_mono [OF sr(2), of "1 + eps"] eps_small
    by linarith+
  have x0: "0 \<le> x" using assms(1,3) by (simp add: x_def)
  have c: "1 - pow2 (- 50) \<le> (1 - eps) ^ 2 * (1 - eps)" "(1 + eps) ^ 2 * (1 + eps) \<le> 1 + pow2 (- 50)"
    by (simp_all add: pow2_def power2_eq_square)
  have yb: "x * (1 - pow2 (- 50)) \<le> y" "y \<le> x * (1 + pow2 (- 50))"
    using y3 mult_left_mono [OF c(1) x0] mult_left_mono [OF c(2) x0] by (simp_all add: mult_ac)
  have "0 \<le> y" using f64_round_nonneg f64_within_nonneg [OF p98] by (simp add: y_def)
  with mul yb show thesis using that by blast
qed

lemma refill_amount_bounds:
  assumes "0 \<le> d" "d < 2 ^ 63" "0 < r" "r \<le> max_rate"
  defines "x \<equiv> of_int d / 1000000000 * of_int r"
  shows "0 \<le> refill_amount d r"
    and "of_int (refill_amount d r) \<le> x * (1 + pow2 (- 50))"
    and "x * (1 - pow2 (- 50)) < of_int (refill_amount d r) + 1"
proof -
  obtain y where mul: "f64_mul (Duration_Seconds d) (f64_of_int r) = Finite y" and y0: "0 \<le> y"
    and yb: "x * (1 - pow2 (- 50)) \<le> y" "y \<le> x * (1 + pow2 (- 50))"
    using refill_product [OF assms(1-4)] unfolding x_def by blast
  have "x \<le> 9223372037 * 900000000"
    using assms(1-4) unfolding x_def max_rate_def by (intro mult_mono) auto
  then have "y \<le> 9223372037 * 900000000 * (1 + pow2 (- 50))"
    using yb(2) mult_right_mono [of x _ "1 + pow2 (- 50)"] by (simp add: pow2_def)
  also have "\<dots> < 9223372036854775808" by (simp add: pow2_def)
  finally have "rat_trunc y < 2 ^ 63" using y0 by (simp add: rat_trunc_def floor_less_iff)
  then have in64: "in_int64 (rat_trunc y)" using rat_trunc_nonneg [OF y0] by (simp add: in_int64_def)
  then have amount: "refill_amount d r = \<lfloor>y\<rfloor>"
    using y0 by (simp add: refill_amount_def mul rat_trunc_def)
  show "0 \<le> refill_amount d r" using y0 by (simp add: amount)
  show "of_int (refill_amount d r) \<le> x * (1 + pow2 (- 50))"
    unfolding amount using of_int_floor_le [of y] yb(2) by (rule order_trans)
  show "x * (1 - pow2 (- 50)) < of_int (refill_amount d r) + 1"
    using yb(1) floor_correct [of y] unfolding amount by linarith
qed

section \<open>One request\<close>

lemma NewRateLimiter_inv:
  "rate_config_ok config \<Longrightarrow> rate_inv (refillRate (NewRateLimiter now config)) (NewRateLimiter now config)"
  by (cases config)
    (auto simp: NewRateLimiter_def rate_inv_def rate_config_ok_def max_rate_def in_int64_def Let_def)

text \<open>
  The bucket after the refill, before a token is taken: what \<open>Allow\<close> computes when nothing
  overflows.
\<close>

definition refilled :: "time \<Rightarrow> RateLimiter \<Rightarrow> RateLimiter" where
  "refilled now rl =
     (let n = refill_amount (time_Sub now (lastRefill rl)) (refillRate rl)
      in if n > 0 then rl\<lparr>tokens := min (tokens rl + n) (maxTokens rl), lastRefill := now\<rparr> else rl)"

lemma refill_amount_in_int64:
  assumes "0 < r" "r \<le> max_rate" "0 \<le> t" "t \<le> 10 * r" "0 < refill_amount (time_Sub now prev) r"
  shows "in_int64 (t + refill_amount (time_Sub now prev) r)"
proof -
  let ?d = "time_Sub now prev"
  have "0 < ?d" using refill_amount_nonpos [of ?d r] assms by force
  moreover have "?d < 2 ^ 63" using in_int64_time_Sub by (simp add: in_int64_def)
  ultimately have "of_int (refill_amount ?d r) \<le> (of_int ?d / 1000000000 * of_int r) * (1 + pow2 (- 50))"
    using refill_amount_bounds(2) assms by simp
  also have "\<dots> \<le> (9223372037 * 900000000) * (1 + pow2 (- 50))"
    using \<open>0 < ?d\<close> \<open>?d < 2 ^ 63\<close> assms(1,2) unfolding max_rate_def
    by (intro mult_right_mono mult_mono) (auto simp: pow2_def)
  also have "\<dots> < of_int (9223372036854775808 - 9000000000)" by (simp add: pow2_def)
  finally have "refill_amount ?d r < 9223372036854775808 - 9000000000"
    by (simp only: of_int_less_iff)
  then show ?thesis using assms by (simp add: in_int64_def max_rate_def)
qed

lemma RateLimiter_Allow_refilled:
  assumes "rate_inv rate rl"
  shows "RateLimiter_Allow now rl =
    (if tokens (refilled now rl) > 0
     then ((refilled now rl)\<lparr>tokens := tokens (refilled now rl) - 1\<rparr>, None)
     else (refilled now rl, Some ErrRateLimitExceeded))"
proof -
  let ?n = "refill_amount (time_Sub now (lastRefill rl)) (refillRate rl)"
  have "0 < ?n \<Longrightarrow> in_int64 (tokens rl + ?n)"
    using assms by (intro refill_amount_in_int64) (auto simp: rate_inv_def)
  then have w: "0 < ?n \<Longrightarrow> wrap64 (tokens rl + ?n) = tokens rl + ?n" by simp
  have b: "tokens (refilled now rl) \<le> 10 * max_rate"
    using assms by (auto simp: refilled_def rate_inv_def max_rate_def Let_def)
  then have "0 < tokens (refilled now rl) \<Longrightarrow> in_int64 (tokens (refilled now rl) - 1)"
    by (simp add: in_int64_def max_rate_def)
  then have "0 < tokens (refilled now rl) \<Longrightarrow>
      wrap64 (tokens (refilled now rl) - 1) = tokens (refilled now rl) - 1" by simp
  moreover have "(if 0 < ?n then rl\<lparr>tokens := min_int64 (wrap64 (tokens rl + ?n)) (maxTokens rl),
      lastRefill := now\<rparr> else rl) = refilled now rl"
    using w by (auto simp: refilled_def min_int64_def min_def Let_def)
  ultimately show ?thesis by (simp add: RateLimiter_Allow_def Let_def)
qed

lemma refilled_inv: "rate_inv rate rl \<Longrightarrow> rate_inv rate (refilled now rl)"
  by (auto simp: refilled_def rate_inv_def Let_def)

lemma rate_step_inv [machine_inv]: "rate_inv rate rl \<Longrightarrow> rate_inv rate (fst (rate_step rl now))"
  using refilled_inv [of rate rl now]
  by (auto simp: rate_step_def RateLimiter_Allow_refilled rate_inv_def)

interpretation bucket: machine_invariant rate_step "rate_inv rate"
  by unfold_locales (rule rate_step_inv)

section \<open>Sequences of requests\<close>

text \<open>Tokens added per nanosecond, with the rounding error of the refill.\<close>

definition token_rate :: "int64 \<Rightarrow> rat" where
  "token_rate rate = of_int rate / 1000000000 * (1 + pow2 (- 50))"

lemma token_rate_nonneg: "0 \<le> rate \<Longrightarrow> 0 \<le> token_rate rate"
  by (simp add: token_rate_def pow2_def)

lemma refilled_tokens_le:
  assumes inv: "rate_inv rate rl" and "lastRefill rl \<le> now"
  shows "of_int (tokens (refilled now rl)) + of_int (nanos (lastRefill rl)) * token_rate rate
    \<le> of_int (tokens rl) + of_int (nanos (lastRefill (refilled now rl))) * token_rate rate"
proof -
  let ?d = "time_Sub now (lastRefill rl)"
  have r: "0 < rate" "rate \<le> max_rate" "refillRate rl = rate" using inv by (auto simp: rate_inv_def)
  have d: "0 \<le> ?d" "?d < 2 ^ 63" "?d \<le> nanos now - nanos (lastRefill rl)"
    using assms(2) time_Sub_nonneg time_Sub_le in_int64_time_Sub by (auto simp: in_int64_def)
  have "of_int (refill_amount ?d rate) \<le> of_int ?d * token_rate rate"
    using refill_amount_bounds(2) [OF d(1,2) r(1,2)] by (simp add: token_rate_def mult_ac)
  also have "\<dots> \<le> of_int (nanos now - nanos (lastRefill rl)) * token_rate rate"
    using d(3) token_rate_nonneg r(1) by (intro mult_right_mono) (auto simp: of_int_le_iff)
  finally show ?thesis
    using r by (auto simp: refilled_def Let_def algebra_simps min_def)
qed

lemma refilled_lastRefill:
  "lastRefill rl \<le> now \<Longrightarrow> lastRefill (refilled now rl) \<le> now \<and> lastRefill rl \<le> lastRefill (refilled now rl)"
  by (simp add: refilled_def Let_def)

lemma admitted_Cons [simp]: "admitted (r # rs) = (if r = None then Suc (admitted rs) else admitted rs)"
  by (simp add: admitted_def)

lemma admitted_Nil [simp]: "admitted [] = 0"
  by (simp add: admitted_def)

lemma admitted_bound:
  assumes "rate_inv rate rl" "sorted (lastRefill rl # ts)" "\<forall>t \<in> set ts. t \<le> end" "lastRefill rl \<le> end"
  shows "of_nat (admitted (snd (run rate_step rl ts))) \<le>
    of_int (tokens rl) + of_int (nanos end - nanos (lastRefill rl)) * token_rate rate"
  using assms
proof (induction ts arbitrary: rl)
  case Nil
  then show ?case
    using token_rate_nonneg [of rate] by (simp add: rate_inv_def time_le_nanos flip: of_int_diff)
next
  case (Cons t ts)
  let ?rl' = "refilled t rl" and ?step = "rate_step rl t"
  have le: "lastRefill rl \<le> t" using Cons.prems(2) by simp
  have step: "?step = (if tokens ?rl' > 0 then (?rl'\<lparr>tokens := tokens ?rl' - 1\<rparr>, None)
      else (?rl', Some ErrRateLimitExceeded))"
    using RateLimiter_Allow_refilled [OF Cons.prems(1)] by (simp add: rate_step_def)
  have last: "lastRefill (fst ?step) = lastRefill ?rl'" by (simp add: step)
  have tok: "tokens (fst ?step) + (if snd ?step = None then 1 else 0) = tokens ?rl'" by (simp add: step)
  have "sorted (lastRefill (fst ?step) # ts)" "\<forall>t \<in> set ts. t \<le> end" "lastRefill (fst ?step) \<le> end"
    using Cons.prems refilled_lastRefill [OF le] unfolding last by auto
  then have IH: "of_nat (admitted (snd (run rate_step (fst ?step) ts))) \<le>
      of_int (tokens (fst ?step)) + of_int (nanos end - nanos (lastRefill ?rl')) * token_rate rate"
    using Cons.IH [OF rate_step_inv [OF Cons.prems(1), of t]] unfolding last by blast
  have adm: "of_nat (admitted (snd (run rate_step rl (t # ts)))) =
      (if snd ?step = None then 1 else 0 :: rat) + of_nat (admitted (snd (run rate_step (fst ?step) ts)))"
    by (simp add: run_Cons del: run.simps(2))
  have tokr: "(of_int (tokens (fst ?step)) :: rat) + (if snd ?step = None then 1 else 0) = of_int (tokens ?rl')"
    unfolding tok [symmetric] by simp
  show ?case
    using IH tokr refilled_tokens_le [OF Cons.prems(1) le]
    unfolding adm of_int_diff left_diff_distrib by linarith
qed

text \<open>
  What a bucket has not yet been given when a request leaves it without a refill: less than one token, up to rounding.
\<close>

lemma pending_below_one:
  assumes inv: "rate_inv rate rl" and "lastRefill rl \<le> now" and "refill_amount (time_Sub now (lastRefill rl)) rate \<le> 0"
  shows "of_int (nanos now - nanos (lastRefill rl)) * token_rate rate < 1 + pow2 (- 48)"
proof -
  let ?d = "time_Sub now (lastRefill rl)" and ?e = "nanos now - nanos (lastRefill rl)"
  define x where "x = (of_int ?d :: rat) / 1000000000 * of_int rate"
  have r: "0 < rate" "rate \<le> max_rate" using inv by (auto simp: rate_inv_def)
  have d: "0 \<le> ?d" "?d < 2 ^ 63" using assms(2) time_Sub_nonneg in_int64_time_Sub by (auto simp: in_int64_def)
  have x1: "x * (1 - pow2 (- 50)) < 1"
  proof -
    have "(of_int (refill_amount ?d rate) :: rat) \<le> 0" using assms(3) by simp
    with refill_amount_bounds(3) [OF d r] show ?thesis unfolding x_def by linarith
  qed
  have xd: "(of_int ?d :: rat) / 1000000000 \<le> x"
    using mult_left_mono [of 1 "of_int rate" "(of_int ?d :: rat) / 1000000000"] r(1) d(1) unfolding x_def by simp
  have small: "?d < 2 ^ 62"
  proof (rule ccontr)
    assume "\<not> ?d < 2 ^ 62"
    then have "(of_int (2 ^ 62) :: rat) \<le> of_int ?d" by (simp only: of_int_le_iff not_less)
    with xd have "2 \<le> x" by simp
    then have "2 * (1 - pow2 (- 50)) \<le> x * (1 - pow2 (- 50))" by (intro mult_right_mono) (simp_all add: pow2_def)
    with x1 show False by (simp add: pow2_def)
  qed
  then have e: "?d = ?e" using assms(2) by (auto simp: time_Sub_def less_eq_time_def)
  have "x * (1 + pow2 (- 50)) * (1 - pow2 (- 50)) < 1 + pow2 (- 50)"
    using mult_strict_left_mono [OF x1, of "1 + pow2 (- 50)"] by (simp add: pow2_def mult_ac)
  also have "\<dots> \<le> (1 + pow2 (- 48)) * (1 - pow2 (- 50))" by (simp add: pow2_def)
  finally have "x * (1 + pow2 (- 50)) < 1 + pow2 (- 48)" by (rule mult_right_less_imp_less) (simp add: pow2_def)
  then show ?thesis by (simp add: x_def token_rate_def e mult_ac)
qed

lemma refilled_idem:
  assumes "rate_inv rate rl"
  shows "refilled t (refilled t rl) = refilled t rl"
proof -
  have z: "time_Sub t t = 0" by (simp add: time_Sub_def)
  have "refill_amount 0 (refillRate rl) \<le> 0" using refill_amount_nonpos [of 0 "refillRate rl"] assms by (simp add: rate_inv_def)
  then show ?thesis by (auto simp: refilled_def z Let_def)
qed

text \<open>A period that begins with a request: at most a full bucket, the rate, and what was pending.\<close>

lemma period_bound:
  assumes inv: "rate_inv rate rl" and "sorted (lastRefill rl # t # ts)" and "\<forall>u \<in> set (t # ts). u \<le> end"
  shows "of_nat (admitted (snd (run rate_step rl (t # ts)))) <
    of_int (maxTokens rl) + of_int (nanos end - nanos t) * token_rate rate + (1 + pow2 (- 48))"
proof -
  let ?rl' = "refilled t rl" let ?pending = "of_int (nanos t - nanos (lastRefill ?rl')) * token_rate rate"
  have le: "lastRefill rl \<le> t" using assms(2) by simp
  have "rate_inv rate ?rl'" by (rule refilled_inv [OF inv])
  moreover have idem: "refilled t ?rl' = ?rl'" by (rule refilled_idem [OF inv])
  ultimately have "rate_step rl t = rate_step ?rl' t"
    using RateLimiter_Allow_refilled [OF inv, of t] RateLimiter_Allow_refilled [of rate ?rl' t] by (simp add: rate_step_def)
  then have run: "run rate_step rl (t # ts) = run rate_step ?rl' (t # ts)" by simp
  have "of_nat (admitted (snd (run rate_step ?rl' (t # ts)))) \<le>
      of_int (tokens ?rl') + of_int (nanos end - nanos (lastRefill ?rl')) * token_rate rate"
    by (rule admitted_bound [OF \<open>rate_inv rate ?rl'\<close>]) (use assms refilled_lastRefill [OF le] in auto)
  moreover have "of_int (tokens ?rl') \<le> (of_int (maxTokens rl) :: rat)"
    using inv by (auto simp: rate_inv_def refilled_def Let_def)
  moreover have "?pending < 1 + pow2 (- 48)"
  proof (cases "refill_amount (time_Sub t (lastRefill rl)) rate \<le> 0")
    case True
    with pending_below_one [OF inv le] inv show ?thesis by (simp add: refilled_def rate_inv_def)
  next
    case False
    then have "lastRefill ?rl' = t" using inv by (simp add: refilled_def rate_inv_def)
    then show ?thesis by (simp add: pow2_def)
  qed
  ultimately show ?thesis unfolding run of_int_diff left_diff_distrib by linarith
qed

lemma run_lastRefill:
  "rate_inv rate rl \<Longrightarrow> \<forall>t \<in> set (lastRefill rl # ts). t \<le> end \<Longrightarrow> lastRefill (fst (run rate_step rl ts)) \<le> end"
proof (induction ts arbitrary: rl)
  case (Cons t ts)
  have "lastRefill (fst (rate_step rl t)) \<in> {lastRefill rl, t}"
    using RateLimiter_Allow_refilled [OF Cons.prems(1), of t] by (auto simp: rate_step_def refilled_def Let_def)
  with Cons.IH [OF rate_step_inv [OF Cons.prems(1), of t]] Cons.prems(2) show ?case
    by (auto simp: run_Cons simp del: run.simps(2))
qed simp

section \<open>Properties\<close>

text \<open>
  The token count of the rate limiter stays between zero and the size of the bucket: for
  every configuration of at most 900 million requests per second and every sequence of
  \<open>Allow\<close> calls, whatever the clock reads (also when it runs backwards), with the refill
  computed in \<open>float64\<close> and \<open>int64\<close> as the source does.
\<close>

theorem rate_limiter_in_range:
  assumes "rate_config_ok config"
    and "rl = fst (run rate_step (NewRateLimiter start config) ts)"
  shows "0 \<le> tokens rl \<and> tokens rl \<le> maxTokens rl \<and>
    maxTokens rl = 10 * refillRate (NewRateLimiter start config)"
proof -
  have "rate_inv (refillRate (NewRateLimiter start config)) rl"
    unfolding assms(2) by (intro bucket.run_inv NewRateLimiter_inv assms(1))
  then show ?thesis by (simp add: rate_inv_def)
qed

theorem rate_limiter_in_range_witness:
  "0 \<le> tokens (fst (run rate_step (NewRateLimiter (Time 0) (Some sample_config)) [Time 7, Time 3]))"
proof -
  have "rate_config_ok (Some sample_config)"
    by (simp add: rate_config_ok_def sample_config_def max_rate_def)
  from rate_limiter_in_range [OF this refl, of "Time 0" "[Time 7, Time 3]"] show ?thesis by blast
qed

text \<open>
  C2. The rate limiter bounds the traffic over any period of its life, for rates of at most 900 million per second and a
  clock that does not run backwards: among the requests \<open>ts\<close> made from \<open>begin\<close> to \<open>end\<close>, after any earlier requests \<open>past\<close>, it
  admits no more than a full bucket plus the configured rate times the length of the period, up to the relative rounding error
  \<open>2^(-50)\<close> of its \<open>float64\<close> arithmetic, plus one token (and \<open>2^(-48)\<close>), which the time since the latest refill
  before the period may be worth.
\<close>

theorem rate_limiter_admission_bound:
  assumes "rate_config_ok config" and "sorted (start # past @ ts)"
    and "\<forall>t \<in> set ts. begin \<le> t \<and> t \<le> end" and "begin \<le> end"
    and "rl = fst (run rate_step (NewRateLimiter start config) past)"
  shows "of_nat (admitted (snd (run rate_step rl ts))) <
    of_int (maxTokens rl) + of_int (nanos end - nanos begin) * (of_int (refillRate rl) / 1000000000 * (1 + pow2 (- 50))) +
    (1 + pow2 (- 48))"
proof -
  let ?rate = "refillRate (NewRateLimiter start config)"
  have inv: "rate_inv ?rate rl" unfolding assms(5) by (intro bucket.run_inv NewRateLimiter_inv assms(1))
  then have r: "refillRate rl = ?rate" "0 \<le> maxTokens rl" "0 \<le> ?rate" by (auto simp: rate_inv_def)
  have period: "0 \<le> of_int (nanos end - nanos begin) * token_rate ?rate"
    using assms(4) token_rate_nonneg [OF r(3)] by (simp add: time_le_nanos flip: of_int_diff)
  show ?thesis
  proof (cases ts)
    case Nil
    with r period show ?thesis by (simp add: token_rate_def pow2_def add_nonneg_pos)
  next
    case (Cons t us)
    have "lastRefill (NewRateLimiter start config) = start" by (simp add: NewRateLimiter_def Let_def split: option.split)
    with assms(2) have "lastRefill rl \<le> t"
      unfolding assms(5) Cons by (intro run_lastRefill [OF NewRateLimiter_inv [OF assms(1)]]) (auto simp: sorted_append)
    then have "sorted (lastRefill rl # t # us)" using assms(2) Cons by (auto simp: sorted_append)
    from period_bound [OF inv this, of "end"] assms(3) Cons
    have "of_nat (admitted (snd (run rate_step rl ts))) <
        of_int (maxTokens rl) + of_int (nanos end - nanos t) * token_rate ?rate + (1 + pow2 (- 48))" by simp
    moreover have "of_int (nanos end - nanos t) * token_rate ?rate \<le> of_int (nanos end - nanos begin) * token_rate ?rate"
      using assms(3) Cons token_rate_nonneg [OF r(3)] by (intro mult_right_mono) (auto simp: time_le_nanos)
    ultimately show ?thesis by (simp add: token_rate_def r(1))
  qed
qed

theorem rate_limiter_admission_bound_witness:
  "of_nat (admitted (snd (run rate_step (fst (run rate_step (NewRateLimiter (Time 0) (Some sample_config)) [Time 50]))
     [Time 100, Time 1000000000]))) < 1000 + (999999900 * (1 / 10000000) * (1 + pow2 (- 50))) + (1 + pow2 (- 48))"
proof -
  let ?rl = "fst (run rate_step (NewRateLimiter (Time 0) (Some sample_config)) [Time 50])"
  have "rate_config_ok (Some sample_config)"
    by (simp add: rate_config_ok_def sample_config_def max_rate_def)
  moreover from rate_limiter_in_range [OF this refl, of "Time 0" "[Time 50]"] bucket.run_inv [OF NewRateLimiter_inv [OF this],
      of "Time 0" "[Time 50]"]
  have "maxTokens ?rl = 1000" "refillRate ?rl = 100"
    by (simp_all add: rate_inv_def NewRateLimiter_def sample_config_def in_int64_def del: run.simps)
  ultimately show ?thesis
    using rate_limiter_admission_bound [of "Some sample_config" "Time 0" "[Time 50]" "[Time 100, Time 1000000000]" "Time 100"
        "Time 1000000000" ?rl]
    by (simp add: field_simps del: run.simps)
qed

text \<open>
  A drained bucket recovers: once the time since the latest refill is worth two tokens, the
  next request is admitted, whatever the state of the bucket.
\<close>

theorem rate_limiter_recovers:
  assumes inv: "rate_inv rate rl" and "in_int64 (nanos now - nanos (lastRefill rl))"
    and "(nanos now - nanos (lastRefill rl)) * rate \<ge> 2 * Second"
  shows "snd (RateLimiter_Allow now rl) = None"
proof -
  let ?d = "time_Sub now (lastRefill rl)"
  have r: "0 < rate" "rate \<le> max_rate" "refillRate rl = rate" using inv by (auto simp: rate_inv_def)
  have dr: "2 * Second \<le> ?d * rate" using assms by (simp add: time_Sub_exact)
  then have "0 < ?d * rate" by (simp add: Second_def)
  then have "0 < ?d" using r(1) by (simp add: zero_less_mult_iff)
  then have d: "0 \<le> ?d" "?d < 2 ^ 63" using in_int64_time_Sub by (auto simp: in_int64_def)
  have "(of_int (2 * Second) :: rat) \<le> of_int (?d * rate)" using dr by (simp only: of_int_le_iff)
  then have "(2 * 1000000000 :: rat) \<le> of_int ?d * of_int rate" by (simp add: Second_def)
  then have "2 * (1 - pow2 (- 50)) \<le> of_int ?d / 1000000000 * of_int rate * (1 - pow2 (- 50))"
    by (intro mult_right_mono) (simp_all add: pow2_def)
  moreover have "1 < 2 * (1 - pow2 (- 50))" by (simp add: pow2_def)
  ultimately have "(0 :: rat) < of_int (refill_amount ?d rate)"
    using refill_amount_bounds(3) [OF d r(1,2)] by linarith
  then have "tokens (refilled now rl) > 0"
    using inv r by (simp add: refilled_def rate_inv_def Let_def)
  then show ?thesis by (simp add: RateLimiter_Allow_refilled [OF inv])
qed

theorem rate_limiter_recovers_witness:
  "snd (RateLimiter_Allow (Time 20000000)
     \<lparr>tokens = 0, maxTokens = 1000, refillRate = 100, lastRefill = Time 0\<rparr>) = None"
  by (rule rate_limiter_recovers [where rate = 100])
    (simp_all add: rate_inv_def max_rate_def in_int64_def Second_def)

end
