(* ===== verification/Gate_Limiter.thy ===== *)
theory Gate_Limiter
  imports Gate_Circuit
begin

text \<open>
  The connection limiter of \<open>gate.go\<close> with its three backpressure modes. The semaphore
  channel is the number of values it buffers, its capacity is \<open>maxConnections\<close>. A call that
  has to wait takes two extra arguments: what the other goroutines do to the limiter while it
  waits (a list of their operations) and which case of the \<open>select\<close> statement fires then.
\<close>

section \<open>State\<close>

record ConnectionLimiter =
  currentConnections :: int64
  maxConnections :: int64
  cl_mode :: string
  cl_timeout :: duration
  sem :: "int option"

definition NewConnectionLimiter :: "GateConfig option \<Rightarrow> ConnectionLimiter" where
  "NewConnectionLimiter config =
     (let cl = \<lparr>currentConnections = 0, maxConnections = 100, cl_mode = '''', cl_timeout = 0,
                sem = None\<rparr>
      in case config of
           None \<Rightarrow> cl
         | Some c \<Rightarrow>
             (let cl1 = (if MaxConcurrentConnections c > 0
                         then cl\<lparr>maxConnections := MaxConcurrentConnections c\<rparr> else cl);
                  cl2 = cl1\<lparr>cl_mode := BackpressureMode c, cl_timeout := BackpressureTimeout c\<rparr>
              in if cl_mode cl2 = ''block'' \<or> cl_mode cl2 = ''timeout''
                 then cl2\<lparr>sem := Some 0\<rparr> else cl2))"

section \<open>Operations\<close>

definition Acquire :: "ConnectionLimiter \<Rightarrow> ConnectionLimiter \<times> go_error option" where
  "Acquire cl =
     (if currentConnections cl \<ge> maxConnections cl then (cl, Some ErrConnectionLimit)
      else (cl\<lparr>currentConnections := wrap64 (currentConnections cl + 1)\<rparr>, None))"

definition Release :: "ConnectionLimiter \<Rightarrow> ConnectionLimiter" where
  "Release cl =
     (let cl1 = (case sem cl of
                   None \<Rightarrow> cl
                 | Some n \<Rightarrow> if n > 0 then cl\<lparr>sem := Some (n - 1)\<rparr> else cl)
      in cl1\<lparr>currentConnections := wrap64 (currentConnections cl1 - 1)\<rparr>)"

text \<open>The send \<open>cl.sem <- struct{}{}\<close> with the counter: it proceeds if there is room.\<close>

definition send_slot :: "ConnectionLimiter \<Rightarrow> ConnectionLimiter \<times> go_error option outcome" where
  "send_slot cl =
     (case sem cl of
        Some n \<Rightarrow>
          if n < maxConnections cl
          then (cl\<lparr>sem := Some (n + 1), currentConnections := wrap64 (currentConnections cl + 1)\<rparr>,
                Ret None)
          else (cl, Blocked)
      | None \<Rightarrow> (cl, Blocked))"

text \<open>What other goroutines do meanwhile: take a slot on the fast path, or release one.\<close>

datatype limiter_op = OtherAcquire | OtherRelease

fun limiter_others :: "limiter_op list \<Rightarrow> ConnectionLimiter \<Rightarrow> ConnectionLimiter" where
  "limiter_others [] cl = cl"
| "limiter_others (OtherAcquire # ops) cl = limiter_others ops (fst (send_slot cl))"
| "limiter_others (OtherRelease # ops) cl = limiter_others ops (Release cl)"

text \<open>
  The case of the \<open>select\<close> that fires: the send, the timer, or the context with its error.
  A case that is not ready cannot fire, so choosing it means that the call does not return.
\<close>

datatype select_case = SelSlot | SelTimer | SelDone go_error

definition AcquireWithContext ::
    "limiter_op list \<Rightarrow> select_case \<Rightarrow> ConnectionLimiter \<Rightarrow>
     ConnectionLimiter \<times> go_error option outcome" where
  "AcquireWithContext others sel cl =
     (if sem cl = None then map_prod id Ret (Acquire cl)
      else case send_slot cl of
        (cl1, Ret r) \<Rightarrow> (cl1, Ret r)
      | _ \<Rightarrow>
        if cl_mode cl = ''block'' then
          (let cl1 = limiter_others others cl
           in case sel of
                SelSlot \<Rightarrow> send_slot cl1
              | SelDone e \<Rightarrow> (cl1, Ret (Some e))
              | SelTimer \<Rightarrow> (cl1, Blocked))
        else if cl_mode cl = ''timeout'' then
          (if cl_timeout cl \<le> 0 then (cl, Ret (Some ErrConnectionLimit))
           else
             (let cl1 = limiter_others others cl
              in case sel of
                   SelSlot \<Rightarrow> send_slot cl1
                 | SelTimer \<Rightarrow> (cl1, Ret (Some ErrConnectionLimit))
                 | SelDone e \<Rightarrow> (cl1, Ret (Some e))))
        else (cl, Ret (Some ErrConnectionLimit)))"

definition CurrentConnections :: "ConnectionLimiter \<Rightarrow> int64" where
  "CurrentConnections cl = currentConnections cl"

section \<open>Slots held\<close>

text \<open>
  \<open>limiter_reach config cl h\<close>: the limiter built from \<open>config\<close> is in state \<open>cl\<close> after
  some sequence of calls in which only held slots are released, and the callers hold \<open>h\<close> slots.
\<close>

inductive limiter_reach :: "GateConfig option \<Rightarrow> ConnectionLimiter \<Rightarrow> nat \<Rightarrow> bool"
  for config where
  reach_new: "limiter_reach config (NewConnectionLimiter config) 0"
| reach_acquire:
    "limiter_reach config cl h \<Longrightarrow> AcquireWithContext [] sel cl = (cl', Ret None) \<Longrightarrow>
     limiter_reach config cl' (Suc h)"
| reach_refused:
    "limiter_reach config cl h \<Longrightarrow> AcquireWithContext [] sel cl = (cl', Ret (Some e)) \<Longrightarrow>
     limiter_reach config cl' h"
| reach_release:
    "limiter_reach config cl (Suc h) \<Longrightarrow> limiter_reach config (Release cl) h"

definition limiter_config_ok :: "GateConfig option \<Rightarrow> bool" where
  "limiter_config_ok config =
     (case config of None \<Rightarrow> True | Some c \<Rightarrow> MaxConcurrentConnections c < 2 ^ 63)"

text \<open>Counter and semaphore agree with the slots held, and these fit the limit.\<close>

definition limiter_inv :: "ConnectionLimiter \<Rightarrow> nat \<Rightarrow> bool" where
  "limiter_inv cl h \<longleftrightarrow>
     0 < maxConnections cl \<and> maxConnections cl < 2 ^ 63 \<and>
     currentConnections cl = int h \<and> int h \<le> maxConnections cl \<and>
     (if cl_mode cl = ''block'' \<or> cl_mode cl = ''timeout'' then sem cl = Some (int h)
      else sem cl = None)"

section \<open>Lemmas\<close>

lemma NewConnectionLimiter_inv:
  "limiter_config_ok config \<Longrightarrow> limiter_inv (NewConnectionLimiter config) 0"
  by (cases config) (auto simp: limiter_config_ok_def limiter_inv_def NewConnectionLimiter_def Let_def)

lemma send_slot_inv:
  "limiter_inv cl h \<Longrightarrow> send_slot cl = (cl', Ret r) \<Longrightarrow> r = None \<and> limiter_inv cl' (Suc h)"
  by (auto simp: send_slot_def limiter_inv_def in_int64_def split: option.splits if_splits)

lemma send_slot_blocked: "send_slot cl = (cl', Blocked) \<Longrightarrow> cl' = cl"
  by (auto simp: send_slot_def split: option.splits if_splits)

lemma send_slot_cases:
  obtains (taken) cl' where "send_slot cl = (cl', Ret None)" | (full) "send_slot cl = (cl, Blocked)"
  by (cases "sem cl"; cases "the (sem cl) < maxConnections cl") (auto simp: send_slot_def)

lemma Release_inv: "limiter_inv cl (Suc h) \<Longrightarrow> limiter_inv (Release cl) h"
  by (auto simp: Release_def limiter_inv_def in_int64_def Let_def split: if_splits)

lemma Acquire_inv:
  "limiter_inv cl h \<Longrightarrow> sem cl = None \<Longrightarrow> Acquire cl = (cl', r) \<Longrightarrow>
   limiter_inv cl' (if r = None then Suc h else h) \<and> r \<in> {None, Some ErrConnectionLimit}"
  by (auto simp: Acquire_def limiter_inv_def in_int64_def split: if_splits)

lemma AcquireWithContext_inv:
  assumes "limiter_inv cl h" "AcquireWithContext [] sel cl = (cl', Ret r)"
  shows "limiter_inv cl' (if r = None then Suc h else h)"
proof (cases "sem cl = None")
  case True
  with assms(2) have "Acquire cl = (cl', r)"
    by (cases "Acquire cl") (simp add: AcquireWithContext_def)
  with Acquire_inv [OF assms(1) True] show ?thesis by blast
next
  case False
  show ?thesis
  proof (cases cl rule: send_slot_cases)
    case (taken cl1)
    with False assms send_slot_inv [OF assms(1) taken] show ?thesis by (auto simp: AcquireWithContext_def)
  next
    case full
    with False assms show ?thesis
      by (auto simp: AcquireWithContext_def Let_def split: if_splits select_case.splits)
  qed
qed

lemma limiter_reach_inv:
  assumes "limiter_config_ok config"
  shows "limiter_reach config cl h \<Longrightarrow> limiter_inv cl h"
proof (induction rule: limiter_reach.induct)
  case reach_new
  show ?case by (rule NewConnectionLimiter_inv [OF assms])
next
  case (reach_acquire cl h sel cl')
  then show ?case using AcquireWithContext_inv by fastforce
next
  case (reach_refused cl h sel cl' e)
  then show ?case using AcquireWithContext_inv by fastforce
next
  case (reach_release cl h)
  then show ?case by (blast intro: Release_inv)
qed

definition limiter_full :: "ConnectionLimiter \<Rightarrow> bool" where
  "limiter_full cl \<longleftrightarrow>
     (case sem cl of None \<Rightarrow> currentConnections cl \<ge> maxConnections cl
                   | Some n \<Rightarrow> n \<ge> maxConnections cl)"

lemma limiter_full_iff: "limiter_inv cl h \<Longrightarrow> limiter_full cl \<longleftrightarrow> int h = maxConnections cl"
  by (auto simp: limiter_full_def limiter_inv_def split: option.splits if_splits)

lemma AcquireWithContext_room:
  "limiter_inv cl h \<Longrightarrow> \<not> limiter_full cl \<Longrightarrow>
   \<exists>cl'. AcquireWithContext others sel cl = (cl', Ret None) \<and> limiter_inv cl' (Suc h)"
  by (auto simp: limiter_full_def limiter_inv_def AcquireWithContext_def send_slot_def Acquire_def
      in_int64_def split: option.splits if_splits)

section \<open>Properties\<close>

text \<open>
  C3. The connection limiter never lets more than \<open>maxConnections\<close> slots be held at once,
  in every backpressure mode: after any sequence of acquisitions and releases of held slots,
  \<open>CurrentConnections()\<close> is the number of slots held, and the semaphore, in the modes that
  have one, buffers exactly as many values.
\<close>

theorem limiter_counts_slots:
  assumes "limiter_config_ok config" and "limiter_reach config cl h"
  shows "CurrentConnections cl = int h \<and> int h \<le> maxConnections cl \<and>
    (cl_mode cl \<in> {''block'', ''timeout''} \<longrightarrow> sem cl = Some (int h))"
  using limiter_reach_inv [OF assms] by (auto simp: limiter_inv_def CurrentConnections_def)

lemma sample_limiter:
  "NewConnectionLimiter (Some sample_config) =
     \<lparr>currentConnections = 0, maxConnections = 3, cl_mode = ''drop'', cl_timeout = 0, sem = None\<rparr>"
  by (simp add: NewConnectionLimiter_def sample_config_def)

lemma sample_limiter_ok: "limiter_config_ok (Some sample_config)"
  by (simp add: limiter_config_ok_def sample_config_def)

theorem limiter_counts_slots_witness:
  "CurrentConnections (fst (AcquireWithContext [] SelSlot (NewConnectionLimiter (Some sample_config)))) = 1"
proof -
  let ?cl = "fst (AcquireWithContext [] SelSlot (NewConnectionLimiter (Some sample_config)))"
  have "AcquireWithContext [] SelSlot (NewConnectionLimiter (Some sample_config)) = (?cl, Ret None)"
    by (simp add: sample_limiter AcquireWithContext_def Acquire_def)
  then have "limiter_reach (Some sample_config) ?cl 1"
    using reach_acquire [OF reach_new] by fastforce
  from limiter_counts_slots [OF sample_limiter_ok this] show ?thesis by simp
qed

text \<open>
  What a caller gets from a full limiter, mode by mode: without a semaphore, or with mode
  "timeout" and no positive timeout, it is refused at once with \<open>ErrConnectionLimit\<close> and the
  limiter is unchanged; in mode "timeout" the timer ends the wait with the same error; in modes
  "block" and "timeout" the end of the context gives the context's error; and the slot that
  another goroutine releases during the wait is handed over, so that the limiter is full again.
\<close>

theorem full_limiter_backpressure:
  assumes inv: "limiter_inv cl h" and full: "limiter_full cl"
  shows "(cl_mode cl \<notin> {''block'', ''timeout''} \<or> (cl_mode cl = ''timeout'' \<and> cl_timeout cl \<le> 0) \<longrightarrow>
      AcquireWithContext others sel cl = (cl, Ret (Some ErrConnectionLimit))) \<and>
    (cl_mode cl = ''timeout'' \<and> cl_timeout cl > 0 \<longrightarrow>
      snd (AcquireWithContext others SelTimer cl) = Ret (Some ErrConnectionLimit)) \<and>
    (cl_mode cl = ''block'' \<or> (cl_mode cl = ''timeout'' \<and> cl_timeout cl > 0) \<longrightarrow>
      snd (AcquireWithContext others (SelDone e) cl) = Ret (Some e) \<and>
      AcquireWithContext [] SelSlot cl = (cl, Blocked) \<and>
      AcquireWithContext [OtherRelease] SelSlot cl = (cl, Ret None))"
proof -
  have full': "int h = maxConnections cl" using limiter_full_iff [OF inv] full by simp
  show ?thesis
    using inv full full'
    by (auto simp: limiter_inv_def limiter_full_def AcquireWithContext_def send_slot_def Acquire_def
        Release_def in_int64_def Let_def split: if_splits)
qed

theorem full_limiter_backpressure_witness:
  "AcquireWithContext [OtherRelease] SelSlot
     \<lparr>currentConnections = 2, maxConnections = 2, cl_mode = ''block'', cl_timeout = 0, sem = Some 2\<rparr> =
   (\<lparr>currentConnections = 2, maxConnections = 2, cl_mode = ''block'', cl_timeout = 0, sem = Some 2\<rparr>,
    Ret None)"
  using full_limiter_backpressure
    [of "\<lparr>currentConnections = 2, maxConnections = 2, cl_mode = ''block'', cl_timeout = 0, sem = Some 2\<rparr>" 2]
  by (simp add: limiter_inv_def limiter_full_def)

end
