(* ===== verification/Gate.thy ===== *)
theory Gate
  imports Gate_Rate Gate_Limiter
begin

text \<open>
  The connection gate of \<open>gate.go\<close>: the circuit breaker, the rate limiter and the
  connection limiter in series, and \<open>ExecuteWithGate\<close>, which runs an operation behind
  them. The operation is a parameter: it changes some state of its own (the database) and
  returns a value or an error.
\<close>

section \<open>The gate\<close>

record ConnectionGate =
  circuitBreaker :: CircuitBreaker
  rateLimiter :: RateLimiter
  connectionLimiter :: ConnectionLimiter

text \<open>The clock readings of one guarded execution, in the order they may be made.\<close>

record gate_clock =
  at_circuit :: time
  at_rate :: time
  at_refusal :: time
  at_done :: time

definition NewConnectionGate :: "time \<Rightarrow> GateConfig option \<Rightarrow> ConnectionGate" where
  "NewConnectionGate now config =
     \<lparr>circuitBreaker = NewCircuitBreaker config, rateLimiter = NewRateLimiter now config,
      connectionLimiter = NewConnectionLimiter config\<rparr>"

definition ConnectionGate_Allow ::
    "gate_clock \<Rightarrow> limiter_op list \<Rightarrow> select_case \<Rightarrow> ConnectionGate \<Rightarrow>
     ConnectionGate \<times> go_error option outcome" where
  "ConnectionGate_Allow clk others sel cg =
     (case CircuitBreaker_Allow (at_circuit clk) (circuitBreaker cg) of
        (cb, Some err) \<Rightarrow> (cg\<lparr>circuitBreaker := cb\<rparr>, Ret (Some err))
      | (cb, None) \<Rightarrow>
          (case RateLimiter_Allow (at_rate clk) (rateLimiter cg) of
             (rl, Some err) \<Rightarrow>
               (cg\<lparr>circuitBreaker := CircuitBreaker_RecordFailure (at_refusal clk) cb,
                   rateLimiter := rl\<rparr>, Ret (Some err))
           | (rl, None) \<Rightarrow>
               (case AcquireWithContext others sel (connectionLimiter cg) of
                  (cl, Ret (Some err)) \<Rightarrow>
                    (cg\<lparr>circuitBreaker := CircuitBreaker_RecordFailure (at_refusal clk) cb,
                        rateLimiter := rl, connectionLimiter := cl\<rparr>, Ret (Some err))
                | (cl, r) \<Rightarrow>
                    (cg\<lparr>circuitBreaker := cb, rateLimiter := rl, connectionLimiter := cl\<rparr>, r))))"

definition ConnectionGate_Release :: "ConnectionGate \<Rightarrow> ConnectionGate" where
  "ConnectionGate_Release cg = cg\<lparr>connectionLimiter := Release (connectionLimiter cg)\<rparr>"

definition ConnectionGate_RecordSuccess :: "ConnectionGate \<Rightarrow> ConnectionGate" where
  "ConnectionGate_RecordSuccess cg =
     cg\<lparr>circuitBreaker := CircuitBreaker_RecordSuccess (circuitBreaker cg)\<rparr>"

definition ConnectionGate_RecordFailure :: "time \<Rightarrow> ConnectionGate \<Rightarrow> ConnectionGate" where
  "ConnectionGate_RecordFailure now cg =
     cg\<lparr>circuitBreaker := CircuitBreaker_RecordFailure now (circuitBreaker cg),
        connectionLimiter := Release (connectionLimiter cg)\<rparr>"

definition ConnectionGate_State :: "ConnectionGate \<Rightarrow> string" where
  "ConnectionGate_State cg = CircuitBreaker_State (circuitBreaker cg)"

definition ExecuteWithGate ::
    "gate_clock \<Rightarrow> limiter_op list \<Rightarrow> select_case \<Rightarrow> ('s \<Rightarrow> 's \<times> (go_error + 'a)) \<Rightarrow>
     ConnectionGate \<times> 's \<Rightarrow> (ConnectionGate \<times> 's) \<times> (go_error + 'a) outcome" where
  "ExecuteWithGate clk others sel operation = (\<lambda>(cg, s).
     (case ConnectionGate_Allow clk others sel cg of
        (cg1, Ret (Some err)) \<Rightarrow> ((cg1, s), Ret (Inl err))
      | (cg1, Ret None) \<Rightarrow>
          (case operation s of
             (s1, Inl err) \<Rightarrow> ((ConnectionGate_RecordFailure (at_done clk) cg1, s1), Ret (Inl err))
           | (s1, Inr result) \<Rightarrow> ((ConnectionGate_RecordSuccess cg1, s1), Ret (Inr result)))
      | (cg1, Panic m) \<Rightarrow> ((cg1, s), Panic m)
      | (cg1, Blocked) \<Rightarrow> ((cg1, s), Blocked)))"

text \<open>A client that runs operations one after the other.\<close>

type_synonym ('s, 'a) gate_call = "gate_clock \<times> select_case \<times> ('s \<Rightarrow> 's \<times> (go_error + 'a))"

definition gate_step ::
    "ConnectionGate \<times> 's \<Rightarrow> ('s, 'a) gate_call \<Rightarrow>
     (ConnectionGate \<times> 's) \<times> (go_error + 'a) outcome" where
  "gate_step st call = (case call of (clk, sel, op) \<Rightarrow> ExecuteWithGate clk [] sel op st)"

fun succeeded :: "(go_error + 'a) outcome \<Rightarrow> bool" where
  "succeeded (Ret (Inr _)) = True"
| "succeeded _ = False"

section \<open>The invariant\<close>

text \<open>The gate with \<open>h\<close> slots taken and not released.\<close>

definition gate_inv :: "ConnectionGate \<Rightarrow> nat \<Rightarrow> bool" where
  "gate_inv cg h \<longleftrightarrow>
     circuit_inv (maxFailures (circuitBreaker cg)) (resetTimeout (circuitBreaker cg))
       (circuitBreaker cg) \<and>
     rate_inv (refillRate (rateLimiter cg)) (rateLimiter cg) \<and>
     limiter_inv (connectionLimiter cg) h"

definition gate_config_ok :: "GateConfig option \<Rightarrow> bool" where
  "gate_config_ok config \<longleftrightarrow>
     config_ok config \<and> rate_config_ok config \<and> limiter_config_ok config"

section \<open>Lemmas\<close>

lemma NewConnectionGate_inv: "gate_config_ok config \<Longrightarrow> gate_inv (NewConnectionGate now config) 0"
  by (simp add: gate_config_ok_def gate_inv_def NewConnectionGate_def NewCircuitBreaker_inv
      NewRateLimiter_inv NewConnectionLimiter_inv)

lemma circuit_inv_ops:
  assumes "circuit_inv (maxFailures cb) (resetTimeout cb) cb"
  shows "circuit_inv (maxFailures (fst (circuit_step cb e))) (resetTimeout (fst (circuit_step cb e)))
    (fst (circuit_step cb e))"
  using circuit_step_inv [OF assms, of e] by (simp add: circuit_inv_def)

lemmas circuit_inv_Allow = circuit_inv_ops [where e = "EvAllow t" for t, simplified]
lemmas circuit_inv_Success = circuit_inv_ops [where e = EvSuccess, simplified]
lemmas circuit_inv_Failure = circuit_inv_ops [where e = "EvFailure t" for t, simplified]

lemma rate_inv_Allow:
  assumes "rate_inv (refillRate rl) rl"
  shows "rate_inv (refillRate (fst (RateLimiter_Allow t rl))) (fst (RateLimiter_Allow t rl))"
  using rate_step_inv [OF assms, of t] by (simp add: rate_step_def rate_inv_def)

lemma gate_inv_RecordSuccess: "gate_inv cg h \<Longrightarrow> gate_inv (ConnectionGate_RecordSuccess cg) h"
  by (simp add: gate_inv_def ConnectionGate_RecordSuccess_def circuit_inv_Success)

lemma gate_inv_RecordFailure:
  "gate_inv cg (Suc h) \<Longrightarrow> gate_inv (ConnectionGate_RecordFailure now cg) h"
  by (simp add: gate_inv_def ConnectionGate_RecordFailure_def circuit_inv_Failure Release_inv)

lemma AcquireWithContext_blocked:
  "AcquireWithContext [] sel cl = (cl', Blocked) \<Longrightarrow> cl' = cl"
  by (cases cl rule: send_slot_cases)
    (auto simp: AcquireWithContext_def Let_def map_prod_def
      split: if_splits select_case.splits prod.splits)

lemma AcquireWithContext_no_panic: "AcquireWithContext others sel cl \<noteq> (cl', Panic m)"
  by (auto simp: AcquireWithContext_def send_slot_def Let_def map_prod_def
      split: if_splits select_case.splits option.splits prod.splits)

lemma gate_inv_Allow:
  assumes "gate_inv cg h" "ConnectionGate_Allow clk [] sel cg = (cg', r)"
  shows "gate_inv cg' (if r = Ret None then Suc h else h)"
proof -
  let ?cb = "CircuitBreaker_Allow (at_circuit clk) (circuitBreaker cg)"
  let ?rl = "RateLimiter_Allow (at_rate clk) (rateLimiter cg)"
  let ?cl = "AcquireWithContext [] sel (connectionLimiter cg)"
  have cb: "circuit_inv (maxFailures (fst ?cb)) (resetTimeout (fst ?cb)) (fst ?cb)"
    and rl: "rate_inv (refillRate (fst ?rl)) (fst ?rl)" and cl: "limiter_inv (connectionLimiter cg) h"
    using assms(1) by (simp_all add: gate_inv_def circuit_inv_Allow rate_inv_Allow)
  have cl': "\<And>res cl'. ?cl = (cl', Ret res) \<Longrightarrow> limiter_inv cl' (if res = None then Suc h else h)"
    using AcquireWithContext_inv [OF cl] by blast
  show ?thesis
    using assms cb rl cl cl'
    by (auto simp: ConnectionGate_Allow_def gate_inv_def circuit_inv_Failure
        dest: AcquireWithContext_blocked AcquireWithContext_no_panic [THEN notE]
        split: prod.splits option.splits outcome.splits)
qed

lemma ExecuteWithGate_inv:
  assumes "gate_inv cg h" "ExecuteWithGate clk [] sel op (cg, s) = ((cg', s'), r)"
  shows "gate_inv cg' (if succeeded r then Suc h else h)"
proof -
  obtain cg1 a where allow: "ConnectionGate_Allow clk [] sel cg = (cg1, a)" by fastforce
  note inv = gate_inv_Allow [OF assms(1) allow]
  show ?thesis
  proof (cases "a = Ret None")
    case True
    with inv have "gate_inv cg1 (Suc h)" by simp
    then show ?thesis
      using assms(2) allow True gate_inv_RecordSuccess gate_inv_RecordFailure
      by (auto simp: ExecuteWithGate_def split: prod.splits sum.splits)
  next
    case False
    with inv have "gate_inv cg1 h" by simp
    then show ?thesis
      using assms(2) allow False
      by (auto simp: ExecuteWithGate_def split: outcome.splits option.splits)
  qed
qed

text \<open>No operation changes the limit and the mode of the connection limiter.\<close>

definition limits :: "ConnectionLimiter \<Rightarrow> int64 \<times> string \<times> duration" where
  "limits cl = (maxConnections cl, cl_mode cl, cl_timeout cl)"

lemma limits_Release [frame]: "limits (Release cl) = limits cl"
  by (simp add: Release_def limits_def Let_def split: option.split)

lemma limits_send_slot [frame]: "send_slot cl = (cl', r) \<Longrightarrow> limits cl' = limits cl"
  by (auto simp: send_slot_def limits_def split: option.splits if_splits)

lemma limits_others [frame]: "limits (limiter_others ops cl) = limits cl"
  by (induction ops cl rule: limiter_others.induct)
    (simp_all add: limits_Release limits_send_slot [OF surjective_pairing])

lemma limits_Acquire [frame]: "limits (fst (Acquire cl)) = limits cl"
  by (simp add: Acquire_def limits_def)

lemma limits_AcquireWithContext [frame]:
  "AcquireWithContext others sel cl = (cl', r) \<Longrightarrow> limits cl' = limits cl"
  using limits_Acquire [of cl]
  by (cases cl rule: send_slot_cases; cases "Acquire cl")
    (auto simp: AcquireWithContext_def limits_others Let_def
      dest!: limits_send_slot split: if_splits select_case.splits)

lemma limits_Allow [frame]:
  "ConnectionGate_Allow clk others sel cg = (cg', r) \<Longrightarrow>
   limits (connectionLimiter cg') = limits (connectionLimiter cg)"
  by (auto simp: ConnectionGate_Allow_def dest: limits_AcquireWithContext
      split: prod.splits option.splits outcome.splits)

lemma limits_ExecuteWithGate [frame]:
  "ExecuteWithGate clk others sel op (cg, s) = ((cg', s'), r) \<Longrightarrow>
   limits (connectionLimiter cg') = limits (connectionLimiter cg)"
  by (auto simp: ExecuteWithGate_def ConnectionGate_RecordSuccess_def ConnectionGate_RecordFailure_def
      limits_Release dest!: limits_Allow split: prod.splits option.splits outcome.splits sum.splits)

lemma limits_maxConnections: "limits cl = limits cl' \<Longrightarrow> maxConnections cl = maxConnections cl'"
  by (simp add: limits_def)

lemma AcquireWithContext_taken:
  "limiter_inv cl h \<Longrightarrow> AcquireWithContext [] sel cl = (cl', r) \<Longrightarrow>
   limiter_inv cl' (if r = Ret None then Suc h else h)"
  using AcquireWithContext_inv [of cl h sel cl'] AcquireWithContext_blocked [of sel cl cl']
    AcquireWithContext_no_panic [of "[]" sel cl cl']
  by (cases r) auto

lemma limiter_inv_le: "limiter_inv cl h \<Longrightarrow> h \<le> nat (maxConnections cl)"
  by (auto simp: limiter_inv_def)

interpretation limiter_calls: counted_machine "\<lambda>cl sel. AcquireWithContext [] sel cl"
  "\<lambda>r. r = Ret None" limiter_inv "\<lambda>cl. nat (maxConnections cl)"
  by unfold_locales
    (simp_all only: AcquireWithContext_taken [OF _ surjective_pairing] limiter_inv_le
      limits_maxConnections [OF limits_AcquireWithContext [OF surjective_pairing]])

lemma gate_step_ExecuteWithGate:
  obtains clk sel op cg' s' r where "ExecuteWithGate clk [] sel op st = ((cg', s'), r)"
    "gate_step st call = ((cg', s'), r)"
proof -
  obtain clk sel op where call: "call = (clk, sel, op)" by (cases call)
  obtain cg' s' r where ex: "ExecuteWithGate clk [] sel op st = ((cg', s'), r)"
    by (metis surj_pair)
  show thesis by (rule that [OF ex]) (simp add: gate_step_def call ex)
qed

lemma gate_step_taken:
  assumes "gate_inv (fst st) h"
  shows "gate_inv (fst (fst (gate_step st call))) (if succeeded (snd (gate_step st call)) then Suc h else h)"
proof -
  obtain cg s where st: "st = (cg, s)" by (cases st)
  obtain clk sel op cg' s' r where "ExecuteWithGate clk [] sel op st = ((cg', s'), r)"
    "gate_step st call = ((cg', s'), r)" by (rule gate_step_ExecuteWithGate)
  with ExecuteWithGate_inv [of cg h clk sel op s] assms st show ?thesis by simp
qed

lemma gate_step_limits:
  "maxConnections (connectionLimiter (fst (fst (gate_step st call)))) =
   maxConnections (connectionLimiter (fst st))"
proof -
  obtain cg s where st: "st = (cg, s)" by (cases st)
  obtain clk sel op cg' s' r where "ExecuteWithGate clk [] sel op st = ((cg', s'), r)"
    "gate_step st call = ((cg', s'), r)" by (rule gate_step_ExecuteWithGate)
  with limits_maxConnections [OF limits_ExecuteWithGate] st show ?thesis by simp
qed

interpretation gate_calls: counted_machine gate_step succeeded "\<lambda>st. gate_inv (fst st)"
  "\<lambda>st. nat (maxConnections (connectionLimiter (fst st)))"
  by unfold_locales (simp_all only: gate_step_taken gate_step_limits, simp add: gate_inv_def limiter_inv_le)

section \<open>Properties\<close>

text \<open>
  \<open>ConnectionGate.Allow\<close> consults its three guards in order and stops at the first
  refusal. If the circuit breaker refuses, no token and no slot is touched; if the rate limiter
  refuses, the connection limiter is not consulted and a failure is recorded with the circuit
  breaker; if the connection limiter refuses, its refusal is recorded as a failure as well; and a
  request passes exactly when all three let it pass.
\<close>

theorem gate_allow_in_order:
  assumes "CircuitBreaker_Allow (at_circuit clk) (circuitBreaker cg) = (cb, c)"
    and "RateLimiter_Allow (at_rate clk) (rateLimiter cg) = (rl, r)"
    and "AcquireWithContext others sel (connectionLimiter cg) = (cl, a)"
    and "ConnectionGate_Allow clk others sel cg = (cg', res)"
  shows "(c \<noteq> None \<longrightarrow> res = Ret c \<and> cg' = cg) \<and>
    (c = None \<and> r \<noteq> None \<longrightarrow> res = Ret r \<and> connectionLimiter cg' = connectionLimiter cg \<and>
       rateLimiter cg' = rl \<and> circuitBreaker cg' = CircuitBreaker_RecordFailure (at_refusal clk) cb) \<and>
    (c = None \<and> r = None \<longrightarrow> res = a \<and> connectionLimiter cg' = cl \<and> rateLimiter cg' = rl \<and>
       circuitBreaker cg' =
         (if \<exists>e. a = Ret (Some e) then CircuitBreaker_RecordFailure (at_refusal clk) cb else cb)) \<and>
    (res = Ret None \<longleftrightarrow> c = None \<and> r = None \<and> a = Ret None)"
proof -
  have "c \<noteq> None \<Longrightarrow> cb = circuitBreaker cg"
    using assms(1) by (auto simp: CircuitBreaker_Allow_def split: if_splits)
  then show ?thesis
    using assms
    by (cases a) (auto simp: ConnectionGate_Allow_def split: option.splits)
qed

definition sample_clock :: gate_clock where
  "sample_clock = \<lparr>at_circuit = Time 1, at_rate = Time 1, at_refusal = Time 1, at_done = Time 2\<rparr>"

definition sample_gate :: ConnectionGate where
  "sample_gate = \<lparr>circuitBreaker = sample_open,
     rateLimiter = \<lparr>tokens = 5, maxTokens = 1000, refillRate = 100, lastRefill = Time 1\<rparr>,
     connectionLimiter = \<lparr>currentConnections = 0, maxConnections = 3, cl_mode = ''drop'',
       cl_timeout = 0, sem = None\<rparr>\<rparr>"

theorem gate_allow_in_order_witness:
  "ConnectionGate_Allow sample_clock [] SelSlot sample_gate = (sample_gate, Ret (Some ErrCircuitOpen))"
proof -
  have "CircuitBreaker_Allow (at_circuit sample_clock) (circuitBreaker sample_gate) =
      (sample_open, Some ErrCircuitOpen)"
    by (simp add: sample_clock_def sample_gate_def sample_open_def CircuitBreaker_Allow_def
        circuit_consts time_Sub_def)
  from gate_allow_in_order [OF this prod.collapse [symmetric] prod.collapse [symmetric]
      prod.collapse [symmetric], of "[]" SelSlot]
  show ?thesis by (simp add: prod_eq_iff)
qed

text \<open>
  C4. An operation that fails behind the gate gives its slot back: after
  \<open>ExecuteWithGate\<close> returned an error, whether a refusal of the gate or the error of the
  operation, the connection limiter counts as many slots taken as before the call.
\<close>

theorem failed_execution_restores_slots:
  assumes "gate_inv cg h" and "ExecuteWithGate clk [] sel op (cg, s) = ((cg', s'), Ret (Inl err))"
  shows "CurrentConnections (connectionLimiter cg') = CurrentConnections (connectionLimiter cg) \<and>
    sem (connectionLimiter cg') = sem (connectionLimiter cg)"
proof -
  have "limiter_inv (connectionLimiter cg') h"
    using ExecuteWithGate_inv [OF assms] by (simp add: gate_inv_def)
  moreover have "limiter_inv (connectionLimiter cg) h" using assms(1) by (simp add: gate_inv_def)
  moreover have "cl_mode (connectionLimiter cg') = cl_mode (connectionLimiter cg)"
    using limits_ExecuteWithGate [OF assms(2)] by (simp add: limits_def)
  ultimately show ?thesis by (simp add: limiter_inv_def CurrentConnections_def split: if_splits)
qed

text \<open>
  C5. An operation that succeeds behind the gate keeps its slot: \<open>ExecuteWithGate\<close> calls
  \<open>RecordSuccess\<close>, which does not release it. So however many operations a client runs one
  after the other through a gate, and whatever the mode, at most \<open>maxConnections\<close> of them
  ever succeed.
\<close>

theorem gate_successes_exhaust_slots:
  assumes "gate_config_ok config"
  shows "int (length (filter succeeded (snd (run gate_step (NewConnectionGate now config, s) calls))))
    \<le> maxConnections (NewConnectionLimiter config)"
proof -
  have inv: "gate_inv (fst (NewConnectionGate now config, s)) 0"
    using NewConnectionGate_inv [OF assms] by simp
  have "0 < maxConnections (NewConnectionLimiter config)"
    using NewConnectionLimiter_inv assms by (simp add: limiter_inv_def gate_config_ok_def)
  with gate_calls.positive_bound [OF inv, of calls] show ?thesis
    by (simp add: NewConnectionGate_def nat_le_iff [symmetric] le_nat_iff)
qed

text \<open>Concrete gates for the witnesses: a fresh one that allows three slots.\<close>

lemma sample_config_ok: "gate_config_ok (Some sample_config)"
  by (simp add: gate_config_ok_def rate_config_ok_def max_rate_def sample_limiter_ok)
    (simp add: sample_config_def)

lemma sample_allow:
  "ConnectionGate_Allow sample_clock [] SelSlot (NewConnectionGate (Time 1) (Some sample_config)) =
     ((NewConnectionGate (Time 1) (Some sample_config))
        \<lparr>rateLimiter := \<lparr>tokens = 999, maxTokens = 1000, refillRate = 100, lastRefill = Time 1\<rparr>,
         connectionLimiter := \<lparr>currentConnections = 1, maxConnections = 3, cl_mode = ''drop'',
           cl_timeout = 0, sem = None\<rparr>\<rparr>, Ret None)"
proof -
  have rl: "NewRateLimiter (Time 1) (Some sample_config) =
      \<lparr>tokens = 1000, maxTokens = 1000, refillRate = 100, lastRefill = Time 1\<rparr>"
    by (simp add: NewRateLimiter_def sample_config_def in_int64_def)
  have "refill_amount 0 100 \<le> 0" by (rule refill_amount_nonpos) (simp_all add: max_rate_def)
  then have "RateLimiter_Allow (Time 1) (NewRateLimiter (Time 1) (Some sample_config)) =
      (\<lparr>tokens = 999, maxTokens = 1000, refillRate = 100, lastRefill = Time 1\<rparr>, None)"
    by (simp add: rl RateLimiter_Allow_def time_Sub_def in_int64_def)
  moreover have "CircuitBreaker_Allow (Time 1) (NewCircuitBreaker (Some sample_config)) =
      (NewCircuitBreaker (Some sample_config), None)"
    by (simp add: CircuitBreaker_Allow_def circuit_consts)
  moreover have "AcquireWithContext [] SelSlot (NewConnectionLimiter (Some sample_config)) =
      (\<lparr>currentConnections = 1, maxConnections = 3, cl_mode = ''drop'', cl_timeout = 0, sem = None\<rparr>, Ret None)"
    by (simp add: sample_limiter AcquireWithContext_def Acquire_def in_int64_def)
  ultimately show ?thesis
    by (simp add: ConnectionGate_Allow_def NewConnectionGate_def sample_clock_def)
qed

theorem failed_execution_restores_slots_witness:
  "CurrentConnections (connectionLimiter (fst (fst (ExecuteWithGate sample_clock [] SelSlot
     (\<lambda>s. (s, Inl DeadlineExceeded :: go_error + unit))
     (NewConnectionGate (Time 1) (Some sample_config), ()))))) = 0"
proof -
  let ?cg = "NewConnectionGate (Time 1) (Some sample_config)"
  let ?run = "ExecuteWithGate sample_clock [] SelSlot (\<lambda>s. (s, Inl DeadlineExceeded :: go_error + unit)) (?cg, ())"
  have "?run = ((fst (fst ?run), ()), Ret (Inl DeadlineExceeded))"
    by (simp add: ExecuteWithGate_def sample_allow)
  from failed_execution_restores_slots [OF NewConnectionGate_inv [OF sample_config_ok] this] show ?thesis
    by (simp add: NewConnectionGate_def sample_limiter CurrentConnections_def)
qed

theorem gate_successes_exhaust_slots_witness:
  "length (filter succeeded (snd (run gate_step (NewConnectionGate (Time 1) (Some sample_config), ())
     (replicate 7 (sample_clock, SelSlot, \<lambda>s. (s, Inr () :: go_error + unit)))))) \<le> 3"
  using gate_successes_exhaust_slots [OF sample_config_ok, of "Time 1" "()"
      "replicate 7 (sample_clock, SelSlot, \<lambda>s. (s, Inr () :: go_error + unit))"]
  by (simp add: sample_limiter del: run.simps)

text \<open>
  The exhaustion is reached: once \<open>maxConnections\<close> slots are taken in mode "drop", every
  further \<open>ExecuteWithGate\<close> returns an error without running its operation (the state the
  operation works on is unchanged) and leaves the slots taken.
\<close>

theorem exhausted_gate_refuses:
  assumes "gate_inv cg h" and "int h = maxConnections (connectionLimiter cg)"
    and "cl_mode (connectionLimiter cg) = ''drop''"
    and "ExecuteWithGate clk others sel op (cg, s) = ((cg', s'), r)"
  shows "s' = s \<and> (\<exists>e \<in> {ErrCircuitOpen, ErrRateLimitExceeded, ErrConnectionLimit}. r = Ret (Inl e)) \<and>
    connectionLimiter cg' = connectionLimiter cg"
proof -
  have inv: "limiter_inv (connectionLimiter cg) h" using assms(1) by (simp add: gate_inv_def)
  have "AcquireWithContext others sel (connectionLimiter cg) =
      (connectionLimiter cg, Ret (Some ErrConnectionLimit))"
    using inv assms(2,3) by (auto simp: AcquireWithContext_def Acquire_def limiter_inv_def)
  moreover have "snd (CircuitBreaker_Allow (at_circuit clk) (circuitBreaker cg)) \<in> {None, Some ErrCircuitOpen}"
    by (simp add: CircuitBreaker_Allow_def)
  moreover have "snd (RateLimiter_Allow (at_rate clk) (rateLimiter cg)) \<in> {None, Some ErrRateLimitExceeded}"
    by (simp add: RateLimiter_Allow_def Let_def)
  ultimately show ?thesis
    using assms(4)
    by (auto simp: ExecuteWithGate_def ConnectionGate_Allow_def split: prod.splits option.splits)
qed

theorem exhausted_gate_refuses_witness:
  "snd (fst (ExecuteWithGate sample_clock [] SelSlot (\<lambda>n. (Suc n, Inr () :: go_error + unit))
     ((NewConnectionGate (Time 1) (Some sample_config))
        \<lparr>connectionLimiter := \<lparr>currentConnections = 3, maxConnections = 3, cl_mode = ''drop'',
           cl_timeout = 0, sem = None\<rparr>\<rparr>, 0))) = 0"
proof -
  let ?cg = "(NewConnectionGate (Time 1) (Some sample_config))
        \<lparr>connectionLimiter := \<lparr>currentConnections = 3, maxConnections = 3, cl_mode = ''drop'',
           cl_timeout = 0, sem = None\<rparr>\<rparr>"
  let ?op = "\<lambda>n. (Suc n, Inr () :: go_error + unit)"
  let ?run = "ExecuteWithGate sample_clock [] SelSlot ?op (?cg, 0)"
  have inv: "gate_inv ?cg 3"
    using NewConnectionGate_inv [OF sample_config_ok, of "Time 1"]
    by (simp add: gate_inv_def limiter_inv_def NewConnectionGate_def)
  obtain cg' s' r where ex: "?run = ((cg', s'), r)" by (metis surj_pair)
  from exhausted_gate_refuses [OF inv _ _ ex] show ?thesis by (simp add: ex)
qed

end
