(* ===== verification/Cache.thy ===== *)
theory Cache
  imports Fluxor_Prelude
begin

text \<open>
  The in-memory LRU cache with expiry (\<open>cache.go\<close>). The source keeps a map from keys to
  elements of a doubly linked list; here the elements are addresses, the list is the sequence
  of addresses from front to back, and a store maps addresses to the items they hold. The
  abstract cache is the list of items itself, most recently used first.
\<close>

section \<open>State\<close>

record 'v cacheItem =
  ci_key :: string
  ci_value :: 'v
  expireAt :: time

record CacheStats =
  cs_Items :: int
  cs_Capacity :: int
  cs_Hits :: uint64
  cs_Misses :: uint64
  cs_Evictions :: uint64
  cs_ExpiredCount :: uint64

record 'v InMemoryCache =
  items :: "string \<rightharpoonup> nat"
  ll :: "nat list"
  elem_value :: "nat \<Rightarrow> 'v cacheItem"
  next_elem :: nat
  capacity :: int
  defaultTTL :: duration
  Hits :: uint64
  Misses :: uint64
  Evictions :: uint64
  ExpiredCount :: uint64

definition NewInMemoryCache :: "int \<Rightarrow> duration \<Rightarrow> 'v InMemoryCache" where
  "NewInMemoryCache cap ttl =
     \<lparr>items = Map.empty, ll = [], elem_value = (\<lambda>_. undefined), next_elem = 0,
      capacity = (if cap \<le> 0 then 1024 else cap), defaultTTL = ttl,
      Hits = 0, Misses = 0, Evictions = 0, ExpiredCount = 0\<rparr>"

section \<open>Operations\<close>

definition effectiveExpire :: "time \<Rightarrow> duration \<Rightarrow> 'v InMemoryCache \<Rightarrow> time" where
  "effectiveExpire now ttl c =
     (let ttl1 = (if ttl \<le> 0 then defaultTTL c else ttl)
      in if ttl1 \<le> 0 then zero_time else time_Add now ttl1)"

definition item_expired :: "time \<Rightarrow> 'v cacheItem \<Rightarrow> bool" where
  "item_expired now ci \<longleftrightarrow> \<not> IsZero (expireAt ci) \<and> After now (expireAt ci)"

text \<open>\<open>container/list\<close>: removal and move to front of an element of the list.\<close>

definition MoveToFront :: "nat \<Rightarrow> nat list \<Rightarrow> nat list" where
  "MoveToFront e es = e # remove1 e es"

definition InMemoryCache_Get ::
    "time \<Rightarrow> string \<Rightarrow> 'v InMemoryCache \<Rightarrow> 'v InMemoryCache \<times> 'v option" where
  "InMemoryCache_Get now key c =
     (case items c key of
        None \<Rightarrow> (c\<lparr>Misses := Misses c + 1\<rparr>, None)
      | Some e \<Rightarrow>
          (let ci = elem_value c e
           in if item_expired now ci
              then (c\<lparr>ll := remove1 e (ll c), items := (items c)(key := None),
                      ExpiredCount := ExpiredCount c + 1, Misses := Misses c + 1\<rparr>, None)
              else (c\<lparr>ll := MoveToFront e (ll c), Hits := Hits c + 1\<rparr>, Some (ci_value ci))))"

text \<open>The eviction of \<open>Set\<close>: the element at the back, if the list is full.\<close>

definition evict_if_full :: "'v InMemoryCache \<Rightarrow> 'v InMemoryCache" where
  "evict_if_full c =
     (if int (length (ll c)) \<ge> capacity c \<and> ll c \<noteq> []
      then (let tail = last (ll c); ci = elem_value c tail
            in c\<lparr>ll := remove1 tail (ll c), items := (items c)(ci_key ci := None),
                 Evictions := Evictions c + 1\<rparr>)
      else c)"

definition InMemoryCache_Set ::
    "time \<Rightarrow> string \<Rightarrow> 'v \<Rightarrow> duration \<Rightarrow> 'v InMemoryCache \<Rightarrow> 'v InMemoryCache \<times> bool" where
  "InMemoryCache_Set now key v ttl c =
     (case items c key of
        Some e \<Rightarrow>
          (c\<lparr>elem_value := (elem_value c)
                (e := (elem_value c e)\<lparr>ci_value := v, expireAt := effectiveExpire now ttl c\<rparr>),
             ll := MoveToFront e (ll c)\<rparr>, True)
      | None \<Rightarrow>
          (let c1 = evict_if_full c; e = next_elem c1
           in (c1\<lparr>ll := e # ll c1,
                  elem_value := (elem_value c1)
                    (e := \<lparr>ci_key = key, ci_value = v, expireAt = effectiveExpire now ttl c1\<rparr>),
                  next_elem := Suc e, items := (items c1)(key \<mapsto> e)\<rparr>, True)))"

definition InMemoryCache_Delete :: "string \<Rightarrow> 'v InMemoryCache \<Rightarrow> 'v InMemoryCache" where
  "InMemoryCache_Delete key c =
     (case items c key of
        None \<Rightarrow> c
      | Some e \<Rightarrow> c\<lparr>ll := remove1 e (ll c), items := (items c)(key := None)\<rparr>)"

text \<open>The loop of \<open>PurgeExpired\<close>, from the back of the list to its front.\<close>

fun purge_loop :: "time \<Rightarrow> nat list \<Rightarrow> 'v InMemoryCache \<Rightarrow> 'v InMemoryCache" where
  "purge_loop now [] c = c"
| "purge_loop now (e # prev) c =
     (let ci = elem_value c e
      in purge_loop now prev
           (if item_expired now ci
            then c\<lparr>ll := remove1 e (ll c), items := (items c)(ci_key ci := None),
                   ExpiredCount := ExpiredCount c + 1\<rparr>
            else c))"

definition PurgeExpired :: "time \<Rightarrow> 'v InMemoryCache \<Rightarrow> 'v InMemoryCache" where
  "PurgeExpired now c = (if ll c = [] then c else purge_loop now (rev (ll c)) c)"

definition InMemoryCache_Stats :: "'v InMemoryCache \<Rightarrow> CacheStats" where
  "InMemoryCache_Stats c =
     \<lparr>cs_Items = int (length (ll c)), cs_Capacity = capacity c, cs_Hits = Hits c,
      cs_Misses = Misses c, cs_Evictions = Evictions c, cs_ExpiredCount = ExpiredCount c\<rparr>"

text \<open>The \<open>Cache\<close> interface as a machine.\<close>

datatype 'v cache_event =
    CGet time string
  | CSet time string 'v duration
  | CDelete string
  | CPurge time
  | CStats

datatype 'v cache_answer = Got "'v option" | Stored bool | Done | Stats CacheStats

fun cache_step :: "'v InMemoryCache \<Rightarrow> 'v cache_event \<Rightarrow> 'v InMemoryCache \<times> 'v cache_answer" where
  "cache_step c (CGet now k) = map_prod id Got (InMemoryCache_Get now k c)"
| "cache_step c (CSet now k v ttl) = map_prod id Stored (InMemoryCache_Set now k v ttl c)"
| "cache_step c (CDelete k) = (InMemoryCache_Delete k c, Done)"
| "cache_step c (CPurge now) = (PurgeExpired now c, Done)"
| "cache_step c CStats = (c, Stats (InMemoryCache_Stats c))"

section \<open>The abstract cache\<close>

record 'v lru =
  entries :: "'v cacheItem list"
  lru_cap :: int
  lru_ttl :: duration
  lru_hits :: uint64
  lru_misses :: uint64
  lru_evictions :: uint64
  lru_expired :: uint64

definition lru_find :: "string \<Rightarrow> 'v cacheItem list \<Rightarrow> 'v cacheItem option" where
  "lru_find k = find (\<lambda>i. ci_key i = k)"

definition lru_remove :: "string \<Rightarrow> 'v cacheItem list \<Rightarrow> 'v cacheItem list" where
  "lru_remove k = filter (\<lambda>i. ci_key i \<noteq> k)"

definition lru_expiry :: "time \<Rightarrow> duration \<Rightarrow> 'v lru \<Rightarrow> time" where
  "lru_expiry now ttl s =
     (let d = (if ttl \<le> 0 then lru_ttl s else ttl)
      in if d \<le> 0 then zero_time else time_Add now d)"

fun lru_step :: "'v lru \<Rightarrow> 'v cache_event \<Rightarrow> 'v lru \<times> 'v cache_answer" where
  "lru_step s (CGet now k) =
     (case lru_find k (entries s) of
        None \<Rightarrow> (s\<lparr>lru_misses := lru_misses s + 1\<rparr>, Got None)
      | Some i \<Rightarrow>
          if item_expired now i
          then (s\<lparr>entries := lru_remove k (entries s), lru_expired := lru_expired s + 1,
                  lru_misses := lru_misses s + 1\<rparr>, Got None)
          else (s\<lparr>entries := i # lru_remove k (entries s), lru_hits := lru_hits s + 1\<rparr>,
                Got (Some (ci_value i))))"
| "lru_step s (CSet now k v ttl) =
     (let new = \<lparr>ci_key = k, ci_value = v, expireAt = lru_expiry now ttl s\<rparr>
      in if lru_find k (entries s) \<noteq> None
         then (s\<lparr>entries := new # lru_remove k (entries s)\<rparr>, Stored True)
         else if int (length (entries s)) \<ge> lru_cap s
         then (s\<lparr>entries := new # butlast (entries s), lru_evictions := lru_evictions s + 1\<rparr>,
               Stored True)
         else (s\<lparr>entries := new # entries s\<rparr>, Stored True))"
| "lru_step s (CDelete k) = (s\<lparr>entries := lru_remove k (entries s)\<rparr>, Done)"
| "lru_step s (CPurge now) =
     (s\<lparr>entries := filter (\<lambda>i. \<not> item_expired now i) (entries s),
        lru_expired := lru_expired s +
          of_nat (length (filter (item_expired now) (entries s)))\<rparr>, Done)"
| "lru_step s CStats =
     (s, Stats \<lparr>cs_Items = int (length (entries s)), cs_Capacity = lru_cap s,
                cs_Hits = lru_hits s, cs_Misses = lru_misses s, cs_Evictions = lru_evictions s,
                cs_ExpiredCount = lru_expired s\<rparr>)"

definition cache_abs :: "'v InMemoryCache \<Rightarrow> 'v lru" where
  "cache_abs c =
     \<lparr>entries = map (elem_value c) (ll c), lru_cap = capacity c, lru_ttl = defaultTTL c,
      lru_hits = Hits c, lru_misses = Misses c, lru_evictions = Evictions c,
      lru_expired = ExpiredCount c\<rparr>"

text \<open>
  The invariant: the list has no element twice, the map sends each key to the element that holds
  it and to no other, every element was allocated, and the list fits the capacity.
\<close>

definition cache_inv :: "'v InMemoryCache \<Rightarrow> bool" where
  "cache_inv c \<longleftrightarrow>
     distinct (ll c) \<and> (\<forall>e \<in> set (ll c). e < next_elem c) \<and>
     (\<forall>k e. items c k = Some e \<longleftrightarrow> e \<in> set (ll c) \<and> ci_key (elem_value c e) = k) \<and>
     0 < capacity c \<and> int (length (ll c)) \<le> capacity c"

section \<open>Lemmas\<close>

lemma cache_inv_new: "cache_inv (NewInMemoryCache cap ttl)"
  by (simp add: cache_inv_def NewInMemoryCache_def)

lemma cache_invD:
  assumes "cache_inv c"
  shows "distinct (ll c)"
    and "items c k = Some e \<longleftrightarrow> e \<in> set (ll c) \<and> ci_key (elem_value c e) = k"
    and "e \<in> set (ll c) \<Longrightarrow> e < next_elem c"
    and "0 < capacity c" and "int (length (ll c)) \<le> capacity c"
  using assms by (auto simp: cache_inv_def)

lemma items_NoneD: "cache_inv c \<Longrightarrow> items c k = None \<Longrightarrow> e \<in> set (ll c) \<Longrightarrow> ci_key (elem_value c e) \<noteq> k"
  by (metis cache_invD(2) option.distinct(1))

lemma items_SomeD:
  "cache_inv c \<Longrightarrow> items c k = Some e \<Longrightarrow> e \<in> set (ll c) \<and> ci_key (elem_value c e) = k"
  by (metis cache_invD(2))

lemma keys_distinct: "cache_inv c \<Longrightarrow> inj_on (\<lambda>e. ci_key (elem_value c e)) (set (ll c))"
  by (rule inj_onI) (metis cache_invD(2) option.inject)

lemma map_remove1_key:
  assumes "distinct es" "inj_on (\<lambda>e. ci_key (f e)) (set es)" "e \<in> set es"
  shows "map f (remove1 e es) = lru_remove (ci_key (f e)) (map f es)"
proof -
  have "remove1 e es = filter (\<lambda>x. e \<noteq> x) es"
    using assms(1) by (simp only: distinct_remove1_removeAll removeAll_filter_not_eq)
  also have "\<dots> = filter (\<lambda>x. ci_key (f x) \<noteq> ci_key (f e)) es"
  proof (rule filter_cong [OF refl])
    fix x
    assume "x \<in> set es"
    then show "e \<noteq> x \<longleftrightarrow> ci_key (f x) \<noteq> ci_key (f e)" using inj_onD [OF assms(2) _ _ assms(3)] by blast
  qed
  finally show ?thesis by (simp add: lru_remove_def filter_map o_def)
qed

lemma lru_find_abs:
  assumes "cache_inv c"
  shows "lru_find k (map (elem_value c) (ll c)) = map_option (elem_value c) (items c k)"
proof (cases "items c k")
  case None
  then have "\<forall>e \<in> set (ll c). ci_key (elem_value c e) \<noteq> k" using items_NoneD [OF assms] by blast
  with None show ?thesis by (auto simp: lru_find_def find_None_iff)
next
  case (Some e)
  then have e: "e \<in> set (ll c)" "ci_key (elem_value c e) = k" using items_SomeD [OF assms] by blast+
  then obtain i where i: "lru_find k (map (elem_value c) (ll c)) = Some i"
    by (cases "lru_find k (map (elem_value c) (ll c))") (auto simp: lru_find_def find_None_iff)
  then obtain e' where "e' \<in> set (ll c)" "i = elem_value c e'" "ci_key (elem_value c e') = k"
    by (auto simp: lru_find_def find_Some_iff) (metis nth_mem)
  with e inj_onD [OF keys_distinct [OF assms]] have "i = elem_value c e" by blast
  with i Some show ?thesis by simp
qed

lemma cache_inv_remove:
  assumes "cache_inv c" "e \<in> set (ll c)"
  shows "cache_inv (c\<lparr>ll := remove1 e (ll c), items := (items c)(ci_key (elem_value c e) := None)\<rparr>)"
  using assms cache_invD [OF assms(1)] set_remove1_eq [of "ll c" e] length_remove1 [of e "ll c"]
    inj_onD [OF keys_distinct [OF assms(1)]]
  unfolding cache_inv_def by (auto simp: distinct_remove1)

text \<open>The counters play no part in the invariant.\<close>

lemma cache_inv_counters [simp]:
  "cache_inv (c\<lparr>Hits := n\<rparr>) = cache_inv c"
  "cache_inv (c\<lparr>Misses := n\<rparr>) = cache_inv c"
  "cache_inv (c\<lparr>Evictions := n\<rparr>) = cache_inv c"
  "cache_inv (c\<lparr>ExpiredCount := n\<rparr>) = cache_inv c"
  by (simp_all add: cache_inv_def)

lemma cache_inv_MoveToFront:
  assumes "cache_inv c" "e \<in> set (ll c)"
  shows "cache_inv (c\<lparr>ll := MoveToFront e (ll c)\<rparr>)"
  using assms cache_invD [OF assms(1)] set_remove1_eq [of "ll c" e] length_remove1 [of e "ll c"]
  unfolding cache_inv_def by (auto simp: MoveToFront_def)

lemma Get_inv: "cache_inv c \<Longrightarrow> cache_inv (fst (InMemoryCache_Get now k c))"
  using cache_inv_remove [of c] cache_inv_MoveToFront [of c] cache_invD(2) [of c k]
  by (auto simp: InMemoryCache_Get_def Let_def split: option.split)

lemma Delete_inv: "cache_inv c \<Longrightarrow> cache_inv (InMemoryCache_Delete k c)"
  using cache_inv_remove [of c] cache_invD(2) [of c k]
  by (auto simp: InMemoryCache_Delete_def split: option.split)

lemma evict_if_full_inv:
  assumes "cache_inv c"
  shows "cache_inv (evict_if_full c) \<and> int (length (ll (evict_if_full c))) < capacity (evict_if_full c) \<and>
    (items c k = None \<longrightarrow> items (evict_if_full c) k = None)"
proof (cases "int (length (ll c)) \<ge> capacity c \<and> ll c \<noteq> []")
  case True
  then have "last (ll c) \<in> set (ll c)" by simp
  with True cache_inv_remove [OF assms this] cache_invD(4,5) [OF assms] show ?thesis
    by (auto simp: evict_if_full_def length_remove1 Let_def)
next
  case False
  with assms cache_invD(4,5) [OF assms] show ?thesis by (auto simp: evict_if_full_def)
qed

text \<open>The insertion of \<open>Set\<close> in front of a list with room.\<close>

definition push_item :: "'v cacheItem \<Rightarrow> 'v InMemoryCache \<Rightarrow> 'v InMemoryCache" where
  "push_item i c =
     c\<lparr>ll := next_elem c # ll c, elem_value := (elem_value c)(next_elem c := i),
       next_elem := Suc (next_elem c), items := (items c)(ci_key i \<mapsto> next_elem c)\<rparr>"

lemma push_item_inv:
  assumes "cache_inv c" "int (length (ll c)) < capacity c" "next_elem c \<notin> set (ll c)"
    "\<forall>e \<in> set (ll c). ci_key (elem_value c e) \<noteq> ci_key i"
  shows "cache_inv (push_item i c)"
proof -
  have "items (push_item i c) k = Some e \<longleftrightarrow>
      e \<in> set (ll (push_item i c)) \<and> ci_key (elem_value (push_item i c) e) = k" for k e
    using assms cache_invD(2) [OF assms(1), of k e] by (auto simp: push_item_def)
  moreover have "\<forall>e \<in> set (ll (push_item i c)). e < next_elem (push_item i c)"
    using cache_invD(3) [OF assms(1)] by (auto simp: push_item_def less_Suc_eq)
  ultimately show ?thesis
    using assms cache_invD [OF assms(1)] unfolding cache_inv_def by (simp add: push_item_def)
qed

lemma Set_inv:
  assumes "cache_inv c"
  shows "cache_inv (fst (InMemoryCache_Set now k v ttl c))"
proof (cases "items c k")
  case None
  let ?c = "evict_if_full c"
  have c: "cache_inv ?c" "int (length (ll ?c)) < capacity ?c" "items ?c k = None"
    using evict_if_full_inv [OF assms, of k] None by auto
  have "next_elem ?c \<notin> set (ll ?c)" using cache_invD(3) [OF c(1)] by blast
  moreover have "\<forall>e \<in> set (ll ?c). ci_key (elem_value ?c e) \<noteq> k"
    using items_NoneD [OF c(1,3)] by blast
  ultimately have "cache_inv (push_item \<lparr>ci_key = k, ci_value = v, expireAt = effectiveExpire now ttl ?c\<rparr> ?c)"
    using push_item_inv [OF c(1)] c(2) by simp
  then show ?thesis by (simp add: InMemoryCache_Set_def None Let_def push_item_def)
next
  case (Some e)
  then have e: "e \<in> set (ll c)" "ci_key (elem_value c e) = k" using items_SomeD [OF assms] by blast+
  have "cache_inv (c\<lparr>ll := MoveToFront e (ll c)\<rparr>)" by (rule cache_inv_MoveToFront [OF assms e(1)])
  with e(2) have "cache_inv (c\<lparr>elem_value := (elem_value c)(e := (elem_value c e)\<lparr>ci_value := v, expireAt := t\<rparr>),
      ll := MoveToFront e (ll c)\<rparr>)" for t
    unfolding cache_inv_def by simp
  then show ?thesis by (simp add: InMemoryCache_Set_def Some)
qed

lemma purge_loop_inv:
  "cache_inv c \<Longrightarrow> set es \<subseteq> set (ll c) \<Longrightarrow> distinct es \<Longrightarrow> cache_inv (purge_loop now es c)"
proof (induction es arbitrary: c)
  case (Cons e es)
  then have e: "e \<in> set (ll c)" "set es \<subseteq> set (ll c) - {e}" by auto
  with Cons cache_inv_remove [OF Cons.prems(1) e(1)] show ?case
    by (auto simp: Let_def cache_invD(1) intro!: Cons.IH)
qed simp

lemma Purge_inv: "cache_inv c \<Longrightarrow> cache_inv (PurgeExpired now c)"
  by (simp add: PurgeExpired_def purge_loop_inv cache_invD(1))

lemma cache_step_inv [machine_inv]: "cache_inv c \<Longrightarrow> cache_inv (fst (cache_step c e))"
  by (cases e) (simp_all add: Get_inv Set_inv Delete_inv Purge_inv)

section \<open>Refinement\<close>

lemma abs_remove1:
  assumes "cache_inv c" "items c k = Some e"
  shows "map (elem_value c) (remove1 e (ll c)) = lru_remove k (map (elem_value c) (ll c))"
  using map_remove1_key [OF cache_invD(1) keys_distinct, of c e] items_SomeD [OF assms] assms(1) by simp

lemma lru_remove_absent: "lru_find k xs = None \<Longrightarrow> lru_remove k xs = xs"
  by (simp add: lru_find_def lru_remove_def find_None_iff filter_id_conv)

lemma Get_sim:
  assumes "cache_inv c"
  shows "map_prod cache_abs Got (InMemoryCache_Get now k c) = lru_step (cache_abs c) (CGet now k)"
proof (cases "items c k")
  case None
  then show ?thesis using lru_find_abs [OF assms, of k] by (simp add: InMemoryCache_Get_def cache_abs_def)
next
  case (Some e)
  with lru_find_abs [OF assms, of k] abs_remove1 [OF assms Some] show ?thesis
    by (simp add: InMemoryCache_Get_def cache_abs_def Let_def MoveToFront_def)
qed

lemma Delete_sim:
  assumes "cache_inv c"
  shows "cache_abs (InMemoryCache_Delete k c) = fst (lru_step (cache_abs c) (CDelete k))"
proof (cases "items c k")
  case None
  then show ?thesis
    using lru_find_abs [OF assms, of k] lru_remove_absent [of k "map (elem_value c) (ll c)"]
    by (simp add: InMemoryCache_Delete_def cache_abs_def)
next
  case (Some e)
  with abs_remove1 [OF assms Some] show ?thesis
    by (simp add: InMemoryCache_Delete_def cache_abs_def)
qed

lemma remove1_last: "distinct xs \<Longrightarrow> xs \<noteq> [] \<Longrightarrow> remove1 (last xs) xs = butlast xs"
  by (induction xs rule: rev_induct) (auto simp: remove1_append)

lemma evict_if_full_abs:
  assumes "cache_inv c"
  shows "cache_abs (evict_if_full c) =
    (if int (length (ll c)) \<ge> capacity c
     then (cache_abs c)\<lparr>entries := butlast (entries (cache_abs c)),
            lru_evictions := lru_evictions (cache_abs c) + 1\<rparr>
     else cache_abs c)"
  using cache_invD(1,4,5) [OF assms] remove1_last [of "ll c"]
  by (auto simp: evict_if_full_def cache_abs_def Let_def map_butlast)

lemma Set_sim:
  assumes "cache_inv c"
  shows "map_prod cache_abs Stored (InMemoryCache_Set now k v ttl c) =
    lru_step (cache_abs c) (CSet now k v ttl)"
proof (cases "items c k")
  case None
  let ?c = "evict_if_full c"
  let ?i = "\<lparr>ci_key = k, ci_value = v, expireAt = effectiveExpire now ttl ?c\<rparr>"
  have fresh: "next_elem ?c \<notin> set (ll ?c)"
    using evict_if_full_inv [OF assms, of k] cache_invD(3) [of ?c] by blast
  have "cache_abs (push_item ?i ?c) = (cache_abs ?c)\<lparr>entries := ?i # entries (cache_abs ?c)\<rparr>"
    using fresh by (simp add: push_item_def cache_abs_def)
  moreover have "effectiveExpire now ttl ?c = lru_expiry now ttl (cache_abs c)"
    by (simp add: effectiveExpire_def lru_expiry_def cache_abs_def evict_if_full_def Let_def)
  moreover have "lru_find k (entries (cache_abs c)) = None"
    using lru_find_abs [OF assms, of k] None by (simp add: cache_abs_def)
  moreover have "fst (InMemoryCache_Set now k v ttl c) = push_item ?i ?c"
    by (simp add: InMemoryCache_Set_def None Let_def push_item_def)
  moreover have "snd (InMemoryCache_Set now k v ttl c)"
    by (simp add: InMemoryCache_Set_def None Let_def)
  ultimately show ?thesis
    using evict_if_full_abs [OF assms]
    by (simp add: prod_eq_iff Let_def) (simp add: cache_abs_def)
next
  case (Some e)
  let ?t = "effectiveExpire now ttl c"
  have e: "e \<in> set (ll c)" "ci_key (elem_value c e) = k" using items_SomeD [OF assms Some] by blast+
  have "e \<notin> set (remove1 e (ll c))" using cache_invD(1) [OF assms] by (simp add: set_remove1_eq)
  moreover have "(elem_value c e)\<lparr>ci_value := v, expireAt := ?t\<rparr> = \<lparr>ci_key = k, ci_value = v, expireAt = ?t\<rparr>"
    using e(2) by (cases "elem_value c e") simp
  moreover have "?t = lru_expiry now ttl (cache_abs c)"
    by (simp add: effectiveExpire_def lru_expiry_def cache_abs_def Let_def)
  ultimately show ?thesis
    using abs_remove1 [OF assms Some] lru_find_abs [OF assms, of k] Some
    by (simp add: InMemoryCache_Set_def cache_abs_def MoveToFront_def)
qed

lemma purge_loop_eq:
  "distinct es \<Longrightarrow> distinct (ll c) \<Longrightarrow> set es \<subseteq> set (ll c) \<Longrightarrow>
   cache_abs (purge_loop now es c) = (cache_abs c)
     \<lparr>entries := map (elem_value c)
         (filter (\<lambda>e. \<not> (e \<in> set es \<and> item_expired now (elem_value c e))) (ll c)),
      lru_expired := ExpiredCount c + of_nat (length (filter (\<lambda>e. item_expired now (elem_value c e)) es))\<rparr>"
proof (induction es arbitrary: c)
  case Nil
  then show ?case by (simp add: cache_abs_def)
next
  case (Cons e es)
  show ?case
  proof (cases "item_expired now (elem_value c e)")
    case True
    let ?c = "c\<lparr>ll := remove1 e (ll c), items := (items c)(ci_key (elem_value c e) := None),
                ExpiredCount := ExpiredCount c + 1\<rparr>"
    have rem: "remove1 e (ll c) = filter (\<lambda>x. e \<noteq> x) (ll c)"
      using Cons.prems(2) by (simp only: distinct_remove1_removeAll removeAll_filter_not_eq)
    have "cache_abs (purge_loop now (e # es) c) = cache_abs (purge_loop now es ?c)"
      using True by (simp add: Let_def)
    also have "\<dots> = (cache_abs ?c)
     \<lparr>entries := map (elem_value c)
         (filter (\<lambda>x. \<not> (x \<in> set es \<and> item_expired now (elem_value c x))) (remove1 e (ll c))),
      lru_expired := ExpiredCount c + 1 + of_nat (length (filter (\<lambda>x. item_expired now (elem_value c x)) es))\<rparr>"
      using Cons.IH [of ?c] Cons.prems by (auto simp: rem)
    finally show ?thesis using True by (simp add: cache_abs_def rem conj_commute add_ac) (intro arg_cong [where f = "map _"] filter_cong, auto)
  next
    case False
    with Cons have "cache_abs (purge_loop now (e # es) c) = (cache_abs c)
     \<lparr>entries := map (elem_value c)
         (filter (\<lambda>x. \<not> (x \<in> set es \<and> item_expired now (elem_value c x))) (ll c)),
      lru_expired := ExpiredCount c + of_nat (length (filter (\<lambda>x. item_expired now (elem_value c x)) es))\<rparr>"
      by (simp add: Let_def)
    also have "filter (\<lambda>x. \<not> (x \<in> set es \<and> item_expired now (elem_value c x))) (ll c) =
        filter (\<lambda>x. \<not> (x \<in> set (e # es) \<and> item_expired now (elem_value c x))) (ll c)"
      using False by (intro filter_cong) auto
    finally show ?thesis using False by simp
  qed
qed

lemma Purge_sim:
  assumes "cache_inv c"
  shows "cache_abs (PurgeExpired now c) = fst (lru_step (cache_abs c) (CPurge now))"
proof -
  have "cache_abs (purge_loop now (rev (ll c)) c) = fst (lru_step (cache_abs c) (CPurge now))"
    using purge_loop_eq [of "rev (ll c)" c now] cache_invD(1) [OF assms]
    by (simp add: cache_abs_def filter_map o_def rev_filter [symmetric] cong: filter_cong)
  moreover have "ll c = [] \<Longrightarrow> cache_abs c = fst (lru_step (cache_abs c) (CPurge now))"
    by (simp add: cache_abs_def)
  ultimately show ?thesis by (simp add: PurgeExpired_def)
qed

lemma cache_step_sim:
  assumes "cache_inv c"
  shows "map_prod cache_abs id (cache_step c e) = lru_step (cache_abs c) e"
proof (cases e)
  case (CGet now k)
  with Get_sim [OF assms, of now k] show ?thesis by (simp add: prod.map_comp o_def)
next
  case (CSet now k v ttl)
  with Set_sim [OF assms, of now k v ttl] show ?thesis by (simp add: prod.map_comp o_def del: lru_step.simps)
next
  case (CDelete k)
  with Delete_sim [OF assms, of k] show ?thesis by simp
next
  case (CPurge now)
  with Purge_sim [OF assms, of now] show ?thesis by simp
next
  case CStats
  then show ?thesis by (simp add: InMemoryCache_Stats_def cache_abs_def)
qed

interpretation lru_cache: machine_refinement cache_step cache_inv lru_step cache_abs
  by unfold_locales (simp_all add: cache_step_inv cache_step_sim)

section \<open>The interface of a cache\<close>

text \<open>
  What the clients of the Go interface \<open>Cache\<close> rely on, in terms of what a lookup at a given
  time would return. A store may drop any other key, and an answer at time \<open>now\<close> may forget
  what has expired by then.
\<close>

locale ttl_cache =
  fixes get :: "time \<Rightarrow> string \<Rightarrow> 'c \<Rightarrow> 'c \<times> 'v option"
    and put :: "time \<Rightarrow> string \<Rightarrow> 'v \<Rightarrow> duration \<Rightarrow> 'c \<Rightarrow> 'c \<times> bool"
    and delete :: "string \<Rightarrow> 'c \<Rightarrow> 'c"
    and purge :: "time \<Rightarrow> 'c \<Rightarrow> 'c"
    and lookup :: "time \<Rightarrow> string \<Rightarrow> 'c \<Rightarrow> 'v option"
    and inv :: "'c \<Rightarrow> bool"
  assumes ops_inv: "inv c \<Longrightarrow> inv (fst (get now k c))" "inv c \<Longrightarrow> inv (fst (put now k v ttl c))"
      "inv c \<Longrightarrow> inv (delete k c)" "inv c \<Longrightarrow> inv (purge now c)"
    and get_result: "inv c \<Longrightarrow> snd (get now k c) = lookup now k c"
    and get_keeps: "inv c \<Longrightarrow> now \<le> t \<Longrightarrow> lookup t j (fst (get now k c)) = lookup t j c"
    and get_sound: "inv c \<Longrightarrow> lookup t j (fst (get now k c)) = Some v \<Longrightarrow> lookup t j c = Some v"
    and put_hit: "inv c \<Longrightarrow> lookup now k (fst (put now k v ttl c)) = Some v"
    and put_sound: "inv c \<Longrightarrow> lookup t j (fst (put now k v ttl c)) = Some w \<Longrightarrow>
      (if j = k then w = v else lookup t j c = Some w)"
    and delete_lookup: "inv c \<Longrightarrow> lookup t j (delete k c) = (if j = k then None else lookup t j c)"
    and purge_keeps: "inv c \<Longrightarrow> now \<le> t \<Longrightarrow> lookup t j (purge now c) = lookup t j c"
    and purge_sound: "inv c \<Longrightarrow> lookup t j (purge now c) = Some v \<Longrightarrow> lookup t j c = Some v"
begin

lemma get_after_put:
  "inv c \<Longrightarrow> snd (get now k (fst (put now k v ttl c))) = Some v"
  by (simp add: get_result ops_inv put_hit)

lemma get_after_delete: "inv c \<Longrightarrow> snd (get now k (delete k c)) = None"
  by (simp add: get_result ops_inv delete_lookup)

text \<open>
  A client that stores only values with a property of their key reads only such values,
  whatever is evicted or expires in between.
\<close>

lemma coherent_get:
  "inv c \<Longrightarrow> \<forall>t j v. lookup t j c = Some v \<longrightarrow> P j v \<Longrightarrow>
   \<forall>t j v. lookup t j (fst (get now k c)) = Some v \<longrightarrow> P j v"
  using get_sound by blast

lemma coherent_put:
  "inv c \<Longrightarrow> \<forall>t j v. lookup t j c = Some v \<longrightarrow> P j v \<Longrightarrow> P k w \<Longrightarrow>
   \<forall>t j v. lookup t j (fst (put now k w ttl c)) = Some v \<longrightarrow> P j v"
  using put_sound by metis

lemma coherent_purge:
  "inv c \<Longrightarrow> \<forall>t j v. lookup t j c = Some v \<longrightarrow> P j v \<Longrightarrow>
   \<forall>t j v. lookup t j (purge now c) = Some v \<longrightarrow> P j v"
  using purge_sound by blast

lemma coherent_get_result:
  "inv c \<Longrightarrow> \<forall>t j v. lookup t j c = Some v \<longrightarrow> P j v \<Longrightarrow> snd (get now k c) = Some v \<Longrightarrow> P k v"
  by (simp add: get_result)

end

definition cache_lookup :: "time \<Rightarrow> string \<Rightarrow> 'v InMemoryCache \<Rightarrow> 'v option" where
  "cache_lookup now k c =
     (case items c k of
        None \<Rightarrow> None
      | Some e \<Rightarrow> if item_expired now (elem_value c e) then None else Some (ci_value (elem_value c e)))"

definition lru_lookup :: "time \<Rightarrow> string \<Rightarrow> 'v cacheItem list \<Rightarrow> 'v option" where
  "lru_lookup now k xs =
     (case lru_find k xs of
        None \<Rightarrow> None
      | Some i \<Rightarrow> if item_expired now i then None else Some (ci_value i))"

lemma cache_lookup_abs: "cache_inv c \<Longrightarrow> cache_lookup t k c = lru_lookup t k (entries (cache_abs c))"
  using lru_find_abs [of c k]
  by (simp add: cache_lookup_def lru_lookup_def cache_abs_def split: option.split)

lemma distinct_keys_abs: "cache_inv c \<Longrightarrow> distinct (map ci_key (entries (cache_abs c)))"
  using keys_distinct [of c] cache_invD(1) [of c] by (simp add: cache_abs_def distinct_map o_def)

lemma lru_find_Nil [simp]: "lru_find k [] = None"
  by (simp add: lru_find_def)

lemma lru_find_Cons [simp]: "lru_find k (i # xs) = (if ci_key i = k then Some i else lru_find k xs)"
  by (simp add: lru_find_def)

lemma lru_find_append [simp]:
  "lru_find k (xs @ ys) = (case lru_find k xs of None \<Rightarrow> lru_find k ys | Some i \<Rightarrow> Some i)"
  by (induction xs) simp_all

lemma lru_find_remove [simp]: "lru_find j (lru_remove k xs) = (if j = k then None else lru_find j xs)"
  by (induction xs) (auto simp: lru_remove_def)

lemma lru_find_None_iff: "lru_find k xs = None \<longleftrightarrow> k \<notin> ci_key ` set xs"
  by (induction xs) auto

lemma lru_find_SomeD: "lru_find k xs = Some i \<Longrightarrow> i \<in> set xs \<and> ci_key i = k"
  by (induction xs) (auto split: if_splits)

lemma lru_find_key: "lru_find k xs = Some i \<Longrightarrow> k \<in> ci_key ` set xs"
  using lru_find_SomeD by force

lemma lru_find_butlast:
  assumes "distinct (map ci_key xs)" "xs \<noteq> []"
  shows "lru_find j (butlast xs) = (if j = ci_key (last xs) then None else lru_find j xs)"
proof -
  obtain ys i where xs: "xs = ys @ [i]" using assms(2) by (metis append_butlast_last_id)
  with assms(1) show ?thesis by (auto simp: lru_find_None_iff split: option.split)
qed

lemma lru_find_filter:
  "distinct (map ci_key xs) \<Longrightarrow>
   lru_find j (filter P xs) = (case lru_find j xs of None \<Rightarrow> None | Some i \<Rightarrow> if P i then Some i else None)"
  by (induction xs) (auto simp: lru_find_None_iff dest: lru_find_key split: option.split)

lemma item_expired_mono: "now \<le> t \<Longrightarrow> item_expired now i \<Longrightarrow> item_expired t i"
  by (auto simp: item_expired_def After_def)

lemma not_expired_at_store: "\<not> item_expired now \<lparr>ci_key = k, ci_value = v, expireAt = effectiveExpire now ttl c\<rparr>"
  by (auto simp: item_expired_def effectiveExpire_def After_def IsZero_def time_less_nanos Let_def)

lemma expiry_abs: "lru_expiry now ttl (cache_abs c) = effectiveExpire now ttl c"
  by (simp add: effectiveExpire_def lru_expiry_def cache_abs_def)

lemma entries_Get:
  "cache_inv c \<Longrightarrow> entries (cache_abs (fst (InMemoryCache_Get now k c))) =
     (case lru_find k (entries (cache_abs c)) of
        None \<Rightarrow> entries (cache_abs c)
      | Some i \<Rightarrow> (if item_expired now i then [] else [i]) @ lru_remove k (entries (cache_abs c)))"
  using arg_cong [OF Get_sim [of c now k], of "entries \<circ> fst"] by (simp split: option.splits if_splits)

lemma entries_Set:
  "cache_inv c \<Longrightarrow> entries (cache_abs (fst (InMemoryCache_Set now k v ttl c))) =
     \<lparr>ci_key = k, ci_value = v, expireAt = effectiveExpire now ttl c\<rparr> #
     (if lru_find k (entries (cache_abs c)) \<noteq> None then lru_remove k (entries (cache_abs c))
      else if int (length (ll c)) \<ge> capacity c then butlast (entries (cache_abs c))
      else entries (cache_abs c))"
  using arg_cong [OF Set_sim [of c now k v ttl], of "entries \<circ> fst"]
  by (simp add: expiry_abs Let_def split: if_splits) (simp_all add: cache_abs_def)

lemma entries_Delete:
  "cache_inv c \<Longrightarrow> entries (cache_abs (InMemoryCache_Delete k c)) = lru_remove k (entries (cache_abs c))"
  by (simp add: Delete_sim)

lemma entries_Purge:
  "cache_inv c \<Longrightarrow> entries (cache_abs (PurgeExpired now c)) =
     filter (\<lambda>i. \<not> item_expired now i) (entries (cache_abs c))"
  by (simp add: Purge_sim)

lemmas cache_entries = entries_Get entries_Set entries_Delete entries_Purge
lemmas cache_ops_inv = Get_inv Set_inv Delete_inv Purge_inv

lemma lookup_Get:
  "cache_inv c \<Longrightarrow> cache_lookup t j (fst (InMemoryCache_Get now k c)) =
     (if j = k \<and> (\<exists>i. lru_find k (entries (cache_abs c)) = Some i \<and> item_expired now i) then None
      else cache_lookup t j c)"
  by (auto simp: cache_lookup_abs cache_ops_inv cache_entries lru_lookup_def
      dest: lru_find_SomeD split: option.splits)

lemma lookup_Set:
  assumes "cache_inv c"
  shows "cache_lookup t j (fst (InMemoryCache_Set now k v ttl c)) =
     (if j = k then
        (if item_expired t \<lparr>ci_key = k, ci_value = v, expireAt = effectiveExpire now ttl c\<rparr> then None
         else Some v)
      else if items c k = None \<and> int (length (ll c)) \<ge> capacity c \<and>
        j = ci_key (elem_value c (last (ll c))) then None
      else cache_lookup t j c)"
proof -
  have "lru_find k (entries (cache_abs c)) = None \<longleftrightarrow> items c k = None"
    using lru_find_abs [OF assms, of k] by (simp add: cache_abs_def)
  moreover have "int (length (ll c)) \<ge> capacity c \<Longrightarrow>
      entries (cache_abs c) \<noteq> [] \<and> last (entries (cache_abs c)) = elem_value c (last (ll c))"
    using cache_invD(4) [OF assms] by (cases "ll c = []") (auto simp: cache_abs_def last_map)
  ultimately show ?thesis
    using lru_find_butlast [OF distinct_keys_abs [OF assms], of j] assms
    by (cases "int (length (ll c)) \<ge> capacity c")
      (auto simp: cache_lookup_abs cache_ops_inv cache_entries lru_lookup_def)
qed

lemma lookup_Delete:
  "cache_inv c \<Longrightarrow> cache_lookup t j (InMemoryCache_Delete k c) = (if j = k then None else cache_lookup t j c)"
  by (simp add: cache_lookup_abs cache_ops_inv cache_entries lru_lookup_def)

lemma lookup_Purge:
  "cache_inv c \<Longrightarrow> cache_lookup t j (PurgeExpired now c) =
     (if \<exists>e. items c j = Some e \<and> item_expired now (elem_value c e) then None else cache_lookup t j c)"
  using lru_find_abs [of c j] lru_find_filter [OF distinct_keys_abs, of c j "\<lambda>i. \<not> item_expired now i"]
  by (auto simp: cache_lookup_abs cache_ops_inv cache_entries lru_lookup_def) 
    (auto simp: cache_abs_def split: option.splits)

lemma Get_result: "snd (InMemoryCache_Get now k c) = cache_lookup now k c"
  by (simp add: InMemoryCache_Get_def cache_lookup_def Let_def split: option.split)

lemma lookup_expired_later:
  "cache_inv c \<Longrightarrow> lru_find j (entries (cache_abs c)) = Some i \<Longrightarrow> item_expired now i \<Longrightarrow> now \<le> t \<Longrightarrow>
   cache_lookup t j c = None"
  using item_expired_mono by (simp add: cache_lookup_abs lru_lookup_def) blast

interpretation mem_cache: ttl_cache InMemoryCache_Get InMemoryCache_Set InMemoryCache_Delete
    PurgeExpired cache_lookup cache_inv
proof unfold_locales
  fix c :: "'a InMemoryCache" and now t :: time and j k :: string
  assume inv: "cache_inv c" and le: "now \<le> t"
  show "cache_lookup t j (fst (InMemoryCache_Get now k c)) = cache_lookup t j c"
    using lookup_expired_later [OF inv _ _ le] by (auto simp: lookup_Get [OF inv])
  have "items c j = Some e \<Longrightarrow> lru_find j (entries (cache_abs c)) = Some (elem_value c e)" for e
    using lru_find_abs [OF inv, of j] by (simp add: cache_abs_def)
  then show "cache_lookup t j (PurgeExpired now c) = cache_lookup t j c"
    using lookup_expired_later [OF inv _ _ le] by (auto simp: lookup_Purge [OF inv])
qed (auto simp: cache_ops_inv Get_result lookup_Get lookup_Set lookup_Delete lookup_Purge
    not_expired_at_store split: if_splits)

section \<open>Recency\<close>

text \<open>
  A run that uses only keys of a set \<open>T\<close> without \<open>k\<close>, and purges only while the item of
  \<open>k\<close> is alive, keeps only keys of \<open>T\<close> in front of that item.
\<close>

fun only_uses :: "string set \<Rightarrow> time \<Rightarrow> 'v cache_event \<Rightarrow> bool" where
  "only_uses T expiry (CGet now j) = (j \<in> T)"
| "only_uses T expiry (CSet now j v ttl) = (j \<in> T)"
| "only_uses T expiry (CDelete j) = (j \<in> T)"
| "only_uses T expiry (CPurge now) = (IsZero expiry \<or> now \<le> expiry)"
| "only_uses T expiry CStats = True"

definition recent :: "string set \<Rightarrow> 'v cacheItem \<Rightarrow> 'v lru \<Rightarrow> bool" where
  "recent T i s \<longleftrightarrow>
     ci_key i \<notin> T \<and> finite T \<and> int (card T) < lru_cap s \<and> distinct (map ci_key (entries s)) \<and>
     (\<exists>pre post. entries s = pre @ i # post \<and> ci_key ` set pre \<subseteq> T)"

lemma recentE:
  assumes "recent T i s"
  obtains pre post where "entries s = pre @ i # post" "ci_key ` set pre \<subseteq> T" "ci_key i \<notin> T" "finite T"
    "int (card T) < lru_cap s" "distinct (map ci_key (entries s))"
  using assms by (auto simp: recent_def)

lemma recent_entries:
  "recent T i s \<Longrightarrow> distinct (map ci_key xs) \<Longrightarrow> xs = pre @ i # post \<Longrightarrow> ci_key ` set pre \<subseteq> T \<Longrightarrow>
   recent T i (s\<lparr>entries := xs\<rparr>)"
  unfolding recent_def by auto

lemma recent_filter:
  assumes "recent T i s" "P i"
  shows "recent T i (s\<lparr>entries := filter P (entries s)\<rparr>)"
  using assms(1)
proof (rule recentE)
  fix pre post
  assume s: "entries s = pre @ i # post" "ci_key ` set pre \<subseteq> T" "distinct (map ci_key (entries s))"
  show ?thesis
  proof (rule recent_entries [OF assms(1)])
    show "filter P (entries s) = filter P pre @ i # filter P post" using assms(2) s(1) by simp
    show "ci_key ` set (filter P pre) \<subseteq> T" using s(2) by auto
  qed (rule distinct_map_filter [OF s(3)])
qed

lemma recent_remove:
  "recent T i s \<Longrightarrow> k \<in> T \<Longrightarrow> recent T i (s\<lparr>entries := lru_remove k (entries s)\<rparr>)"
  unfolding lru_remove_def by (rule recent_filter) (auto simp: recent_def)

lemma recent_push:
  assumes "recent T i s" "ci_key j \<in> T" "ci_key j \<notin> ci_key ` set (entries s)"
  shows "recent T i (s\<lparr>entries := j # entries s\<rparr>)"
  using assms(1)
proof (rule recentE)
  fix pre post
  assume s: "entries s = pre @ i # post" "ci_key ` set pre \<subseteq> T" "distinct (map ci_key (entries s))"
  show ?thesis
  proof (rule recent_entries [OF assms(1)])
    show "j # entries s = (j # pre) @ i # post" using s(1) by simp
    show "ci_key ` set (j # pre) \<subseteq> T" using s(2) assms(2) by auto
  qed (use s(3) assms(3) in simp)
qed

lemma recent_butlast:
  assumes "recent T i s" "int (length (entries s)) \<ge> lru_cap s" "k \<in> T" "k \<notin> ci_key ` set (entries s)"
  shows "recent T i (s\<lparr>entries := butlast (entries s)\<rparr>)"
  using assms(1)
proof (rule recentE)
  fix pre post
  assume s: "entries s = pre @ i # post" "ci_key ` set pre \<subseteq> T" "finite T" "int (card T) < lru_cap s"
    "distinct (map ci_key (entries s))"
  have "length pre = card (ci_key ` set pre)"
    using s(1,5) distinct_card [of "map ci_key pre"] by simp
  also have "\<dots> \<le> card (T - {k})" using s assms(4) by (intro card_mono) auto
  also have "\<dots> < card T" using s(3) assms(3) by (rule card_Diff1_less)
  finally have "post \<noteq> []" using assms(2) s(1,4) by auto
  then have "butlast (entries s) = pre @ i # butlast post" using s(1) by (simp add: butlast_append)
  moreover have "distinct (map ci_key (butlast (entries s)))"
    using s(5) by (simp only: map_butlast distinct_butlast)
  ultimately show ?thesis using s(2) by (intro recent_entries [OF assms(1)])
qed

lemma recent_counters [simp]:
  "recent T i (s\<lparr>lru_hits := n\<rparr>) = recent T i s" "recent T i (s\<lparr>lru_misses := n\<rparr>) = recent T i s"
  "recent T i (s\<lparr>lru_evictions := n\<rparr>) = recent T i s" "recent T i (s\<lparr>lru_expired := n\<rparr>) = recent T i s"
  by (simp_all add: recent_def)

lemma recent_front:
  assumes "recent T i s" "ci_key j \<in> T"
  shows "recent T i (s\<lparr>entries := j # lru_remove (ci_key j) (entries s)\<rparr>)"
proof -
  have "ci_key j \<notin> ci_key ` set (lru_remove (ci_key j) (entries s))" by (auto simp: lru_remove_def)
  with recent_push [OF recent_remove [OF assms] assms(2)] show ?thesis by simp
qed

lemma recent_step:
  assumes "recent T i s" "only_uses T (expireAt i) e"
  shows "recent T i (fst (lru_step s e))"
proof (cases e)
  case (CGet now k)
  with assms recent_front [OF assms(1)] recent_remove [OF assms(1)] show ?thesis
    by (auto split: option.split dest: lru_find_SomeD)
next
  case (CSet now k v ttl)
  let ?new = "\<lparr>ci_key = k, ci_value = v, expireAt = lru_expiry now ttl s\<rparr>"
  have k: "k \<in> T" using assms(2) CSet by simp
  show ?thesis
  proof (cases "lru_find k (entries s)")
    case None
    then have new: "k \<notin> ci_key ` set (entries s)" by (simp add: lru_find_None_iff)
    then have "k \<notin> ci_key ` set (butlast (entries s))" by (metis image_iff in_set_butlastD)
    with new k recent_push [OF assms(1), of ?new] recent_butlast [OF assms(1) _ k new]
      recent_push [of T i "s\<lparr>entries := butlast (entries s)\<rparr>" ?new] None CSet
    show ?thesis by (simp add: Let_def)
  next
    case (Some j)
    with k recent_front [OF assms(1), of ?new] CSet show ?thesis by (simp add: Let_def)
  qed
next
  case (CDelete k)
  with assms recent_remove [OF assms(1)] show ?thesis by simp
next
  case (CPurge now)
  then have "\<not> item_expired now i" using assms(2) by (auto simp: item_expired_def After_def)
  with CPurge recent_filter [OF assms(1), of "\<lambda>i. \<not> item_expired now i"] show ?thesis by simp
qed (simp add: assms(1))

lemma recent_run:
  "recent T i s \<Longrightarrow> \<forall>e \<in> set es. only_uses T (expireAt i) e \<Longrightarrow> recent T i (fst (run lru_step s es))"
  by (induction es arbitrary: s) (simp_all add: run_Cons recent_step del: run.simps(2))

lemma recent_find: "recent T i s \<Longrightarrow> lru_find (ci_key i) (entries s) = Some i"
  by (erule recentE) (auto dest: lru_find_key split: option.split)

text \<open>An item that was just stored is in front, and stays so when it is read before it expires.\<close>

lemma recent_Set:
  assumes "cache_inv c" "finite T" "int (card T) < capacity c" "k \<notin> T"
  shows "recent T \<lparr>ci_key = k, ci_value = v, expireAt = effectiveExpire now ttl c\<rparr>
    (cache_abs (fst (InMemoryCache_Set now k v ttl c)))"
proof -
  let ?c = "fst (InMemoryCache_Set now k v ttl c)"
  let ?i = "\<lparr>ci_key = k, ci_value = v, expireAt = effectiveExpire now ttl c\<rparr>"
  have cap: "lru_cap (cache_abs ?c) = capacity c"
    using arg_cong [OF Set_sim [OF assms(1), of now k v ttl], of "lru_cap \<circ> fst"]
    by (simp add: Let_def split: if_splits) (simp_all add: cache_abs_def)
  have "entries (cache_abs ?c) = [] @ ?i # tl (entries (cache_abs ?c))"
    by (simp add: entries_Set [OF assms(1)])
  with assms(2-4) cap show ?thesis
    unfolding recent_def using distinct_keys_abs [OF Set_inv [OF assms(1)]]
    by (metis cacheItem.select_convs(1) empty_subsetI image_empty set_empty)
qed

lemma recent_hit:
  assumes "recent T i s" "\<not> item_expired now i"
  shows "recent T i (fst (lru_step s (CGet now (ci_key i))))"
proof -
  have "distinct (map ci_key (i # lru_remove (ci_key i) (entries s)))"
    using assms(1) by (auto simp: recent_def lru_remove_def distinct_map_filter)
  then have "recent T i (s\<lparr>entries := i # lru_remove (ci_key i) (entries s)\<rparr>)"
    by (rule recent_entries [OF assms(1), where pre = "[]"]) simp_all
  with assms(2) show ?thesis by (simp add: recent_find [OF assms(1)])
qed

text \<open>What a cache that holds such an item does when it is used.\<close>

lemma recent_cache_step:
  assumes "cache_inv c" "recent T i (cache_abs c)" "only_uses T (expireAt i) e \<or> (\<exists>now. e = CGet now (ci_key i) \<and> \<not> item_expired now i)"
  shows "cache_inv (fst (cache_step c e)) \<and> recent T i (cache_abs (fst (cache_step c e)))"
proof -
  have "recent T i (fst (lru_step (cache_abs c) e))"
    using assms(2,3) recent_step [of T i "cache_abs c" e] recent_hit [of T i "cache_abs c"] by blast
  moreover have "fst (lru_step (cache_abs c) e) = cache_abs (fst (cache_step c e))"
    using cache_step_sim [OF assms(1), of e] by (metis fst_map_prod)
  ultimately show ?thesis using cache_step_inv [OF assms(1)] by simp
qed

lemma recent_lookup:
  assumes "cache_inv c" "recent T i (cache_abs c)" "\<not> item_expired now i"
  shows "cache_lookup now (ci_key i) c = Some (ci_value i)"
  using assms recent_find [OF assms(2)] by (simp add: cache_lookup_abs lru_lookup_def)

lemma cache_abs_new:
  "cache_abs (NewInMemoryCache cap ttl) = \<lparr>entries = [], lru_cap = (if cap \<le> 0 then 1024 else cap),
     lru_ttl = ttl, lru_hits = 0, lru_misses = 0, lru_evictions = 0, lru_expired = 0\<rparr>"
  by (simp add: cache_abs_def NewInMemoryCache_def)

section \<open>Properties\<close>

text \<open>
  C9. Every sequence of \<open>Get\<close>, \<open>Set\<close>, \<open>Delete\<close>, \<open>PurgeExpired\<close> and \<open>Stats\<close>
  calls on a cache built by \<open>NewInMemoryCache\<close> gives the answers of the abstract
  cache, a list of items with the most recently used one first: the map of elements and the
  linked list never disagree.
\<close>

theorem cache_refines_lru:
  "map_prod cache_abs id (run cache_step (NewInMemoryCache cap ttl) es) =
     run lru_step \<lparr>entries = [], lru_cap = (if cap \<le> 0 then 1024 else cap), lru_ttl = ttl,
       lru_hits = 0, lru_misses = 0, lru_evictions = 0, lru_expired = 0\<rparr> es"
  using lru_cache.run_sim [OF cache_inv_new, of cap ttl es] unfolding cache_abs_new .

text \<open>
  C10. The recency guarantee: a value stored under \<open>k\<close> is still returned by \<open>Get\<close> until it
  expires, however many operations come in between, as long as they use fewer than
  \<open>capacity\<close> different other keys.
\<close>

theorem cache_keeps_recent:
  assumes "cache_inv c" and "finite T" and "int (card T) < capacity c" and "k \<notin> T"
    and "\<forall>e \<in> set es. only_uses T (effectiveExpire now ttl c) e"
    and "IsZero (effectiveExpire now ttl c) \<or> t \<le> effectiveExpire now ttl c"
  shows "snd (InMemoryCache_Get t k (fst (run cache_step (fst (InMemoryCache_Set now k v ttl c)) es))) = Some v"
proof -
  let ?c = "fst (InMemoryCache_Set now k v ttl c)"
  let ?d = "fst (run cache_step ?c es)"
  let ?i = "\<lparr>ci_key = k, ci_value = v, expireAt = effectiveExpire now ttl c\<rparr>"
  have inv: "cache_inv ?c" by (rule Set_inv [OF assms(1)])
  have "recent T ?i (fst (run lru_step (cache_abs ?c) es))"
    using assms(5) by (intro recent_run recent_Set [OF assms(1-4)]) simp_all
  also have "fst (run lru_step (cache_abs ?c) es) = cache_abs ?d"
    using lru_cache.run_sim [OF inv, of es] by (metis fst_map_prod)
  finally have "recent T ?i (cache_abs ?d)" .
  moreover have "\<not> item_expired t ?i" using assms(6) by (auto simp: item_expired_def After_def)
  ultimately have "cache_lookup t (ci_key ?i) ?d = Some (ci_value ?i)"
    by (rule recent_lookup [OF lru_cache.run_inv [OF inv]])
  then show ?thesis by (simp add: Get_result)
qed

text \<open>
  \<open>Set\<close> affects no key but its own and, when a new key meets a full cache, the one
  at the back of the list: a lookup at any time \<open>t\<close> of any other key is unchanged, and the
  new value is found until its expiry.
\<close>

theorem set_touches_only_lru:
  assumes "cache_inv c"
  shows "snd (InMemoryCache_Get t j (fst (InMemoryCache_Set now k v ttl c))) =
     (if j = k then
        (if \<not> IsZero (effectiveExpire now ttl c) \<and> After t (effectiveExpire now ttl c) then None else Some v)
      else if items c k = None \<and> int (length (ll c)) \<ge> capacity c \<and>
        j = ci_key (elem_value c (last (ll c))) then None
      else snd (InMemoryCache_Get t j c))"
  using lookup_Set [OF assms, of t j now k v ttl] by (simp add: Get_result item_expired_def)

text \<open>
  \<open>PurgeExpired\<close> removes exactly the items whose expiry has passed, keeps the others in
  place, and counts what it removed.
\<close>

theorem purge_removes_expired:
  assumes "cache_inv c"
  shows "map (elem_value (PurgeExpired now c)) (ll (PurgeExpired now c)) =
      filter (\<lambda>i. \<not> item_expired now i) (map (elem_value c) (ll c)) \<and>
    snd (InMemoryCache_Get t k (PurgeExpired now c)) =
      (if \<exists>e. items c k = Some e \<and> item_expired now (elem_value c e) then None
       else snd (InMemoryCache_Get t k c)) \<and>
    ExpiredCount (PurgeExpired now c) =
      ExpiredCount c + of_nat (length (filter (item_expired now) (map (elem_value c) (ll c))))"
  using entries_Purge [OF assms, of now] lookup_Purge [OF assms, of t k now]
    arg_cong [OF Purge_sim [OF assms, of now], of lru_expired]
  by (auto simp: Get_result cache_abs_def)

definition is_get :: "'v cache_event \<Rightarrow> bool" where
  "is_get e = (case e of CGet _ _ \<Rightarrow> True | _ \<Rightarrow> False)"

lemma hits_misses_step:
  "lru_hits (fst (lru_step s e)) + lru_misses (fst (lru_step s e)) =
     lru_hits s + lru_misses s + (if is_get e then 1 else 0)"
  by (cases e) (simp_all add: is_get_def Let_def split: option.split)

lemma hits_misses_run:
  "lru_hits (fst (run lru_step s es)) + lru_misses (fst (run lru_step s es)) =
     lru_hits s + lru_misses s + of_nat (length (filter is_get es))"
  by (induction es arbitrary: s) (simp_all add: run_Cons hits_misses_step del: run.simps(2) lru_step.simps)

lemma items_card:
  assumes "cache_inv c"
  shows "card (dom (items c)) = length (ll c)"
proof -
  have "dom (items c) = (\<lambda>e. ci_key (elem_value c e)) ` set (ll c)"
    using cache_invD(2) [OF assms] by (auto simp: dom_def)
  then show ?thesis
    by (simp add: card_image [OF keys_distinct [OF assms]] distinct_card [OF cache_invD(1) [OF assms]])
qed

text \<open>
  The statistics are those of the calls: after any run the number of items equals the
  number of keys in the map and is within the capacity, and hits and misses together count
  the \<open>Get\<close> calls (as \<open>uint64\<close> counters, modulo \<open>2^64\<close>).
\<close>

theorem cache_statistics:
  "let c = fst (run cache_step (NewInMemoryCache cap ttl) es); st = InMemoryCache_Stats c
   in cs_Items st = int (card (dom (items c))) \<and> cs_Items st \<le> cs_Capacity st \<and>
     cs_Hits st + cs_Misses st = of_nat (length (filter is_get es))"
proof -
  let ?c = "fst (run cache_step (NewInMemoryCache cap ttl) es)"
  have inv: "cache_inv ?c" by (rule lru_cache.run_inv [OF cache_inv_new])
  have "cache_abs ?c = fst (run lru_step (cache_abs (NewInMemoryCache cap ttl)) es)"
    using lru_cache.run_sim [OF cache_inv_new, of cap ttl es] by (metis fst_map_prod)
  with hits_misses_run [of "cache_abs (NewInMemoryCache cap ttl)" es]
  have "Hits ?c + Misses ?c = of_nat (length (filter is_get es))"
    by (metis (no_types, lifting) add_0 cache_abs_def lru.select_convs(4,5) NewInMemoryCache_def InMemoryCache.select_convs(7,8))
  with items_card [OF inv] cache_invD(5) [OF inv] show ?thesis by (simp add: InMemoryCache_Stats_def)
qed

section \<open>Witnesses\<close>

text \<open>A cache of two entries that expire after ten nanoseconds.\<close>

definition sample_cache :: "nat InMemoryCache" where
  "sample_cache = fst (run cache_step (NewInMemoryCache 2 10)
     [CSet (Time 1) ''a'' 1 0, CSet (Time 3) ''b'' 2 0])"

lemma sample_cache_inv: "cache_inv sample_cache"
  unfolding sample_cache_def by (rule lru_cache.run_inv [OF cache_inv_new])

lemma sample_cache_capacity: "capacity sample_cache = 2 \<and> defaultTTL sample_cache = 10"
  by (simp add: sample_cache_def NewInMemoryCache_def InMemoryCache_Set_def evict_if_full_def)

theorem cache_keeps_recent_witness:
  "snd (InMemoryCache_Get (Time 15) ''c'' (fst (run cache_step
     (fst (InMemoryCache_Set (Time 5) ''c'' (3::nat) 0 sample_cache))
     [CSet (Time 6) ''d'' 4 0, CGet (Time 7) ''d'', CPurge (Time 9), CSet (Time 10) ''d'' 5 0]))) = Some 3"
  by (rule cache_keeps_recent [OF sample_cache_inv, of "{''d''}"])
    (simp_all add: sample_cache_capacity effectiveExpire_def time_Add_def)

theorem set_touches_only_lru_witness:
  "snd (InMemoryCache_Get (Time 6) ''b'' (fst (InMemoryCache_Set (Time 5) ''c'' (3::nat) 0 sample_cache))) = Some 2 \<and>
   snd (InMemoryCache_Get (Time 6) ''a'' (fst (InMemoryCache_Set (Time 5) ''c'' (3::nat) 0 sample_cache))) = None"
  using set_touches_only_lru [OF sample_cache_inv, of "Time 6" "''b''" "Time 5" "''c''" 3 0]
    set_touches_only_lru [OF sample_cache_inv, of "Time 6" "''a''" "Time 5" "''c''" 3 0]
  by (simp add: sample_cache_def NewInMemoryCache_def InMemoryCache_Set_def evict_if_full_def Let_def
      InMemoryCache_Get_def item_expired_def effectiveExpire_def time_Add_def After_def)

theorem purge_removes_expired_witness:
  "map ci_key (map (elem_value (PurgeExpired (Time 12) sample_cache)) (ll (PurgeExpired (Time 12) sample_cache))) = [''b''] \<and>
   ExpiredCount (PurgeExpired (Time 12) sample_cache) = 1"
  using purge_removes_expired [OF sample_cache_inv, of "Time 12"]
  by (simp add: sample_cache_def NewInMemoryCache_def InMemoryCache_Set_def evict_if_full_def Let_def
      item_expired_def effectiveExpire_def time_Add_def After_def IsZero_def zero_time_def)

end
