(* ===== verification/Sql_Driver.thy ===== *)
theory Sql_Driver
  imports Db_Errors Go_Float64
begin

text \<open>
  What the program uses of \<open>database/sql\<close>, its drivers and \<open>context\<close>. The pool and the
  drivers are not part of the repository: their operations are the fields of a record
  \<open>sql_driver\<close> that every definition takes as an argument. They act on a state \<open>'w\<close> of
  which nothing is assumed (the databases, the network, the clock). Values the
  program only passes around (pools, statements, transactions, result sets) are
  handles.
\<close>

type_synonym handle = nat

text \<open>The values a driver returns or takes (\<open>driver.Value\<close>).\<close>

datatype go_value =
    VNil
  | VInt int64
  | VFloat float64
  | VBool bool
  | VString string
  | VBytes string
  | VTime time

section \<open>Contexts\<close>

text \<open>
  A context is known by its deadline, if it has one; cancellation by the caller is part of the
  world. A context derived with a timeout never outlives its parent.
\<close>

type_synonym go_context = "time option"

definition context_WithTimeout :: "time \<Rightarrow> duration \<Rightarrow> go_context \<Rightarrow> go_context" where
  "context_WithTimeout now d ctx =
     (case ctx of
        None \<Rightarrow> Some (time_Add now d)
      | Some t \<Rightarrow> Some (min t (time_Add now d)))"

lemma context_WithTimeout_bound:
  "\<exists>t. context_WithTimeout now d ctx = Some t \<and> t \<le> time_Add now d \<and> (\<forall>u. ctx = Some u \<longrightarrow> t \<le> u)"
  by (cases ctx) (simp_all add: context_WithTimeout_def)

section \<open>The pool\<close>

record DBStats =
  MaxOpenConnections :: int
  OpenConnections :: int
  InUse :: int
  Idle :: int
  WaitCount :: int64
  WaitDuration :: duration
  MaxIdleClosed :: int64
  MaxIdleTimeClosed :: int64
  MaxLifetimeClosed :: int64

definition zero_DBStats :: DBStats where
  "zero_DBStats = \<lparr>MaxOpenConnections = 0, OpenConnections = 0, InUse = 0, Idle = 0, WaitCount = 0,
     WaitDuration = 0, MaxIdleClosed = 0, MaxIdleTimeClosed = 0, MaxLifetimeClosed = 0\<rparr>"

text \<open>
  \<open>drv_Wait ctx d\<close> is a \<open>select\<close> between \<open>ctx.Done()\<close> and \<open>time.After(d)\<close>: it
  returns the error of the context if that is done first. \<open>drv_Cancel\<close> is the deferred
  \<open>cancel()\<close> of a derived context. \<open>drv_Now\<close> is \<open>time.Now()\<close>.
\<close>

record 'w sql_driver =
  drv_Now :: "'w \<Rightarrow> time"
  drv_Wait :: "go_context \<Rightarrow> duration \<Rightarrow> 'w \<Rightarrow> 'w \<times> go_error option"
  drv_Cancel :: "go_context \<Rightarrow> 'w \<Rightarrow> 'w"
  drv_Sleep :: "duration \<Rightarrow> 'w \<Rightarrow> 'w"
  drv_Open :: "string \<Rightarrow> string \<Rightarrow> 'w \<Rightarrow> 'w \<times> (go_error + handle)"
  drv_Configure :: "handle \<Rightarrow> int \<Rightarrow> int \<Rightarrow> duration \<Rightarrow> duration \<Rightarrow> 'w \<Rightarrow> 'w"
  drv_Ping :: "handle \<Rightarrow> go_context \<Rightarrow> 'w \<Rightarrow> 'w \<times> go_error option"
  drv_Close :: "handle \<Rightarrow> 'w \<Rightarrow> 'w \<times> go_error option"
  drv_Stats :: "handle \<Rightarrow> 'w \<Rightarrow> DBStats"
  drv_Exec :: "handle \<Rightarrow> go_context \<Rightarrow> string \<Rightarrow> go_value list \<Rightarrow> 'w \<Rightarrow> 'w \<times> (go_error + handle)"
  drv_Query :: "handle \<Rightarrow> go_context \<Rightarrow> string \<Rightarrow> go_value list \<Rightarrow> 'w \<Rightarrow> 'w \<times> (go_error + handle)"
  drv_QueryRow :: "handle \<Rightarrow> go_context \<Rightarrow> string \<Rightarrow> go_value list \<Rightarrow> 'w \<Rightarrow> 'w \<times> handle"
  drv_Prepare :: "handle \<Rightarrow> go_context \<Rightarrow> string \<Rightarrow> 'w \<Rightarrow> 'w \<times> (go_error + handle)"
  drv_StmtClose :: "handle \<Rightarrow> 'w \<Rightarrow> 'w"
  drv_Begin :: "handle \<Rightarrow> go_context \<Rightarrow> 'w \<Rightarrow> 'w \<times> (go_error + handle)"
  drv_TxExec :: "handle \<Rightarrow> go_context \<Rightarrow> string \<Rightarrow> go_value list \<Rightarrow> 'w \<Rightarrow> 'w \<times> (go_error + handle)"
  drv_TxQuery :: "handle \<Rightarrow> go_context \<Rightarrow> string \<Rightarrow> go_value list \<Rightarrow> 'w \<Rightarrow> 'w \<times> (go_error + handle)"
  drv_Commit :: "handle \<Rightarrow> 'w \<Rightarrow> 'w \<times> go_error option"
  drv_Rollback :: "handle \<Rightarrow> 'w \<Rightarrow> 'w \<times> go_error option"
  drv_Conn :: "handle \<Rightarrow> go_context \<Rightarrow> 'w \<Rightarrow> 'w \<times> (go_error + handle)"
  drv_ConnClose :: "handle \<Rightarrow> 'w \<Rightarrow> 'w"
  drv_ConnScan :: "handle \<Rightarrow> go_context \<Rightarrow> string \<Rightarrow> 'w \<Rightarrow> 'w \<times> go_error option"
  drv_Columns :: "handle \<Rightarrow> 'w \<Rightarrow> 'w \<times> (go_error + string list)"
  drv_Next :: "handle \<Rightarrow> 'w \<Rightarrow> 'w \<times> bool"
  drv_Scan :: "handle \<Rightarrow> nat \<Rightarrow> 'w \<Rightarrow> 'w \<times> (go_error + go_value list)"
  drv_RowsErr :: "handle \<Rightarrow> 'w \<Rightarrow> 'w \<times> go_error option"
  drv_RowsClose :: "handle \<Rightarrow> 'w \<Rightarrow> 'w"
  drv_RowsAffected :: "handle \<Rightarrow> 'w \<Rightarrow> int64"
  drv_LastInsertId :: "handle \<Rightarrow> 'w \<Rightarrow> int64"

text \<open>
  A concrete driver for the witnesses: the world is a clock that every operation advances,
  statements give the result \<open>res\<close>, a query has one row with one byte string in it, and
  everything else succeeds.
\<close>

definition sample_driver :: "go_error + handle \<Rightarrow> nat sql_driver" where
  "sample_driver res =
     \<lparr>drv_Now = (\<lambda>w. Time (int w)), drv_Wait = (\<lambda>_ d w. (w + nat d, None)), drv_Cancel = (\<lambda>_ w. w), drv_Sleep = (\<lambda>d w. w + nat d),
      drv_Open = (\<lambda>_ _ w. (w + 1, Inr 7)), drv_Configure = (\<lambda>_ _ _ _ _ w. w),
      drv_Ping = (\<lambda>_ _ w. (w + 1, None)), drv_Close = (\<lambda>_ w. (w + 1, None)),
      drv_Stats = (\<lambda>_ _. zero_DBStats),
      drv_Exec = (\<lambda>_ _ _ _ w. (w + 1, res)), drv_Query = (\<lambda>_ _ _ _ w. (w + 1, res)),
      drv_QueryRow = (\<lambda>_ _ _ _ w. (w + 1, 0)), drv_Prepare = (\<lambda>_ _ _ w. (w + 1, Inr w)),
      drv_StmtClose = (\<lambda>_ w. w + 1), drv_Begin = (\<lambda>_ _ w. (w + 1, Inr w)),
      drv_TxExec = (\<lambda>_ _ _ _ w. (w + 1, res)), drv_TxQuery = (\<lambda>_ _ _ _ w. (w + 1, res)),
      drv_Commit = (\<lambda>_ w. (w + 1, None)), drv_Rollback = (\<lambda>_ w. (w + 1, None)),
      drv_Conn = (\<lambda>_ _ w. (w + 1, Inr w)), drv_ConnClose = (\<lambda>_ w. w + 1),
      drv_ConnScan = (\<lambda>_ _ _ w. (w + 1, None)),
      drv_Columns = (\<lambda>_ w. (w, Inr [''col''])), drv_Next = (\<lambda>_ w. (w + 1, even w)),
      drv_Scan = (\<lambda>_ n w. (w, Inr (replicate n (VBytes ''x'')))), drv_RowsErr = (\<lambda>_ w. (w, None)),
      drv_RowsClose = (\<lambda>_ w. w), drv_RowsAffected = (\<lambda>h _. int h), drv_LastInsertId = (\<lambda>h _. 0)\<rparr>"

end
