(* ===== verification/Retry.thy ===== *)
theory Retry
  imports Sql_Driver
begin

text \<open>
  Retry policies and the retry loop of \<open>db.go\<close> (\<open>RetryPolicy\<close>, \<open>retryExec\<close>,
  \<open>retryQuery\<close>), and the contract that every bounded retry loop of the program meets: it
  is stated once, as a locale, and the loops of \<open>db.go\<close>, \<open>open.go\<close> and \<open>utils.go\<close>
  are instances.
\<close>

section \<open>Configuration and policy\<close>

record DBAdvancedConfig =
  StmtCacheSize :: int
  cfg_SlowQueryThreshold :: duration
  QueryTimeout :: duration
  cfg_MaxRetries :: int
  RetryBackoff :: duration

record RetryPolicy =
  MaxRetries :: int
  InitialBackoff :: duration
  MaxBackoff :: duration
  BackoffMultiplier :: float64
  RetryableErrors :: "go_error list"

definition NewRetryPolicy :: "DBAdvancedConfig option \<Rightarrow> RetryPolicy" where
  "NewRetryPolicy config =
     (let rp = \<lparr>MaxRetries = 3, InitialBackoff = 100 * Millisecond, MaxBackoff = 5 * Second,
                BackoffMultiplier = Finite 2, RetryableErrors = []\<rparr>
      in case config of
           None \<Rightarrow> rp
         | Some c \<Rightarrow>
             (let rp1 = (if cfg_MaxRetries c > 0 then rp\<lparr>MaxRetries := cfg_MaxRetries c\<rparr> else rp)
              in if RetryBackoff c > 0 then rp1\<lparr>InitialBackoff := RetryBackoff c\<rparr> else rp1))"

definition ShouldRetry :: "RetryPolicy \<Rightarrow> go_error option \<Rightarrow> bool" where
  "ShouldRetry rp err =
     (case err of
        None \<Rightarrow> False
      | Some e \<Rightarrow> e \<in> set (RetryableErrors rp) \<or> e = DeadlineExceeded \<or> e = Canceled)"

section \<open>The loop\<close>

definition next_backoff :: "RetryPolicy \<Rightarrow> duration \<Rightarrow> duration" where
  "next_backoff rp backoff =
     (let b = f64_to_int64 (f64_mul (f64_of_int backoff) (BackoffMultiplier rp))
      in if b > MaxBackoff rp then MaxBackoff rp else b)"

text \<open>\<open>fmt.Errorf(what + " failed after %d attempts: %w", MaxRetries+1, lastErr)\<close>.\<close>

definition failed_after :: "string \<Rightarrow> int \<Rightarrow> go_error option \<Rightarrow> go_error" where
  "failed_after what maxRetries lastErr =
     (let pre = what @ ''failed after '' @ show_int (wrap64 (maxRetries + 1)) @ '' attempts: ''
      in case lastErr of
           None \<Rightarrow> Errorf (pre @ ''%!w(<nil>)'')
         | Some e \<Rightarrow> ErrorfW pre e [])"

text \<open>
  The loop of \<open>retryExec\<close> and \<open>retryQuery\<close>, from attempt \<open>attempt\<close> on. \<open>wait\<close> is
  the \<open>select\<close> on the context and the timer, \<open>op\<close> the call of the pool. The counter is
  not wrapped: it passes \<open>2^63\<close> only after as many attempts, and only if \<open>MaxRetries\<close> is the largest \<open>int\<close>, where the loop of the
  code would start again with a negative counter.
\<close>

function retry_loop ::
    "RetryPolicy \<Rightarrow> (duration \<Rightarrow> 'w \<Rightarrow> 'w \<times> go_error option) \<Rightarrow> ('w \<Rightarrow> 'w \<times> (go_error + 'a)) \<Rightarrow>
     string \<Rightarrow> int \<Rightarrow> duration \<Rightarrow> go_error option \<Rightarrow> 'w \<Rightarrow> 'w \<times> (go_error + 'a)" where
  "retry_loop rp wait op what attempt backoff lastErr w =
     (if attempt \<le> MaxRetries rp then
        (case (if attempt > 0 then wait backoff w else (w, None)) of
           (w1, Some e) \<Rightarrow> (w1, Inl e)
         | (w1, None) \<Rightarrow>
             (case op w1 of
                (w2, Inr result) \<Rightarrow> (w2, Inr result)
              | (w2, Inl err) \<Rightarrow>
                  if ShouldRetry rp (Some err)
                  then retry_loop rp wait op what (attempt + 1)
                         (if attempt > 0 then next_backoff rp backoff else backoff) (Some err) w2
                  else (w2, Inl (failed_after what (MaxRetries rp) (Some err)))))
      else (w, Inl (failed_after what (MaxRetries rp) lastErr)))"
  by pat_completeness auto
termination
  by (relation "measure (\<lambda>(rp, wait, op, what, attempt, backoff, lastErr, w).
        nat (MaxRetries rp + 1 - attempt))") auto

declare retry_loop.simps [simp del]

definition retryExec ::
    "'w sql_driver \<Rightarrow> RetryPolicy \<Rightarrow> handle \<Rightarrow> go_context \<Rightarrow> string \<Rightarrow> go_value list \<Rightarrow> 'w \<Rightarrow>
     'w \<times> (go_error + handle)" where
  "retryExec drv rp db ctx query args w =
     retry_loop rp (drv_Wait drv ctx) (drv_Exec drv db ctx query args) ''exec '' 0 (InitialBackoff rp) None w"

definition retryQuery ::
    "'w sql_driver \<Rightarrow> RetryPolicy \<Rightarrow> handle \<Rightarrow> go_context \<Rightarrow> string \<Rightarrow> go_value list \<Rightarrow> 'w \<Rightarrow>
     'w \<times> (go_error + handle)" where
  "retryQuery drv rp db ctx query args w =
     retry_loop rp (drv_Wait drv ctx) (drv_Query drv db ctx query args) ''query '' 0 (InitialBackoff rp) None w"

section \<open>The contract of a bounded retry loop\<close>

text \<open>
  What a retry loop that made the calls \<open>rs\<close> (at most \<open>n\<close>) may return: the value of its
  last call, the wrapped error of its last call if that is not worth another attempt or was the
  last allowed, or the error of the context, if that was done while waiting. All other calls failed
  with errors worth a retry.
\<close>

definition retry_result ::
    "nat \<Rightarrow> (go_error \<Rightarrow> bool) \<Rightarrow> (go_error option \<Rightarrow> go_error) \<Rightarrow> (go_error \<Rightarrow> bool) \<Rightarrow>
     (go_error + 'a) list \<Rightarrow> go_error + 'a \<Rightarrow> bool" where
  "retry_result n again failure cancel rs res \<longleftrightarrow>
     length rs \<le> n \<and> (\<forall>r \<in> set (butlast rs). \<exists>e. r = Inl e \<and> again e) \<and>
     (case res of
        Inr v \<Rightarrow> rs \<noteq> [] \<and> last rs = Inr v
      | Inl e \<Rightarrow>
          rs \<noteq> [] \<and> (\<exists>err. last rs = Inl err \<and> e = failure (Some err) \<and> (again err \<longrightarrow> length rs = n)) \<or>
          cancel e \<and> length rs < n \<and> (\<forall>r \<in> set rs. \<exists>err. r = Inl err \<and> again err))"

lemma retry_result_Cons:
  assumes "retry_result n again failure cancel rs res" "again err"
  shows "retry_result (Suc n) again failure cancel (Inl err # rs) res"
  using assms by (cases res) (auto simp: retry_result_def)

lemma retry_result_cancel: "cancel e \<Longrightarrow> 0 < n \<Longrightarrow> retry_result n again failure cancel [] (Inl e)"
  by (simp add: retry_result_def)

lemma retry_result_value: "0 < n \<Longrightarrow> retry_result n again failure cancel [Inr v] (Inr v)"
  by (simp add: retry_result_def)

lemma retry_result_failure:
  "0 < n \<Longrightarrow> again err \<longrightarrow> n = 1 \<Longrightarrow> retry_result n again failure cancel [Inl err] (Inl (failure (Some err)))"
  by (simp add: retry_result_def)

locale retry_contract =
  fixes loop :: "int \<Rightarrow> 'b \<Rightarrow> go_error option \<Rightarrow> 'w \<Rightarrow> 'w \<times> (go_error + 'a)"
    and last_attempt :: int
    and before :: "int \<Rightarrow> 'b \<Rightarrow> 'w \<Rightarrow> 'w \<times> go_error option"
    and op :: "int \<Rightarrow> 'w \<Rightarrow> 'w \<times> (go_error + 'a)"
    and again :: "go_error \<Rightarrow> bool"
    and failure :: "go_error option \<Rightarrow> go_error"
    and next_state :: "int \<Rightarrow> 'b \<Rightarrow> 'b"
    and cancel :: "go_error \<Rightarrow> bool"
    and log :: "'w \<Rightarrow> (go_error + 'a) list"
  assumes loop_step: "a \<le> last_attempt \<Longrightarrow> loop a b le w =
      (case before a b w of
         (w1, Some e) \<Rightarrow> (w1, Inl e)
       | (w1, None) \<Rightarrow>
           (case op a w1 of
              (w2, Inr r) \<Rightarrow> (w2, Inr r)
            | (w2, Inl err) \<Rightarrow>
                if again err then loop (a + 1) (next_state a b) (Some err) w2
                else (w2, Inl (failure (Some err)))))"
    and loop_end: "last_attempt < a \<Longrightarrow> loop a b le w = (w, Inl (failure le))"
    and op_logs: "op a w = (w', r) \<Longrightarrow> log w' = log w @ [r]"
    and before_logs: "before a b w = (w', c) \<Longrightarrow> log w' = log w"
    and before_cancels: "before a b w = (w', Some e) \<Longrightarrow> cancel e"
begin

lemma loop_result:
  assumes "a \<le> last_attempt"
  shows "\<exists>rs. log (fst (loop a b le w)) = log w @ rs \<and>
    retry_result (nat (last_attempt + 1 - a)) again failure cancel rs (snd (loop a b le w))"
  using assms
proof (induction "nat (last_attempt - a)" arbitrary: a b le w rule: less_induct)
  case less
  obtain w1 c where bef: "before a b w = (w1, c)" by (metis surj_pair)
  obtain w2 r where op: "op a w1 = (w2, r)" by (metis surj_pair)
  have log: "log w1 = log w" "log w2 = log w @ [r]" using before_logs [OF bef] op_logs [OF op] by simp_all
  let ?n = "nat (last_attempt + 1 - a)"
  have n: "0 < ?n" using less.prems by simp
  consider (cancelled) e where "c = Some e" | (stop) "c = None" "\<nexists>err. r = Inl err \<and> again err"
    | (again) err where "c = None" "r = Inl err" "again err" by (cases c) auto
  then show ?case
  proof cases
    case cancelled
    with bef have "loop a b le w = (w1, Inl e)" by (simp add: loop_step [OF less.prems])
    with retry_result_cancel [OF before_cancels n] bef cancelled log(1) show ?thesis by fastforce
  next
    case stop
    then have "retry_result ?n again failure cancel [r] (snd (loop a b le w)) \<and> fst (loop a b le w) = w2"
      using bef op n by (cases r) (simp_all add: loop_step [OF less.prems] retry_result_value retry_result_failure)
    with log(2) show ?thesis by metis
  next
    case again
    let ?l = "loop (a + 1) (next_state a b) (Some err) w2"
    have unf: "loop a b le w = ?l" using again bef op by (simp add: loop_step [OF less.prems])
    show ?thesis
    proof (cases "a = last_attempt")
      case True
      with unf again log(2) retry_result_failure [of 1 again err] show ?thesis
        by (intro exI [of _ "[r]"]) (simp add: loop_end)
    next
      case False
      then have a: "a + 1 \<le> last_attempt" using less.prems by simp
      then obtain rs where rs: "log (fst ?l) = log w2 @ rs"
        "retry_result (nat (last_attempt + 1 - (a + 1))) again failure cancel rs (snd ?l)"
        using less.hyps [of "a + 1" "next_state a b" "Some err" w2] by auto
      have "?n = Suc (nat (last_attempt + 1 - (a + 1)))" using a by simp
      with retry_result_Cons [OF rs(2) again(3)] rs(1) unf log(2) again(2) show ?thesis
        by (intro exI [of _ "r # rs"]) simp
    qed
  qed
qed

end

section \<open>Logged calls\<close>

text \<open>
  The loop observed: the world together with the results of the calls made so far and
  the waits between them. Observation does not change what the loop does.
\<close>

type_synonym ('w, 'a) observed = "'w \<times> (go_error + 'a) list \<times> duration list"

definition logged_op ::
    "('w \<Rightarrow> 'w \<times> (go_error + 'a)) \<Rightarrow> ('w, 'a) observed \<Rightarrow> ('w, 'a) observed \<times> (go_error + 'a)" where
  "logged_op op = (\<lambda>(w, rs, ds). case op w of (w', r) \<Rightarrow> ((w', rs @ [r], ds), r))"

definition logged_wait ::
    "(duration \<Rightarrow> 'w \<Rightarrow> 'w \<times> go_error option) \<Rightarrow> duration \<Rightarrow> ('w, 'a) observed \<Rightarrow>
     ('w, 'a) observed \<times> go_error option" where
  "logged_wait wait d = (\<lambda>(w, rs, ds). case wait d w of (w', c) \<Rightarrow> ((w', rs, ds @ [d]), c))"

abbreviation observed_loop where
  "observed_loop rp wait op what \<equiv> retry_loop rp (logged_wait wait) (logged_op op) what"

interpretation db_retry: retry_contract
  "observed_loop rp wait op what" "MaxRetries rp"
  "\<lambda>a b w. if a > 0 then logged_wait wait b w else (w, None)" "\<lambda>a. logged_op op"
  "\<lambda>e. ShouldRetry rp (Some e)" "failed_after what (MaxRetries rp)"
  "\<lambda>a b. if a > 0 then next_backoff rp b else b"
  "\<lambda>e. \<exists>d w w'. wait d w = (w', Some e)" "fst \<circ> snd"
  for rp wait what and op :: "'w \<Rightarrow> 'w \<times> (go_error + 'a)"
proof (unfold_locales, goal_cases)
  case (1 a b le w)
  then show ?case by (subst retry_loop.simps) simp
next
  case (2 a b le w)
  then show ?case by (subst retry_loop.simps) simp
qed (auto simp: logged_op_def logged_wait_def split: prod.splits if_splits)

lemma observed_loop_erases:
  "map_prod fst id (observed_loop rp wait op what a b le (w, rs, ds)) = retry_loop rp wait op what a b le w"
proof (induction "nat (MaxRetries rp + 1 - a)" arbitrary: a b le w rs ds rule: less_induct)
  case less
  obtain w1 c where w: "(if a > 0 then wait b w else (w, None)) = (w1, c)" by (metis surj_pair)
  obtain w2 r where o: "op w1 = (w2, r)" by (metis surj_pair)
  have lw: "(if a > 0 then logged_wait wait b (w, rs, ds) else ((w, rs, ds), None)) =
      ((w1, rs, if a > 0 then ds @ [b] else ds), c)"
    using w by (auto simp: logged_wait_def)
  have lo: "logged_op op (w1, rs, ds') = ((w2, rs @ [r], ds'), r)" for ds'
    using o by (simp add: logged_op_def)
  show ?case
    by (subst (1 2) retry_loop.simps) (auto simp: w o lw lo less split: option.split sum.split)
qed

text \<open>The waits of the loop: the backoff in force at each attempt after the first.\<close>

fun backoffs :: "RetryPolicy \<Rightarrow> duration \<Rightarrow> nat \<Rightarrow> duration list" where
  "backoffs rp b 0 = []"
| "backoffs rp b (Suc n) = b # backoffs rp (next_backoff rp b) n"

lemma backoffs_append_one:
  "backoffs rp b n @ [(next_backoff rp ^^ n) b] = backoffs rp b (Suc n)"
  by (induction n arbitrary: b) (simp_all add: funpow_swap1)

lemma length_backoffs [simp]: "length (backoffs rp b n) = n"
  by (induction n arbitrary: b) simp_all

text \<open>
  From attempt \<open>a > 0\<close> on: as many waits as calls, or one more when the context ended
  the last wait, and the waits follow the backoffs.
\<close>

lemma observed_waits_later:
  assumes "0 < a"
  shows "\<exists>rs n. snd (fst (observed_loop rp wait op what a b le (w, rs0, ds0))) = (rs0 @ rs, ds0 @ backoffs rp b n) \<and>
    n \<le> nat (MaxRetries rp + 1 - a) \<and> (n = length rs \<or> n = Suc (length rs))"
  using assms
proof (induction "nat (MaxRetries rp + 1 - a)" arbitrary: a b le w rs0 ds0 rule: less_induct)
  case less
  show ?case
  proof (cases "a \<le> MaxRetries rp")
    case False
    then show ?thesis by (subst retry_loop.simps) (auto intro!: exI [of _ 0])
  next
    case True
    obtain w1 c where w: "wait b w = (w1, c)" by (metis surj_pair)
    obtain w2 r where o: "op w1 = (w2, r)" by (metis surj_pair)
    have lw: "logged_wait wait b (w, rs0, ds0) = ((w1, rs0, ds0 @ [b]), c)" using w by (simp add: logged_wait_def)
    have lo: "logged_op op (w1, rs0, ds') = ((w2, rs0 @ [r], ds'), r)" for ds' using o by (simp add: logged_op_def)
    let ?b = "next_backoff rp b"
    show ?thesis
    proof (cases "c = None \<and> (\<exists>err. r = Inl err \<and> ShouldRetry rp (Some err))")
      case False
      then have "snd (fst (observed_loop rp wait op what a b le (w, rs0, ds0))) =
          (rs0 @ (if c = None then [r] else []), ds0 @ backoffs rp b 1)"
        using True less.prems by (subst retry_loop.simps) (auto simp: lw lo split: option.split sum.split)
      then show ?thesis using True by (intro exI [of _ "if c = None then [r] else []"] exI [of _ 1]) auto
    next
      case again: True
      then obtain err where err: "c = None" "r = Inl err" "ShouldRetry rp (Some err)" by blast
      have unf: "observed_loop rp wait op what a b le (w, rs0, ds0) =
          observed_loop rp wait op what (a + 1) ?b (Some err) (w2, rs0 @ [r], ds0 @ [b])"
        using True less.prems by (subst retry_loop.simps) (simp add: lw lo err)
      obtain rs n where ih: "snd (fst (observed_loop rp wait op what (a + 1) ?b (Some err) (w2, rs0 @ [r], ds0 @ [b]))) =
          ((rs0 @ [r]) @ rs, (ds0 @ [b]) @ backoffs rp ?b n)" "n \<le> nat (MaxRetries rp + 1 - (a + 1))"
          "n = length rs \<or> n = Suc (length rs)"
        using less.hyps [of "a + 1" ?b "Some err" w2 "rs0 @ [r]" "ds0 @ [b]"] True less.prems by auto
      with unf True show ?thesis by (intro exI [of _ "r # rs"] exI [of _ "Suc n"]) auto
    qed
  qed
qed

lemma observed_waits:
  assumes "0 \<le> MaxRetries rp"
  shows "\<exists>rs n. snd (fst (observed_loop rp wait op what 0 b le (w, [], []))) = (rs, backoffs rp b n) \<and>
    n \<le> nat (MaxRetries rp) \<and> rs \<noteq> [] \<and> (Suc n = length rs \<or> n = length rs)"
proof -
  obtain w2 r where o: "op w = (w2, r)" by (metis surj_pair)
  then have lo: "logged_op op (w, [], []) = ((w2, [r], []), r)" by (simp add: logged_op_def)
  show ?thesis
  proof (cases "\<exists>err. r = Inl err \<and> ShouldRetry rp (Some err)")
    case False
    then show ?thesis
      using assms by (subst retry_loop.simps) (auto simp: lo intro!: exI [of _ 0] split: sum.split)
  next
    case True
    then obtain err where err: "r = Inl err" "ShouldRetry rp (Some err)" by blast
    have unf: "observed_loop rp wait op what 0 b le (w, [], []) =
        observed_loop rp wait op what 1 b (Some err) (w2, [r], [])"
      using assms err by (subst retry_loop.simps) (simp add: lo)
    obtain rs n where "snd (fst (observed_loop rp wait op what 1 b (Some err) (w2, [r], []))) =
        ([r] @ rs, [] @ backoffs rp b n)" "n \<le> nat (MaxRetries rp)" "n = length rs \<or> n = Suc (length rs)"
      using observed_waits_later [of 1 rp wait op what b "Some err" w2 "[r]" "[]"] by auto
    with unf show ?thesis by (intro exI [of _ "r # rs"] exI [of _ n]) auto
  qed
qed

lemma next_backoff_double:
  assumes "BackoffMultiplier rp = Finite 2" "0 < b" "b < 2 ^ 52"
  shows "next_backoff rp b = min (2 * b) (MaxBackoff rp)"
proof -
  have "f64_mul (f64_of_int b) (Finite 2) = Finite (of_int (2 * b))"
    using f64_of_int_exact [of b] f64_of_int_exact [of "2 * b"] assms(2,3)
    by (simp add: f64_of_int_def mult.commute)
  then have "f64_to_int64 (f64_mul (f64_of_int b) (Finite 2)) = 2 * b"
    using f64_to_int64_of_int [of "2 * b"] assms(2,3) by (simp add: in_int64_def)
  then show ?thesis by (simp add: next_backoff_def assms(1) min_def)
qed

lemma backoffs_closed_form:
  assumes "BackoffMultiplier rp = Finite 2" "0 < b" "b < 2 ^ 52" "0 < MaxBackoff rp" "MaxBackoff rp < 2 ^ 52"
  shows "backoffs rp b n = map (\<lambda>i. if i = 0 then b else min (b * 2 ^ i) (MaxBackoff rp)) [0..<n]"
  using assms
proof (induction n arbitrary: b)
  case (Suc n)
  let ?b = "min (2 * b) (MaxBackoff rp)"
  have "backoffs rp b (Suc n) = b # map (\<lambda>i. if i = 0 then ?b else min (?b * 2 ^ i) (MaxBackoff rp)) [0..<n]"
    using Suc by (simp add: next_backoff_double)
  also have "map (\<lambda>i. if i = 0 then ?b else min (?b * 2 ^ i) (MaxBackoff rp)) [0..<n] =
      map (\<lambda>i. min (b * 2 ^ Suc i) (MaxBackoff rp)) [0..<n]"
  proof (rule map_cong [OF refl])
    fix i
    have "MaxBackoff rp \<le> MaxBackoff rp * 2 ^ i" "2 * b \<le> 2 * b * 2 ^ i" using Suc.prems(2,4) by simp_all
    then show "(if i = 0 then ?b else min (?b * 2 ^ i) (MaxBackoff rp)) = min (b * 2 ^ Suc i) (MaxBackoff rp)"
      by (cases "2 * b \<le> MaxBackoff rp") (simp_all add: min_absorb1 min_absorb2 mult_ac)
  qed
  finally show ?case by (simp only: upt_rec [of 0 "Suc n"] map_Suc_upt [symmetric]) (simp add: o_def)
qed simp

lemma NewRetryPolicy_fields:
  "BackoffMultiplier (NewRetryPolicy config) = Finite 2" "MaxBackoff (NewRetryPolicy config) = 5 * Second"
  "RetryableErrors (NewRetryPolicy config) = []" "0 < MaxRetries (NewRetryPolicy config)"
  "0 < InitialBackoff (NewRetryPolicy config)"
  by (simp_all add: NewRetryPolicy_def Let_def split: option.split)

lemma NewRetryPolicy_None:
  "MaxRetries (NewRetryPolicy None) = 3" "InitialBackoff (NewRetryPolicy None) = 100 * Millisecond"
  by (simp_all add: NewRetryPolicy_def)

section \<open>Properties\<close>

text \<open>
  C11. The retry loop of \<open>retryExec\<close> and \<open>retryQuery\<close>, whatever the pool and the
  context do: it makes at least one and at most \<open>MaxRetries + 1\<close> calls; every call but
  the last failed with an error the policy retries; it returns the value of its last call as soon
  as one succeeds, else the wrapped error of its last call, which is then either one the policy
  does not retry or the last allowed, or the error of the context that ended a wait. Between two calls it
  waits once.
\<close>

theorem retry_loop_bounded:
  assumes "0 \<le> MaxRetries rp"
  shows "\<exists>w' rs n res.
    observed_loop rp wait op what 0 (InitialBackoff rp) None (w, [], []) =
      ((w', rs, backoffs rp (InitialBackoff rp) n), res) \<and>
    retry_loop rp wait op what 0 (InitialBackoff rp) None w = (w', res) \<and>
    retry_result (nat (MaxRetries rp + 1)) (\<lambda>e. ShouldRetry rp (Some e)) (failed_after what (MaxRetries rp))
      (\<lambda>e. \<exists>d v v'. wait d v = (v', Some e)) rs res \<and>
    rs \<noteq> [] \<and> n \<le> nat (MaxRetries rp) \<and> (Suc n = length rs \<or> n = length rs)"
proof -
  let ?ob = "observed_loop rp wait op what 0 (InitialBackoff rp) None (w, [], [])"
  obtain rs n where rs: "snd (fst ?ob) = (rs, backoffs rp (InitialBackoff rp) n)" "n \<le> nat (MaxRetries rp)"
    "rs \<noteq> []" "Suc n = length rs \<or> n = length rs"
    using observed_waits [OF assms, of wait op what "InitialBackoff rp" None w] by (elim exE conjE)
  moreover have "retry_result (nat (MaxRetries rp + 1)) (\<lambda>e. ShouldRetry rp (Some e))
      (failed_after what (MaxRetries rp)) (\<lambda>e. \<exists>d v v'. wait d v = (v', Some e)) rs (snd ?ob)"
    using db_retry.loop_result [OF assms, of wait op what "InitialBackoff rp" None "(w, [], [])"] rs(1) by simp
  moreover have "retry_loop rp wait op what 0 (InitialBackoff rp) None w = (fst (fst ?ob), snd ?ob)"
    using observed_loop_erases [of rp wait op what 0 "InitialBackoff rp" None w "[]" "[]", symmetric]
    by (simp add: map_prod_def split_beta)
  ultimately show ?thesis
    by (intro exI [of _ "fst (fst ?ob)"] exI [of _ rs] exI [of _ n] exI [of _ "snd ?ob"])
      (simp add: prod_eq_iff)
qed

theorem retry_loop_bounded_witness:
  "\<exists>w' rs n res.
    observed_loop (NewRetryPolicy None) (\<lambda>d w. (w, None)) (\<lambda>w. (Suc w, Inl DeadlineExceeded :: go_error + unit))
      ''exec '' 0 (100 * Millisecond) None (0, [], []) = ((w', rs, backoffs (NewRetryPolicy None) (100 * Millisecond) n), res) \<and>
    length rs \<le> 4 \<and> rs \<noteq> [] \<and> n \<le> 3"
  using retry_loop_bounded [of "NewRetryPolicy None" "\<lambda>d w. (w, None)"
      "\<lambda>w. (Suc w, Inl DeadlineExceeded :: go_error + unit)" "''exec ''" 0]
  unfolding NewRetryPolicy_None by (fastforce simp: retry_result_def)

text \<open>
  C12. The waits of a policy built by \<open>NewRetryPolicy\<close>: the first is the initial backoff,
  the later ones double it up to five seconds. The float64 product is exact here,
  for any initial backoff below \<open>2^52\<close> nanoseconds (52 days).
\<close>

theorem retry_backoff_doubles:
  assumes "InitialBackoff (NewRetryPolicy config) < 2 ^ 52"
  shows "\<exists>n \<le> nat (MaxRetries (NewRetryPolicy config)).
    snd (snd (fst (observed_loop (NewRetryPolicy config) wait op what 0
      (InitialBackoff (NewRetryPolicy config)) None (w, [], [])))) =
    map (\<lambda>i. if i = 0 then InitialBackoff (NewRetryPolicy config)
             else min (InitialBackoff (NewRetryPolicy config) * 2 ^ i) (5 * Second)) [0..<n]"
proof -
  let ?rp = "NewRetryPolicy config"
  have "0 \<le> MaxRetries ?rp" using NewRetryPolicy_fields(4) [of config] by simp
  from observed_waits [OF this, of wait op what "InitialBackoff ?rp" None w] obtain n rs where
    "n \<le> nat (MaxRetries ?rp)"
    "snd (fst (observed_loop ?rp wait op what 0 (InitialBackoff ?rp) None (w, [], []))) =
      (rs, backoffs ?rp (InitialBackoff ?rp) n)" by blast
  with backoffs_closed_form [OF NewRetryPolicy_fields(1,5) assms] show ?thesis
    by (auto simp: NewRetryPolicy_fields Second_def)
qed

theorem retry_backoff_doubles_witness:
  "\<exists>n \<le> 3. snd (snd (fst (observed_loop (NewRetryPolicy None) (\<lambda>d w. (w, None))
      (\<lambda>w. (w, Inl Canceled :: go_error + unit)) ''query '' 0 (100 * Millisecond) None ((), [], [])))) =
    map (\<lambda>i. if i = 0 then 100 * Millisecond else min (100 * Millisecond * 2 ^ i) (5 * Second)) [0..<n]"
  using retry_backoff_doubles [of None "\<lambda>d w. (w, None)" "\<lambda>w. (w, Inl Canceled :: go_error + unit)" "''query ''" "()"]
  unfolding NewRetryPolicy_None by (simp add: Millisecond_def)

text \<open>
  Every policy the program builds retries exactly the two errors of an ended context,
  compared by identity: an error of the driver, or a wrapped context error, ends the loop
  after one call, and the message still claims \<open>MaxRetries + 1\<close> attempts.
\<close>

theorem only_context_errors_retried:
  assumes "drv_Exec drv db ctx query args w = (w', Inl err)" and "err \<notin> {DeadlineExceeded, Canceled}"
  shows "retryExec drv (NewRetryPolicy config) db ctx query args w =
      (w', Inl (ErrorfW (''exec failed after '' @
        show_int (wrap64 (MaxRetries (NewRetryPolicy config) + 1)) @ '' attempts: '') err []))"
proof -
  have "\<not> ShouldRetry (NewRetryPolicy config) (Some err)"
    using assms(2) by (simp add: ShouldRetry_def NewRetryPolicy_fields)
  then show ?thesis
    using assms(1) NewRetryPolicy_fields(4) [of config]
    by (subst retryExec_def, subst retry_loop.simps) (simp add: failed_after_def)
qed

theorem only_context_errors_retried_witness:
  "retryExec (sample_driver (Inl (ErrExt 0 ''syntax error''))) (NewRetryPolicy None) 7 None ''SELEC 1'' [] 5 =
     (6, Inl (ErrorfW ''exec failed after 4 attempts: '' (ErrExt 0 ''syntax error'') []))"
proof -
  have "show_int 4 = ''4''" by code_simp
  moreover have "wrap64 4 = 4" by (simp add: in_int64_def)
  ultimately show ?thesis
    using only_context_errors_retried [of "sample_driver (Inl (ErrExt 0 ''syntax error''))" 7 None "''SELEC 1''"
        "[]" 5 6 "ErrExt 0 ''syntax error''" None]
    by (simp add: sample_driver_def NewRetryPolicy_None)
qed

end
