(* ===== verification/Db.thy ===== *)
theory Db
  imports Gate Retry "HOL-Library.AList"
begin

text \<open>
  The database wrapper of \<open>db.go\<close>: the prepared-statement cache, the metrics, and the
  operations of \<open>AdvancedDB\<close> and \<open>AdvancedTx\<close>, which run the pool's operations behind
  the gate and the retry loop. The gate is shared by the wrapper, its transactions and the
  runtime; it is passed beside the wrapper's own state, and so is the world of the driver.
\<close>

section \<open>Prepared statements\<close>

text \<open>
  The map of the cache is an association list with distinct keys. Go iterates over a map in an
  unspecified order: the entry the eviction of \<open>Put\<close> meets first is the one at position
  \<open>pick\<close>, an argument.
\<close>

record PreparedStatementCache =
  psc_cache :: "(string \<times> handle) list"
  maxSize :: int

definition NewPreparedStatementCache :: "DBAdvancedConfig option \<Rightarrow> PreparedStatementCache" where
  "NewPreparedStatementCache config =
     \<lparr>psc_cache = [],
      maxSize = (case config of
                   None \<Rightarrow> 100
                 | Some c \<Rightarrow> if StmtCacheSize c > 0 then StmtCacheSize c else 100)\<rparr>"

definition psc_Get :: "string \<Rightarrow> PreparedStatementCache \<Rightarrow> handle option" where
  "psc_Get query psc = map_of (psc_cache psc) query"

definition drop_entry :: "nat \<Rightarrow> 'a list \<Rightarrow> 'a list" where
  "drop_entry pick xs = (let j = pick mod length xs in take j xs @ drop (Suc j) xs)"

definition psc_Put :: "nat \<Rightarrow> string \<Rightarrow> handle \<Rightarrow> PreparedStatementCache \<Rightarrow> PreparedStatementCache" where
  "psc_Put pick query stmt psc =
     (let c = (if int (length (psc_cache psc)) \<ge> maxSize psc then drop_entry pick (psc_cache psc)
               else psc_cache psc)
      in psc\<lparr>psc_cache := AList.update query stmt c\<rparr>)"

definition psc_Clear :: "'w sql_driver \<Rightarrow> PreparedStatementCache \<Rightarrow> 'w \<Rightarrow> PreparedStatementCache \<times> 'w" where
  "psc_Clear drv psc w =
     (psc\<lparr>psc_cache := []\<rparr>, fold (\<lambda>(q, stmt). drv_StmtClose drv stmt) (psc_cache psc) w)"

section \<open>Metrics\<close>

record DBMetrics =
  TotalQueries :: int64
  SuccessfulQueries :: int64
  FailedQueries :: int64
  TotalQueryTime :: int64
  SlowQueries :: int64
  SlowQueryThreshold :: duration

record MetricsStats =
  ms_TotalQueries :: int64
  ms_SuccessfulQueries :: int64
  ms_FailedQueries :: int64
  AverageQueryTime :: duration
  ms_SlowQueries :: int64
  SuccessRate :: float64

definition NewDBMetrics :: "DBAdvancedConfig option \<Rightarrow> DBMetrics" where
  "NewDBMetrics config =
     \<lparr>TotalQueries = 0, SuccessfulQueries = 0, FailedQueries = 0, TotalQueryTime = 0, SlowQueries = 0,
      SlowQueryThreshold = (case config of
                              None \<Rightarrow> 1 * Second
                            | Some c \<Rightarrow> if cfg_SlowQueryThreshold c > 0 then cfg_SlowQueryThreshold c
                                        else 1 * Second)\<rparr>"

definition RecordQuery :: "duration \<Rightarrow> go_error option \<Rightarrow> DBMetrics \<Rightarrow> DBMetrics" where
  "RecordQuery d err m =
     (let m1 = m\<lparr>TotalQueries := wrap64 (TotalQueries m + 1),
                 TotalQueryTime := wrap64 (TotalQueryTime m + d)\<rparr>;
          m2 = (if err \<noteq> None then m1\<lparr>FailedQueries := wrap64 (FailedQueries m1 + 1)\<rparr>
                else m1\<lparr>SuccessfulQueries := wrap64 (SuccessfulQueries m1 + 1)\<rparr>)
      in if d > SlowQueryThreshold m2 then m2\<lparr>SlowQueries := wrap64 (SlowQueries m2 + 1)\<rparr> else m2)"

definition GetStats :: "DBMetrics \<Rightarrow> MetricsStats" where
  "GetStats m =
     \<lparr>ms_TotalQueries = TotalQueries m, ms_SuccessfulQueries = SuccessfulQueries m,
      ms_FailedQueries = FailedQueries m,
      AverageQueryTime = (if TotalQueries m > 0 then go_div (TotalQueryTime m) (TotalQueries m) else 0),
      ms_SlowQueries = SlowQueries m,
      SuccessRate = f64_mul (f64_div (f64_of_int (SuccessfulQueries m)) (f64_of_int (TotalQueries m)))
                      (Finite 100)\<rparr>"

section \<open>The wrapper\<close>

record AdvancedDB =
  adb_db :: handle
  stmtCache :: PreparedStatementCache
  metrics :: DBMetrics
  retryPolicy :: RetryPolicy
  queryTimeout :: duration

definition NewAdvancedDB :: "handle \<Rightarrow> DBAdvancedConfig option \<Rightarrow> AdvancedDB" where
  "NewAdvancedDB db config =
     (let adb = \<lparr>adb_db = db, stmtCache = NewPreparedStatementCache config, metrics = NewDBMetrics config,
                 retryPolicy = NewRetryPolicy config, queryTimeout = 30 * Second\<rparr>
      in case config of
           None \<Rightarrow> adb
         | Some c \<Rightarrow> if QueryTimeout c > 0 then adb\<lparr>queryTimeout := QueryTimeout c\<rparr> else adb)"

text \<open>
  The state of a call: the shared gate, the wrapper, the world. What the gate meets while a call
  passes it (clock readings, other goroutines, the \<open>select\<close> case that fires) is one
  argument.
\<close>

type_synonym 'w db_state = "ConnectionGate \<times> AdvancedDB \<times> 'w"
type_synonym gate_env = "gate_clock \<times> limiter_op list \<times> select_case"

text \<open>The deferred \<open>RecordQuery\<close> of \<open>Exec\<close> and \<open>Query\<close>: it always passes \<open>nil\<close>. It runs
  after the deferred \<open>cancel\<close>, as deferred calls run in reverse order.\<close>

definition record_elapsed :: "'w sql_driver \<Rightarrow> time \<Rightarrow> 'w \<Rightarrow> AdvancedDB \<Rightarrow> AdvancedDB" where
  "record_elapsed drv start w adb =
     adb\<lparr>metrics := RecordQuery (time_Sub (drv_Now drv w) start) None (metrics adb)\<rparr>"

definition gated ::
    "'w sql_driver \<Rightarrow> gate_env \<Rightarrow> (AdvancedDB \<Rightarrow> go_context \<Rightarrow> 'w \<Rightarrow> 'w \<times> (go_error + 'a)) \<Rightarrow> go_context \<Rightarrow>
     'w db_state \<Rightarrow> 'w db_state \<times> (go_error + 'a) outcome" where
  "gated drv env operation ctx = (\<lambda>(cg, adb, w).
     (case env of (clk, others, sel) \<Rightarrow>
        (let start = drv_Now drv w; ctx1 = context_WithTimeout start (queryTimeout adb) ctx
         in case ExecuteWithGate clk others sel (operation adb ctx1) (cg, w) of
              ((cg1, w1), Blocked) \<Rightarrow> ((cg1, adb, w1), Blocked)
            | ((cg1, w1), r) \<Rightarrow>
                (let w2 = drv_Cancel drv ctx1 w1 in ((cg1, record_elapsed drv start w2 adb, w2), r)))))"

definition AdvancedDB_Exec ::
    "'w sql_driver \<Rightarrow> gate_env \<Rightarrow> go_context \<Rightarrow> string \<Rightarrow> go_value list \<Rightarrow>
     'w db_state \<Rightarrow> 'w db_state \<times> (go_error + handle) outcome" where
  "AdvancedDB_Exec drv env ctx query args =
     gated drv env (\<lambda>adb ctx1. retryExec drv (retryPolicy adb) (adb_db adb) ctx1 query args) ctx"

definition AdvancedDB_Query ::
    "'w sql_driver \<Rightarrow> gate_env \<Rightarrow> go_context \<Rightarrow> string \<Rightarrow> go_value list \<Rightarrow>
     'w db_state \<Rightarrow> 'w db_state \<times> (go_error + handle) outcome" where
  "AdvancedDB_Query drv env ctx query args =
     gated drv env (\<lambda>adb ctx1. retryQuery drv (retryPolicy adb) (adb_db adb) ctx1 query args) ctx"

definition AdvancedDB_QueryRow ::
    "'w sql_driver \<Rightarrow> go_context \<Rightarrow> string \<Rightarrow> go_value list \<Rightarrow> 'w db_state \<Rightarrow> 'w db_state \<times> handle" where
  "AdvancedDB_QueryRow drv ctx query args = (\<lambda>(cg, adb, w).
     (let start = drv_Now drv w; ctx1 = context_WithTimeout start (queryTimeout adb) ctx;
          (w1, row) = drv_QueryRow drv (adb_db adb) ctx1 query args w; w2 = drv_Cancel drv ctx1 w1
      in ((cg, record_elapsed drv start w2 adb, w2), row)))"

definition AdvancedDB_Prepare ::
    "'w sql_driver \<Rightarrow> nat \<Rightarrow> go_context \<Rightarrow> string \<Rightarrow> 'w db_state \<Rightarrow> 'w db_state \<times> (go_error + handle)" where
  "AdvancedDB_Prepare drv pick ctx query = (\<lambda>(cg, adb, w).
     (case psc_Get query (stmtCache adb) of
        Some stmt \<Rightarrow> ((cg, adb, w), Inr stmt)
      | None \<Rightarrow>
          (case drv_Prepare drv (adb_db adb) ctx query w of
             (w1, Inl err) \<Rightarrow> ((cg, adb, w1), Inl err)
           | (w1, Inr stmt) \<Rightarrow>
               ((cg, adb\<lparr>stmtCache := psc_Put pick query stmt (stmtCache adb)\<rparr>, w1), Inr stmt))))"

text \<open>A transaction is its handle; its gate and metrics are those of the wrapper that began it.\<close>

definition AdvancedDB_Begin ::
    "'w sql_driver \<Rightarrow> gate_env \<Rightarrow> go_context \<Rightarrow> 'w db_state \<Rightarrow> 'w db_state \<times> (go_error + handle) outcome" where
  "AdvancedDB_Begin drv env ctx = (\<lambda>(cg, adb, w).
     (case env of (clk, others, sel) \<Rightarrow>
        (let ctx1 = context_WithTimeout (drv_Now drv w) (queryTimeout adb) ctx
         in case ExecuteWithGate clk others sel (drv_Begin drv (adb_db adb) ctx1) (cg, w) of
              ((cg1, w1), Blocked) \<Rightarrow> ((cg1, adb, w1), Blocked)
            | ((cg1, w1), r) \<Rightarrow> ((cg1, adb, drv_Cancel drv ctx1 w1), r))))"

definition AdvancedTx_Exec ::
    "'w sql_driver \<Rightarrow> handle \<Rightarrow> go_context \<Rightarrow> string \<Rightarrow> go_value list \<Rightarrow>
     'w db_state \<Rightarrow> 'w db_state \<times> (go_error + handle)" where
  "AdvancedTx_Exec drv tx ctx query args = (\<lambda>(cg, adb, w).
     (let start = drv_Now drv w; (w1, r) = drv_TxExec drv tx ctx query args w;
          err = (case r of Inl e \<Rightarrow> Some e | Inr _ \<Rightarrow> None)
      in ((cg, adb\<lparr>metrics := RecordQuery (time_Sub (drv_Now drv w1) start) err (metrics adb)\<rparr>, w1), r)))"

definition AdvancedTx_Query ::
    "'w sql_driver \<Rightarrow> handle \<Rightarrow> go_context \<Rightarrow> string \<Rightarrow> go_value list \<Rightarrow>
     'w db_state \<Rightarrow> 'w db_state \<times> (go_error + handle)" where
  "AdvancedTx_Query drv tx ctx query args = (\<lambda>(cg, adb, w).
     (let start = drv_Now drv w; (w1, r) = drv_TxQuery drv tx ctx query args w
      in ((cg, record_elapsed drv start w1 adb, w1), r)))"

definition AdvancedTx_Commit :: "'w sql_driver \<Rightarrow> handle \<Rightarrow> 'w db_state \<Rightarrow> 'w db_state \<times> go_error option" where
  "AdvancedTx_Commit drv tx = (\<lambda>(cg, adb, w).
     (case drv_Commit drv tx w of
        (w1, Some err) \<Rightarrow> ((ConnectionGate_RecordFailure (drv_Now drv w1) cg, adb, w1), Some err)
      | (w1, None) \<Rightarrow> ((ConnectionGate_RecordSuccess cg, adb, w1), None)))"

definition AdvancedTx_Rollback :: "'w sql_driver \<Rightarrow> handle \<Rightarrow> 'w db_state \<Rightarrow> 'w db_state \<times> go_error option" where
  "AdvancedTx_Rollback drv tx = (\<lambda>(cg, adb, w).
     (case drv_Rollback drv tx w of
        (w1, Some err) \<Rightarrow> ((ConnectionGate_RecordFailure (drv_Now drv w1) cg, adb, w1), Some err)
      | (w1, None) \<Rightarrow> ((cg, adb, w1), None)))"

definition AdvancedDB_Stats :: "'w sql_driver \<Rightarrow> AdvancedDB \<Rightarrow> 'w \<Rightarrow> DBStats" where
  "AdvancedDB_Stats drv adb w = drv_Stats drv (adb_db adb) w"

definition AdvancedDB_HealthCheck ::
    "'w sql_driver \<Rightarrow> go_context \<Rightarrow> AdvancedDB \<Rightarrow> 'w \<Rightarrow> 'w \<times> go_error option" where
  "AdvancedDB_HealthCheck drv ctx adb w =
     (let ctx1 = context_WithTimeout (drv_Now drv w) (5 * Second) ctx; (w1, r) = drv_Ping drv (adb_db adb) ctx1 w
      in (drv_Cancel drv ctx1 w1, r))"

section \<open>Laws of the statement cache\<close>

text \<open>
  A bounded store of statements, as \<open>Prepare\<close> uses it: a statement just stored is found, any other
  lookup keeps its answer or finds nothing, and the size keeps its limit.
\<close>

locale bounded_store =
  fixes lookup :: "string \<Rightarrow> 'c \<Rightarrow> handle option"
    and store :: "nat \<Rightarrow> string \<Rightarrow> handle \<Rightarrow> 'c \<Rightarrow> 'c"
    and inv :: "'c \<Rightarrow> bool"
    and size_of :: "'c \<Rightarrow> int"
    and limit :: "'c \<Rightarrow> int"
  assumes store_inv: "inv c \<Longrightarrow> inv (store i q h c)"
    and store_limit: "limit (store i q h c) = limit c"
    and size_le: "inv c \<Longrightarrow> size_of c \<le> limit c"
    and lookup_store: "inv c \<Longrightarrow> lookup q (store i q h c) = Some h"
    and lookup_other: "inv c \<Longrightarrow> q' \<noteq> q \<Longrightarrow> lookup q' (store i q h c) \<in> {None, lookup q' c}"
begin

lemma stores_bounded:
  "inv c \<Longrightarrow> inv (fold (\<lambda>(i, q, h). store i q h) puts c) \<and>
    size_of (fold (\<lambda>(i, q, h). store i q h) puts c) \<le> limit c"
proof (induction puts arbitrary: c)
  case (Cons p puts)
  obtain i q h where p: "p = (i, q, h)" by (metis surj_pair)
  from Cons.IH [OF store_inv [OF Cons.prems, of i q h]] p store_limit show ?case by simp
qed (simp add: size_le)

lemma lookup_stores_sound:
  "inv c \<Longrightarrow> lookup q (fold (\<lambda>(i, q, h). store i q h) puts c) = Some h \<Longrightarrow>
    lookup q c = Some h \<or> (\<exists>i. (i, q, h) \<in> set puts)"
proof (induction puts arbitrary: c)
  case (Cons p puts)
  obtain i q' h' where p: "p = (i, q', h')" by (metis surj_pair)
  have "lookup q (store i q' h' c) = Some h \<or> (\<exists>i. (i, q, h) \<in> set puts)"
    using Cons.IH [OF store_inv [OF Cons.prems(1), of i q' h']] Cons.prems(2) p by simp
  moreover have "lookup q (store i q' h' c) = Some h \<Longrightarrow> lookup q c = Some h \<or> q = q' \<and> h = h'"
    using lookup_store [OF Cons.prems(1), of q' i h'] lookup_other [OF Cons.prems(1), of q q' i h'] by force
  ultimately show ?case using p by auto
qed simp

end

definition psc_inv :: "PreparedStatementCache \<Rightarrow> bool" where
  "psc_inv psc \<longleftrightarrow>
     distinct (map fst (psc_cache psc)) \<and> 0 < maxSize psc \<and> int (length (psc_cache psc)) \<le> maxSize psc"

lemma NewPreparedStatementCache_inv: "psc_inv (NewPreparedStatementCache config)"
  by (simp add: psc_inv_def NewPreparedStatementCache_def split: option.split)

lemma length_drop_entry: "xs \<noteq> [] \<Longrightarrow> length (drop_entry i xs) = length xs - 1"
  using mod_less_divisor [of "length xs" i] by (simp add: drop_entry_def Let_def del: mod_less_divisor)

lemma drop_entry_distinct: "distinct (map fst xs) \<Longrightarrow> distinct (map fst (drop_entry i xs))"
  by (cases "xs = []") (simp_all add: drop_entry_def Let_def take_map [symmetric] drop_map [symmetric]
      set_take_disj_set_drop_if_distinct)

lemma drop_entry_map_of:
  assumes "distinct (map fst xs)"
  shows "map_of (drop_entry i xs) q \<in> {None, map_of xs q}"
proof (cases "map_of (drop_entry i xs) q")
  case (Some h)
  then have "(q, h) \<in> set (drop_entry i xs)" by (rule map_of_SomeD)
  then have "(q, h) \<in> set xs" by (auto simp: drop_entry_def Let_def dest: in_set_takeD in_set_dropD)
  with Some assms show ?thesis by simp
qed simp

lemma length_update_le: "length (AList.update k v xs) \<le> Suc (length xs)"
  by (induction xs) auto

lemma length_update_present: "k \<in> fst ` set xs \<Longrightarrow> length (AList.update k v xs) = length xs"
  by (induction xs) auto

interpretation stmts: bounded_store psc_Get psc_Put psc_inv "\<lambda>c. int (length (psc_cache c))" maxSize
proof unfold_locales
  fix c i q h q'
  show "maxSize (psc_Put i q h c) = maxSize c" by (simp add: psc_Put_def Let_def)
  assume inv: "psc_inv c"
  let ?d = "if int (length (psc_cache c)) \<ge> maxSize c then drop_entry i (psc_cache c) else psc_cache c"
  have "int (length ?d) < maxSize c"
    using inv length_drop_entry [of "psc_cache c" i]
    by (cases "psc_cache c = []") (auto simp: psc_inv_def of_nat_diff)
  moreover have d: "distinct (map fst ?d)" using inv by (simp add: psc_inv_def drop_entry_distinct)
  ultimately show "psc_inv (psc_Put i q h c)"
    using inv length_update_le [of q h ?d]
    by (simp add: psc_inv_def psc_Put_def Let_def AList.distinct_update split: if_splits)
  show "psc_Get q (psc_Put i q h c) = Some h" by (simp add: psc_Get_def psc_Put_def Let_def update_conv)
  show "int (length (psc_cache c)) \<le> maxSize c" using inv by (simp add: psc_inv_def)
  assume "q' \<noteq> q"
  then show "psc_Get q' (psc_Put i q h c) \<in> {None, psc_Get q' c}"
    using drop_entry_map_of [of "psc_cache c" i q'] inv
    by (simp add: psc_Get_def psc_Put_def Let_def update_conv psc_inv_def)
qed

section \<open>Properties\<close>

text \<open>
  The statement cache over any sequence of \<open>Put\<close> calls: it never holds more
  statements than its limit, a statement just put is found under its query, and every statement
  found was put under that query.
\<close>

theorem stmt_cache_bounded:
  "let psc = fold (\<lambda>(i, q, h). psc_Put i q h) puts (NewPreparedStatementCache config)
   in int (length (psc_cache psc)) \<le> maxSize (NewPreparedStatementCache config) \<and>
      psc_Get q (psc_Put i q h psc) = Some h \<and>
      (case psc_Get q psc of None \<Rightarrow> True | Some h' \<Rightarrow> \<exists>j. (j, q, h') \<in> set puts)"
proof -
  let ?psc = "fold (\<lambda>(i, q, h). psc_Put i q h) puts (NewPreparedStatementCache config)"
  note inv = NewPreparedStatementCache_inv [of config]
  have "psc_Get q (NewPreparedStatementCache config) = None"
    by (simp add: psc_Get_def NewPreparedStatementCache_def)
  then have "psc_Get q ?psc = Some h' \<Longrightarrow> \<exists>j. (j, q, h') \<in> set puts" for h'
    using stmts.lookup_stores_sound [OF inv, of q puts h'] by simp
  then show ?thesis
    using stmts.stores_bounded [OF inv, of puts] stmts.lookup_store [of ?psc q i h]
    by (simp add: Let_def split: option.split)
qed

text \<open>
  \<open>Prepare\<close> prepares a query once: when it has returned a statement, the next
  \<open>Prepare\<close> of the same query returns the same statement without calling the pool and
  without changing anything.
\<close>

theorem prepare_is_cached:
  assumes "psc_inv (stmtCache adb)"
    and "AdvancedDB_Prepare drv pick ctx query (cg, adb, w) = (st', Inr stmt)"
  shows "AdvancedDB_Prepare drv pick' ctx' query st' = (st', Inr stmt)"
proof (cases "psc_Get query (stmtCache adb)")
  case (Some h)
  with assms(2) show ?thesis by (auto simp: AdvancedDB_Prepare_def)
next
  case None
  with assms(2) obtain w1 where "st' = (cg, adb\<lparr>stmtCache := psc_Put pick query stmt (stmtCache adb)\<rparr>, w1)"
    by (auto simp: AdvancedDB_Prepare_def split: prod.splits sum.splits)
  with stmts.lookup_store [OF assms(1), of query pick stmt] show ?thesis
    by (simp add: AdvancedDB_Prepare_def)
qed

theorem prepare_is_cached_witness:
  "AdvancedDB_Prepare (sample_driver (Inr 0)) 5 None ''SELECT 1''
     (fst (AdvancedDB_Prepare (sample_driver (Inr 0)) 0 None ''SELECT 1''
       (NewConnectionGate (Time 1) None, NewAdvancedDB 7 None, 3))) =
   (fst (AdvancedDB_Prepare (sample_driver (Inr 0)) 0 None ''SELECT 1''
       (NewConnectionGate (Time 1) None, NewAdvancedDB 7 None, 3)), Inr 3)"
proof (rule prepare_is_cached)
  show "psc_inv (stmtCache (NewAdvancedDB 7 None))"
    by (simp add: NewAdvancedDB_def NewPreparedStatementCache_inv)
  show "AdvancedDB_Prepare (sample_driver (Inr 0)) 0 None ''SELECT 1''
      (NewConnectionGate (Time 1) None, NewAdvancedDB 7 None, 3) =
    (fst (AdvancedDB_Prepare (sample_driver (Inr 0)) 0 None ''SELECT 1''
      (NewConnectionGate (Time 1) None, NewAdvancedDB 7 None, 3)), Inr 3)"
    by (simp add: AdvancedDB_Prepare_def psc_Get_def NewAdvancedDB_def NewPreparedStatementCache_def sample_driver_def)
qed

definition record_all :: "(duration \<times> go_error option) list \<Rightarrow> DBMetrics \<Rightarrow> DBMetrics" where
  "record_all = fold (\<lambda>(d, err). RecordQuery d err)"

lemma record_all_counts:
  assumes "0 \<le> TotalQueries m" "0 \<le> SuccessfulQueries m" "0 \<le> FailedQueries m" "0 \<le> SlowQueries m"
    "TotalQueries m = SuccessfulQueries m + FailedQueries m" "SlowQueries m \<le> TotalQueries m"
    "TotalQueries m + int (length qs) < 2 ^ 63"
  shows "TotalQueries (record_all qs m) = TotalQueries m + int (length qs) \<and>
    FailedQueries (record_all qs m) = FailedQueries m + int (length (filter (\<lambda>(d, err). err \<noteq> None) qs)) \<and>
    SuccessfulQueries (record_all qs m) = SuccessfulQueries m + int (length (filter (\<lambda>(d, err). err = None) qs)) \<and>
    SlowQueries (record_all qs m) = SlowQueries m + int (length (filter (\<lambda>(d, err). d > SlowQueryThreshold m) qs))"
  using assms
proof (induction qs arbitrary: m)
  case (Cons q qs)
  obtain d err where q: "q = (d, err)" by (cases q)
  let ?m = "RecordQuery d err m"
  have lim: "TotalQueries m + 1 < 2 ^ 63" using Cons.prems(7) by simp
  have "TotalQueries ?m = TotalQueries m + 1"
    "FailedQueries ?m = FailedQueries m + (if err = None then 0 else 1)"
    "SuccessfulQueries ?m = SuccessfulQueries m + (if err = None then 1 else 0)"
    "SlowQueries ?m = SlowQueries m + (if d > SlowQueryThreshold m then 1 else 0)"
    "SlowQueryThreshold ?m = SlowQueryThreshold m"
    using Cons.prems lim by (simp_all add: RecordQuery_def Let_def in_int64_def)
  moreover have "record_all (q # qs) m = record_all qs ?m" by (simp add: record_all_def q)
  ultimately show ?case using Cons.IH [of ?m] Cons.prems by (auto simp: q)
qed (simp add: record_all_def)

text \<open>
  C13. The metrics after any sequence of fewer than \<open>2^63\<close> recorded queries: the total
  is their number and the sum of successful and failed, failed counts those with an error and
  slow those above the threshold.
\<close>

theorem metrics_count_queries:
  assumes "int (length qs) < 2 ^ 63"
  shows "let st = GetStats (record_all qs (NewDBMetrics config))
    in ms_TotalQueries st = int (length qs) \<and>
       ms_TotalQueries st = ms_SuccessfulQueries st + ms_FailedQueries st \<and>
       ms_FailedQueries st = int (length (filter (\<lambda>(d, err). err \<noteq> None) qs)) \<and>
       ms_SlowQueries st = int (length (filter (\<lambda>(d, err). d > SlowQueryThreshold (NewDBMetrics config)) qs))"
proof -
  have "length (filter (\<lambda>(d :: duration, err :: go_error option). err \<noteq> None) qs) +
      length (filter (\<lambda>(d, err). err = None) qs) = length qs"
    by (induction qs) auto
  with assms record_all_counts [of "NewDBMetrics config" qs] show ?thesis
    by (auto simp: NewDBMetrics_def GetStats_def Let_def split: option.split)
qed

theorem metrics_count_queries_witness:
  "ms_FailedQueries (GetStats (record_all [(5, None), (2000000000, Some Canceled), (7, None)] (NewDBMetrics None))) = 1"
  using metrics_count_queries [of "[(5, None), (2000000000, Some Canceled), (7, None)]" None]
  by (simp add: Let_def)

lemma gated_metrics:
  assumes "gated drv env operation ctx (cg, adb, w) = ((cg', adb', w'), Ret r)"
  shows "metrics adb' = RecordQuery (time_Sub (drv_Now drv w') (drv_Now drv w)) None (metrics adb)"
  using assms
  by (auto simp: gated_def record_elapsed_def Let_def split: prod.splits outcome.splits)

text \<open>
  \<open>AdvancedDB.Exec\<close> and \<open>AdvancedDB.Query\<close> count every call that returns as
  successful, whatever it returns: also a call that the gate refused or the database
  failed. Inside a transaction \<open>Exec\<close> does count its failures.
\<close>

theorem exec_counts_failures_successful:
  assumes "AdvancedDB_Exec drv env ctx query args (cg, adb, w) = ((cg', adb', w'), Ret (Inl err))"
    and "drv_TxExec drv tx ctx query args w = (w'', Inl err')"
  shows "SuccessfulQueries (metrics adb') = wrap64 (SuccessfulQueries (metrics adb) + 1) \<and>
    FailedQueries (metrics adb') = FailedQueries (metrics adb) \<and>
    FailedQueries (metrics (fst (snd (fst (AdvancedTx_Exec drv tx ctx query args (cg, adb, w)))))) =
      wrap64 (FailedQueries (metrics adb) + 1)"
  using gated_metrics [OF assms(1) [unfolded AdvancedDB_Exec_def]] assms(2)
  by (simp add: RecordQuery_def AdvancedTx_Exec_def Let_def)

theorem exec_counts_failures_successful_witness:
  "FailedQueries (metrics (fst (snd (fst (AdvancedDB_Exec (sample_driver (Inl (ErrExt 0 ''syntax error'')))
     (sample_clock, [], SelSlot) None ''SELEC 1'' []
     (NewConnectionGate (Time 1) (Some sample_config), NewAdvancedDB 7 None, 5)))))) = 0"
proof -
  let ?drv = "sample_driver (Inl (ErrExt 0 ''syntax error''))"
  let ?st = "(NewConnectionGate (Time 1) (Some sample_config), NewAdvancedDB 7 None, 5)"
  let ?x = "AdvancedDB_Exec ?drv (sample_clock, [], SelSlot) None ''SELEC 1'' [] ?st"
  obtain cg' adb' w' where x: "?x = ((cg', adb', w'), Ret (Inl (failed_after ''exec '' 3 (Some (ErrExt 0 ''syntax error'')))))"
    by (simp add: AdvancedDB_Exec_def gated_def Let_def ExecuteWithGate_def sample_allow retryExec_def
        retry_loop.simps NewAdvancedDB_def NewRetryPolicy_None ShouldRetry_def NewRetryPolicy_fields)
      (simp add: sample_driver_def NewRetryPolicy_None)
  have "drv_TxExec ?drv 0 None ''SELEC 1'' [] 5 = (6, Inl (ErrExt 0 ''syntax error''))"
    by (simp add: sample_driver_def)
  from exec_counts_failures_successful [OF x this] show ?thesis
    by (simp add: x) (simp add: NewAdvancedDB_def NewDBMetrics_def)
qed

text \<open>
  The success rate of a wrapper that has run nothing is not a number, and it is exactly
  100 when all of at most \<open>2^53\<close> recorded queries were successful; the average
  time is then the total divided by the number.
\<close>

theorem success_rate_values:
  "SuccessRate (GetStats (NewDBMetrics config)) = NaN \<and>
   (0 < n \<and> n < 2 ^ 53 \<and> SuccessfulQueries m = n \<and> TotalQueries m = n \<longrightarrow>
      SuccessRate (GetStats m) = Finite 100 \<and> AverageQueryTime (GetStats m) = go_div (TotalQueryTime m) n)"
proof -
  have "f64_of_int 0 = Finite 0" by (simp add: f64_of_int_exact)
  then have "SuccessRate (GetStats (NewDBMetrics config)) = NaN"
    by (simp add: GetStats_def NewDBMetrics_def f64_inf_of_def)
  moreover have "0 < n \<and> n < 2 ^ 53 \<Longrightarrow> f64_mul (f64_div (f64_of_int n) (f64_of_int n)) (Finite 100) = Finite 100"
  proof -
    assume n: "0 < n \<and> n < 2 ^ 53"
    have "f64_of_rat 1 = Finite 1" "f64_of_rat 100 = Finite 100"
      using f64_of_int_exact [of 1] f64_of_int_exact [of 100] by (simp_all add: f64_of_int_def)
    then show ?thesis using n by (simp add: f64_of_int_exact)
  qed
  ultimately show ?thesis by (simp add: GetStats_def)
qed

theorem success_rate_values_witness:
  "SuccessRate (GetStats (RecordQuery 5 None (NewDBMetrics None))) = Finite 100"
  using success_rate_values [of None 1 "RecordQuery 5 None (NewDBMetrics None)"]
  by (simp add: RecordQuery_def NewDBMetrics_def in_int64_def Let_def)

section \<open>Transactions and slots\<close>

lemma Begin_inv:
  assumes "gate_inv cg h" "AdvancedDB_Begin drv (clk, [], sel) ctx (cg, adb, w) = ((cg', adb', w'), r)"
  shows "gate_inv cg' (if succeeded r then Suc h else h) \<and> adb' = adb"
  using assms(2) 
  by (auto simp: AdvancedDB_Begin_def Let_def dest: ExecuteWithGate_inv [OF assms(1)] split: prod.splits outcome.splits)

lemma gate_inv_count: "gate_inv cg h \<Longrightarrow> CurrentConnections (connectionLimiter cg) = int h"
  by (simp add: gate_inv_def limiter_inv_def CurrentConnections_def)

lemma RecordFailure_count:
  "CurrentConnections (connectionLimiter (ConnectionGate_RecordFailure t cg)) =
     wrap64 (CurrentConnections (connectionLimiter cg) - 1)"
  by (simp add: ConnectionGate_RecordFailure_def CurrentConnections_def Release_def Let_def split: option.split)

lemma RecordSuccess_count [simp]:
  "connectionLimiter (ConnectionGate_RecordSuccess cg) = connectionLimiter cg"
  by (simp add: ConnectionGate_RecordSuccess_def)

lemma finish_counts:
  "CurrentConnections (connectionLimiter (fst (fst (AdvancedTx_Commit drv tx (cg, adb, w))))) =
     (if snd (AdvancedTx_Commit drv tx (cg, adb, w)) = None then CurrentConnections (connectionLimiter cg)
      else wrap64 (CurrentConnections (connectionLimiter cg) - 1))"
  "CurrentConnections (connectionLimiter (fst (fst (AdvancedTx_Rollback drv tx (cg, adb, w))))) =
     (if snd (AdvancedTx_Rollback drv tx (cg, adb, w)) = None then CurrentConnections (connectionLimiter cg)
      else wrap64 (CurrentConnections (connectionLimiter cg) - 1))"
  by (simp_all add: AdvancedTx_Commit_def AdvancedTx_Rollback_def RecordFailure_count
      split: prod.split option.split)

lemma gate_inv_small: "gate_inv cg h \<Longrightarrow> int h < 2 ^ 63"
  by (auto simp: gate_inv_def limiter_inv_def)

text \<open>
  The slot of a transaction: \<open>Begin\<close> takes one, and ending the transaction gives it
  back only if the end fails. A transaction that commits, or rolls back, without error keeps
  its slot for good; and one whose \<open>Commit\<close> and then \<open>Rollback\<close> both fail gives back two,
  so that the limiter counts one connection less than there are.
\<close>

theorem transaction_slots:
  assumes "gate_inv cg h"
    and "AdvancedDB_Begin drv (clk, [], sel) ctx (cg, adb, w) = (st1, Ret (Inr tx))"
    and "AdvancedTx_Commit drv tx st1 = (st2, cerr)"
    and "AdvancedTx_Rollback drv tx st1 = (st3, rerr)"
    and "AdvancedTx_Rollback drv tx st2 = (st4, rerr2)"
  shows "CurrentConnections (connectionLimiter (fst st1)) = int h + 1 \<and>
    CurrentConnections (connectionLimiter (fst st2)) = (if cerr = None then int h + 1 else int h) \<and>
    CurrentConnections (connectionLimiter (fst st3)) = (if rerr = None then int h + 1 else int h) \<and>
    (cerr \<noteq> None \<and> rerr2 \<noteq> None \<longrightarrow> CurrentConnections (connectionLimiter (fst st4)) = int h - 1)"
proof -
  obtain cg1 adb1 w1 where st1: "st1 = (cg1, adb1, w1)" by (metis surj_pair)
  obtain cg2 adb2 w2 where st2: "st2 = (cg2, adb2, w2)" by (metis surj_pair)
  have inv: "gate_inv cg1 (Suc h)" using Begin_inv [OF assms(1,2) [unfolded st1]] by simp
  have small: "int (Suc h) < 2 ^ 63" by (rule gate_inv_small [OF inv])
  have "CurrentConnections (connectionLimiter cg2) = (if cerr = None then int h + 1 else int h)"
    using finish_counts(1) [of drv tx cg1 adb1 w1] assms(3) st1 st2 small gate_inv_count [OF inv]
    by (simp add: in_int64_def)
  moreover have "CurrentConnections (connectionLimiter (fst st3)) = (if rerr = None then int h + 1 else int h)"
    using finish_counts(2) [of drv tx cg1 adb1 w1] assms(4) st1 small gate_inv_count [OF inv]
    by (simp add: in_int64_def)
  ultimately show ?thesis
    using finish_counts(2) [of drv tx cg2 adb2 w2] assms(5) st1 st2 small gate_inv_count [OF inv]
    by (simp add: in_int64_def)
qed

section \<open>Transactions and their context\<close>

text \<open>
  What \<open>database/sql\<close> documents of \<open>BeginTx\<close>: the context is used until the transaction ends;
  once it is cancelled the transaction is rolled back and \<open>Commit\<close> returns an error.
  \<open>dead tx w\<close> says that the context of the transaction \<open>tx\<close> is cancelled in \<open>w\<close>.
\<close>

definition tx_follows_context :: "'w sql_driver \<Rightarrow> (handle \<Rightarrow> 'w \<Rightarrow> bool) \<Rightarrow> bool" where
  "tx_follows_context drv dead \<longleftrightarrow>
     (\<forall>db ctx w w1 tx. drv_Begin drv db ctx w = (w1, Inr tx) \<longrightarrow> dead tx (drv_Cancel drv ctx w1)) \<and>
     (\<forall>tx ctx q args w. dead tx w \<longrightarrow> dead tx (fst (drv_TxExec drv tx ctx q args w))) \<and>
     (\<forall>tx w. dead tx w \<longrightarrow> snd (drv_Commit drv tx w) \<noteq> None)"

text \<open>Statements executed in a transaction one after the other.\<close>

definition tx_statements ::
    "'w sql_driver \<Rightarrow> handle \<Rightarrow> (go_context \<times> string \<times> go_value list) list \<Rightarrow> 'w db_state \<Rightarrow> 'w db_state" where
  "tx_statements drv tx = fold (\<lambda>(ctx, q, args) st. fst (AdvancedTx_Exec drv tx ctx q args st))"

lemma tx_statements_dead:
  assumes "tx_follows_context drv dead"
  shows "dead tx (snd (snd st)) \<Longrightarrow> dead tx (snd (snd (tx_statements drv tx stmts st)))"
proof (induction stmts arbitrary: st)
  case (Cons s stmts)
  obtain ctx q args where s: "s = (ctx, q, args)" by (metis surj_pair)
  obtain cg adb w where st: "st = (cg, adb, w)" by (metis surj_pair)
  have "dead tx (fst (drv_TxExec drv tx ctx q args w))"
    using assms Cons.prems st by (simp add: tx_follows_context_def)
  then have "dead tx (snd (snd (fst (AdvancedTx_Exec drv tx ctx q args st))))"
    by (simp add: st AdvancedTx_Exec_def split_beta Let_def)
  from Cons.IH [OF this] show ?case by (simp add: tx_statements_def s)
qed (simp add: tx_statements_def)

lemma Begin_dead:
  assumes "tx_follows_context drv dead" "AdvancedDB_Begin drv env ctx st = (st', Ret (Inr tx))"
  shows "dead tx (snd (snd st'))"
proof -
  obtain cg adb w where st: "st = (cg, adb, w)" by (metis surj_pair)
  obtain clk others sel where env: "env = (clk, others, sel)" by (metis surj_pair)
  let ?ctx = "context_WithTimeout (drv_Now drv w) (queryTimeout adb) ctx"
  obtain cg1 w1 where ex: "ExecuteWithGate clk others sel (drv_Begin drv (adb_db adb) ?ctx) (cg, w) =
      ((cg1, w1), Ret (Inr tx))" and st': "snd (snd st') = drv_Cancel drv ?ctx w1"
    using assms(2) by (auto simp: st env AdvancedDB_Begin_def Let_def split: prod.splits outcome.splits)
  then have "drv_Begin drv (adb_db adb) ?ctx w = (w1, Inr tx)"
    by (auto simp: ExecuteWithGate_def split: prod.splits outcome.splits option.splits sum.splits)
  with assms(1) st' show ?thesis unfolding tx_follows_context_def by metis
qed

text \<open>
  No transaction begun through \<open>AdvancedDB.Begin\<close> ever commits: \<open>Begin\<close> derives a context
  with a timeout for the pool and cancels it when it returns, so with the documented behaviour of
  \<open>BeginTx\<close> the transaction is rolled back at once, and \<open>Commit\<close> fails whatever was executed.
\<close>

theorem begun_transactions_never_commit:
  assumes "tx_follows_context drv dead"
    and "AdvancedDB_Begin drv env ctx st = (st', Ret (Inr tx))"
  shows "\<exists>err. snd (AdvancedTx_Commit drv tx (tx_statements drv tx stmts st')) = Some err"
proof -
  obtain cg adb w where st: "tx_statements drv tx stmts st' = (cg, adb, w)" by (metis surj_pair)
  have "dead tx w" using tx_statements_dead [OF assms(1) Begin_dead [OF assms], of stmts] st by simp
  then have "snd (drv_Commit drv tx w) \<noteq> None" using assms(1) by (simp add: tx_follows_context_def)
  then show ?thesis by (auto simp: st AdvancedTx_Commit_def split: prod.split option.split)
qed

text \<open>A driver whose transactions begin, and whose ends fail with the error \<open>e\<close>.\<close>

definition failing_tx_driver :: "go_error \<Rightarrow> nat sql_driver" where
  "failing_tx_driver e =
     (sample_driver (Inr 0))\<lparr>drv_Commit := \<lambda>_ w. (w + 1, Some e), drv_Rollback := \<lambda>_ w. (w + 1, Some e)\<rparr>"

theorem transaction_slots_witness:
  "let drv = failing_tx_driver (ErrExt 1 ''sql: transaction has already been committed or rolled back'');
       st1 = fst (AdvancedDB_Begin drv (sample_clock, [], SelSlot) None
                    (NewConnectionGate (Time 1) (Some sample_config), NewAdvancedDB 7 None, 0));
       st2 = fst (AdvancedTx_Commit drv 0 st1); st4 = fst (AdvancedTx_Rollback drv 0 st2)
   in CurrentConnections (connectionLimiter (fst st4)) = -1"
proof -
  let ?drv = "failing_tx_driver (ErrExt 1 ''sql: transaction has already been committed or rolled back'')"
  let ?cg = "NewConnectionGate (Time 1) (Some sample_config)"
  let ?b = "AdvancedDB_Begin ?drv (sample_clock, [], SelSlot) None (?cg, NewAdvancedDB 7 None, 0)"
  let ?c = "AdvancedTx_Commit ?drv 0 (fst ?b)"
  let ?r = "AdvancedTx_Rollback ?drv 0 (fst ?c)"
  have "?b = (fst ?b, Ret (Inr 0))"
    by (simp add: AdvancedDB_Begin_def ExecuteWithGate_def sample_allow failing_tx_driver_def sample_driver_def)
  from transaction_slots [OF NewConnectionGate_inv [OF sample_config_ok] this surjective_pairing
      surjective_pairing surjective_pairing]
  have "snd ?c \<noteq> None \<and> snd ?r \<noteq> None \<longrightarrow> CurrentConnections (connectionLimiter (fst (fst ?r))) = -1" by simp
  moreover have "snd (AdvancedTx_Commit ?drv 0 st) \<noteq> None" "snd (AdvancedTx_Rollback ?drv 0 st) \<noteq> None" for st
    by (simp_all add: AdvancedTx_Commit_def AdvancedTx_Rollback_def failing_tx_driver_def split: prod.split)
  ultimately show ?thesis by (simp add: Let_def)
qed

text \<open>A driver whose world notes that a context was cancelled, and whose transactions follow it.\<close>

definition cancelling_driver :: "nat sql_driver" where
  "cancelling_driver =
     (sample_driver (Inr 0))\<lparr>drv_Cancel := \<lambda>_ w. 2 * w + 1, drv_Begin := \<lambda>_ _ w. (2 * w, Inr 4),
        drv_TxExec := \<lambda>_ _ _ _ w. (w, Inr 0), drv_Commit := \<lambda>_ w. (w, if odd w then Some Canceled else None)\<rparr>"

theorem begun_transactions_never_commit_witness:
  "\<exists>err. snd (AdvancedTx_Commit cancelling_driver 4 (tx_statements cancelling_driver 4 [(None, ''INSERT'', [])]
     (fst (AdvancedDB_Begin cancelling_driver (sample_clock, [], SelSlot) None
       (NewConnectionGate (Time 1) (Some sample_config), NewAdvancedDB 7 None, 0))))) = Some err"
proof (rule begun_transactions_never_commit [where dead = "\<lambda>tx w. odd w"])
  show "tx_follows_context cancelling_driver (\<lambda>tx w. odd w)"
    by (simp add: tx_follows_context_def cancelling_driver_def)
  show "AdvancedDB_Begin cancelling_driver (sample_clock, [], SelSlot) None
      (NewConnectionGate (Time 1) (Some sample_config), NewAdvancedDB 7 None, 0) =
    (fst (AdvancedDB_Begin cancelling_driver (sample_clock, [], SelSlot) None
      (NewConnectionGate (Time 1) (Some sample_config), NewAdvancedDB 7 None, 0)), Ret (Inr 4))"
    by (simp add: AdvancedDB_Begin_def ExecuteWithGate_def sample_allow cancelling_driver_def)
qed

end
