(* ===== verification/Open.thy ===== *)
theory Open
  imports Retry "HOL-Library.AList"
begin

text \<open>
  The connection manager of \<open>open.go\<close>: opening and configuring the pool, warm-up,
  validated and tracked connections, the leak detector, closing. The map of tracked connections is
  an association list; a channel that may be closed is a flag; goroutines the manager starts
  are counted, and their bodies are operations of their own.
\<close>

section \<open>Configuration\<close>

type_synonym DatabaseType = string

definition DatabaseTypeOracle :: DatabaseType where "DatabaseTypeOracle = ''oracle''"
definition DatabaseTypePostgreSQL :: DatabaseType where "DatabaseTypePostgreSQL = ''postgres''"
definition DatabaseTypeMySQL :: DatabaseType where "DatabaseTypeMySQL = ''mysql''"
definition DatabaseTypeSQLite :: DatabaseType where "DatabaseTypeSQLite = ''sqlite''"

lemmas db_types = DatabaseTypeOracle_def DatabaseTypePostgreSQL_def DatabaseTypeMySQL_def DatabaseTypeSQLite_def

record AdvancedConfig =
  DatabaseType :: DatabaseType
  DSN :: string
  MaxOpenConns :: int
  MaxIdleConns :: int
  ConnMaxLifetime :: duration
  ConnMaxIdleTime :: duration
  LeakDetectionThreshold :: duration
  ValidationQuery :: string
  ValidationTimeout :: duration
  WarmupConnections :: int
  WarmupTimeout :: duration
  ConnectionTimeout :: duration
  EnableMetrics :: bool
  EnableLeakDetection :: bool

section \<open>State\<close>

record TrackedConnection =
  tc_ID :: uint64
  AcquiredAt :: time
  LastUsedAt :: time
  QueryCount :: int64
  StackTrace :: string

text \<open>\<open>leakCallback\<close> says whether a callback is set; the program never sets one.\<close>

record LeakDetector =
  maxConnectionAge :: duration
  checkInterval :: duration
  stop_closed :: bool
  leakCallback :: bool
  watchers :: nat

record ConnectionValidator =
  validationQuery :: string
  cv_timeout :: duration
  cv_maxRetries :: int
  cv_retryBackoff :: duration

record ConnectionManager =
  cm_db :: "handle option"
  cm_config :: AdvancedConfig
  activeConnections :: "(uint64 \<times> TrackedConnection) list"
  connectionID :: uint64
  leakDetector :: "LeakDetector option"
  validator :: ConnectionValidator
  warmupDone :: bool
  warmups_started :: nat

definition NewLeakDetector :: "AdvancedConfig \<Rightarrow> LeakDetector option" where
  "NewLeakDetector config =
     (if \<not> EnableLeakDetection config then None
      else Some \<lparr>maxConnectionAge = LeakDetectionThreshold config, checkInterval = 30 * Second,
                 stop_closed = False, leakCallback = False, watchers = 0\<rparr>)"

definition NewConnectionValidator :: "AdvancedConfig \<Rightarrow> ConnectionValidator" where
  "NewConnectionValidator config =
     \<lparr>validationQuery = ValidationQuery config, cv_timeout = ValidationTimeout config,
      cv_maxRetries = 3, cv_retryBackoff = 100 * Millisecond\<rparr>"

text \<open>The defaults that \<open>NewConnectionManager\<close> writes into its configuration.\<close>

definition config_defaults :: "AdvancedConfig \<Rightarrow> AdvancedConfig" where
  "config_defaults c0 =
     (let c1 = (if MaxOpenConns c0 = 0 then c0\<lparr>MaxOpenConns := 25\<rparr> else c0);
          c2 = (if MaxIdleConns c1 = 0 then c1\<lparr>MaxIdleConns := 5\<rparr> else c1);
          c3 = (if ConnMaxLifetime c2 = 0 then c2\<lparr>ConnMaxLifetime := 30 * Minute\<rparr> else c2);
          c4 = (if ConnMaxIdleTime c3 = 0 then c3\<lparr>ConnMaxIdleTime := 10 * Minute\<rparr> else c3);
          c5 = (if LeakDetectionThreshold c4 = 0 then c4\<lparr>LeakDetectionThreshold := 10 * Minute\<rparr> else c4);
          c6 = (if ValidationQuery c5 = [] then
                  c5\<lparr>ValidationQuery :=
                       (if DatabaseType c5 = DatabaseTypePostgreSQL then ''SELECT 1''
                        else if DatabaseType c5 = DatabaseTypeMySQL then ''SELECT 1''
                        else ''SELECT 1 FROM DUAL'')\<rparr>
                else c5);
          c7 = (if ValidationTimeout c6 = 0 then c6\<lparr>ValidationTimeout := 5 * Second\<rparr> else c6);
          c8 = (if ConnectionTimeout c7 = 0 then c7\<lparr>ConnectionTimeout := 30 * Second\<rparr> else c7)
      in if DatabaseType c8 = [] then c8\<lparr>DatabaseType := DatabaseTypeSQLite\<rparr> else c8)"

text \<open>The leak detector and the validator are built before the defaults are written.\<close>

definition NewConnectionManager :: "AdvancedConfig \<Rightarrow> ConnectionManager" where
  "NewConnectionManager config =
     \<lparr>cm_db = None, cm_config = config_defaults config, activeConnections = [], connectionID = 0,
      leakDetector = NewLeakDetector config, validator = NewConnectionValidator config,
      warmupDone = False, warmups_started = 0\<rparr>"

section \<open>Opening\<close>

definition LeakDetector_Start :: "LeakDetector option \<Rightarrow> LeakDetector option" where
  "LeakDetector_Start ld = map_option (\<lambda>l. l\<lparr>watchers := Suc (watchers l)\<rparr>) ld"

definition driver_name :: "DatabaseType \<Rightarrow> string \<times> DatabaseType" where
  "driver_name t =
     (if t = DatabaseTypePostgreSQL then (''postgres'', t)
      else if t = DatabaseTypeMySQL then (''mysql'', t)
      else if t = DatabaseTypeOracle then (''godror'', t)
      else if t = DatabaseTypeSQLite then (''sqlite3'', t)
      else (''sqlite3'', DatabaseTypeSQLite))"

definition ConnectionManager_Open ::
    "'w sql_driver \<Rightarrow> ConnectionManager \<times> 'w \<Rightarrow> (ConnectionManager \<times> 'w) \<times> go_error option" where
  "ConnectionManager_Open drv = (\<lambda>(cm, w).
     (if cm_db cm \<noteq> None then ((cm, w), None)
      else
        (let (name, ty) = driver_name (DatabaseType (cm_config cm));
             cfg = (cm_config cm)\<lparr>DatabaseType := ty\<rparr>; cm1 = cm\<lparr>cm_config := cfg\<rparr>
         in case drv_Open drv name (DSN cfg) w of
              (w1, Inl err) \<Rightarrow>
                ((cm1, w1), Some (ErrorfW (''failed to open '' @ ty @ '' database: '') err []))
            | (w1, Inr db) \<Rightarrow>
                (let w2 = drv_Configure drv db (MaxOpenConns cfg) (MaxIdleConns cfg)
                            (ConnMaxLifetime cfg) (ConnMaxIdleTime cfg) w1;
                     ctx = context_WithTimeout (drv_Now drv w2) (ConnectionTimeout cfg) None
                 in case drv_Ping drv db ctx w2 of
                      (w3, Some err) \<Rightarrow>
                        ((cm1, drv_Cancel drv ctx (fst (drv_Close drv db w3))),
                         Some (ErrorfW ''failed to ping database: '' err []))
                    | (w3, None) \<Rightarrow>
                        (let cm2 = cm1\<lparr>cm_db := Some db\<rparr>;
                             cm3 = (if EnableLeakDetection cfg
                                    then cm2\<lparr>leakDetector := LeakDetector_Start (leakDetector cm2)\<rparr> else cm2);
                             cm4 = (if WarmupConnections cfg > 0
                                    then cm3\<lparr>warmups_started := Suc (warmups_started cm3)\<rparr> else cm3)
                         in ((cm4, drv_Cancel drv ctx w3), None))))))"

text \<open>The body of the warm-up goroutine: connections are opened and closed, errors ignored.\<close>

fun warmup_loop :: "'w sql_driver \<Rightarrow> handle \<Rightarrow> go_context \<Rightarrow> nat \<Rightarrow> 'w \<Rightarrow> 'w" where
  "warmup_loop drv db ctx 0 w = w"
| "warmup_loop drv db ctx (Suc n) w =
     (case drv_Conn drv db ctx w of
        (w1, Inl err) \<Rightarrow> warmup_loop drv db ctx n w1
      | (w1, Inr conn) \<Rightarrow> warmup_loop drv db ctx n (drv_ConnClose drv conn w1))"

definition warmupConnections ::
    "'w sql_driver \<Rightarrow> ConnectionManager \<times> 'w \<Rightarrow> ConnectionManager \<times> 'w" where
  "warmupConnections drv = (\<lambda>(cm, w).
     (case cm_db cm of
        None \<Rightarrow> (cm, w)
      | Some db \<Rightarrow>
          if warmupDone cm then (cm, w)
          else
            (let cfg = cm_config cm;
                 ctx1 = context_WithTimeout (drv_Now drv w) (WarmupTimeout cfg) None;
                 ctx2 = context_WithTimeout (drv_Now drv w) (30 * Second) None;
                 ctx = (if WarmupTimeout cfg = 0 then ctx2 else ctx1);
                 w1 = warmup_loop drv db ctx (nat (min (WarmupConnections cfg) (MaxIdleConns cfg))) w;
                 w2 = (if WarmupTimeout cfg = 0 then drv_Cancel drv ctx2 w1 else w1)
             in (cm\<lparr>warmupDone := True\<rparr>, drv_Cancel drv ctx1 w2))))"

section \<open>Validated and tracked connections\<close>

text \<open>
  One attempt of \<open>Validate\<close>: the query, and after a failure the pause, which grows with
  the attempt.
\<close>

definition validate_attempt ::
    "'w sql_driver \<Rightarrow> ConnectionValidator \<Rightarrow> go_context \<Rightarrow> handle \<Rightarrow> int \<Rightarrow> 'w \<Rightarrow> 'w \<times> (go_error + unit)" where
  "validate_attempt drv cv ctx conn i w =
     (case drv_ConnScan drv conn ctx (validationQuery cv) w of
        (w1, None) \<Rightarrow> (w1, Inr ())
      | (w1, Some err) \<Rightarrow> (drv_Sleep drv (wrap64 (cv_retryBackoff cv * (i + 1))) w1, Inl err))"

definition validation_failed :: "int \<Rightarrow> go_error option \<Rightarrow> go_error" where
  "validation_failed n lastErr =
     (let pre = ''validation failed after '' @ show_int n @ '' retries: ''
      in case lastErr of None \<Rightarrow> Errorf (pre @ ''%!w(<nil>)'') | Some e \<Rightarrow> ErrorfW pre e [])"

function validate_loop ::
    "(int \<Rightarrow> 'w \<Rightarrow> 'w \<times> (go_error + unit)) \<Rightarrow> int \<Rightarrow> int \<Rightarrow> go_error option \<Rightarrow> 'w \<Rightarrow> 'w \<times> (go_error + unit)" where
  "validate_loop attempt n i lastErr w =
     (if i < n then
        (case attempt i w of
           (w1, Inr u) \<Rightarrow> (w1, Inr u)
         | (w1, Inl err) \<Rightarrow> validate_loop attempt n (i + 1) (Some err) w1)
      else (w, Inl (validation_failed n lastErr)))"
  by pat_completeness auto
termination by (relation "measure (\<lambda>(attempt, n, i, lastErr, w). nat (n - i))") auto

declare validate_loop.simps [simp del]

definition Validate ::
    "'w sql_driver \<Rightarrow> ConnectionValidator \<Rightarrow> go_context \<Rightarrow> handle \<Rightarrow> 'w \<Rightarrow> 'w \<times> (go_error + unit)" where
  "Validate drv cv ctx conn w =
     (let ctx1 = context_WithTimeout (drv_Now drv w) (cv_timeout cv) ctx;
          (w1, r) = validate_loop (validate_attempt drv cv ctx1 conn) (cv_maxRetries cv) 0 None w
      in (drv_Cancel drv ctx1 w1, r))"

definition trackConnection :: "time \<Rightarrow> ConnectionManager \<Rightarrow> ConnectionManager" where
  "trackConnection now cm =
     (let i = connectionID cm + 1
      in cm\<lparr>connectionID := i,
            activeConnections := AList.update i
              \<lparr>tc_ID = i, AcquiredAt = now, LastUsedAt = now, QueryCount = 0, StackTrace = []\<rparr>
              (activeConnections cm)\<rparr>)"

definition AcquireConnection ::
    "'w sql_driver \<Rightarrow> go_context \<Rightarrow> ConnectionManager \<times> 'w \<Rightarrow> (ConnectionManager \<times> 'w) \<times> (go_error + handle)" where
  "AcquireConnection drv ctx = (\<lambda>(cm, w).
     (case cm_db cm of
        None \<Rightarrow> ((cm, w), Inl (Errorf ''database not opened''))
      | Some db \<Rightarrow>
          (case drv_Conn drv db ctx w of
             (w1, Inl err) \<Rightarrow> ((cm, w1), Inl (ErrorfW ''failed to acquire connection: '' err []))
           | (w1, Inr conn) \<Rightarrow>
               (case Validate drv (validator cm) ctx conn w1 of
                  (w2, Inl err) \<Rightarrow>
                    ((cm, drv_ConnClose drv conn w2), Inl (ErrorfW ''connection validation failed: '' err []))
                | (w2, Inr _) \<Rightarrow>
                    ((if EnableLeakDetection (cm_config cm) then trackConnection (drv_Now drv w2) cm else cm, w2),
                     Inr conn)))))"

definition ReleaseConnection ::
    "'w sql_driver \<Rightarrow> handle \<Rightarrow> ConnectionManager \<times> 'w \<Rightarrow> ConnectionManager \<times> 'w" where
  "ReleaseConnection drv conn = (\<lambda>(cm, w). (cm, drv_ConnClose drv conn w))"

section \<open>Closing\<close>

definition LeakDetector_Stop :: "LeakDetector option \<Rightarrow> LeakDetector option outcome" where
  "LeakDetector_Stop ld =
     (case ld of
        None \<Rightarrow> Ret None
      | Some l \<Rightarrow> if stop_closed l then Panic ''close of closed channel''
                  else Ret (Some (l\<lparr>stop_closed := True\<rparr>)))"

definition ConnectionManager_Close ::
    "'w sql_driver \<Rightarrow> ConnectionManager \<times> 'w \<Rightarrow> (ConnectionManager \<times> 'w) \<times> go_error option outcome" where
  "ConnectionManager_Close drv = (\<lambda>(cm, w).
     (case LeakDetector_Stop (leakDetector cm) of
        Panic m \<Rightarrow> ((cm, w), Panic m)
      | Blocked \<Rightarrow> ((cm, w), Blocked)
      | Ret ld \<Rightarrow>
          (let cm1 = cm\<lparr>leakDetector := ld\<rparr>
           in case cm_db cm1 of
                None \<Rightarrow> ((cm1\<lparr>activeConnections := []\<rparr>, w), Ret None)
              | Some db \<Rightarrow>
                  (case drv_Close drv db w of
                     (w1, Some err) \<Rightarrow> ((cm1, w1), Ret (Some (ErrorfW ''failed to close database: '' err [])))
                   | (w1, None) \<Rightarrow> ((cm1\<lparr>cm_db := None, activeConnections := []\<rparr>, w1), Ret None)))))"

text \<open>The leaks one check reports to the callback.\<close>

definition checkLeaks :: "time \<Rightarrow> LeakDetector \<Rightarrow> ConnectionManager \<Rightarrow> (uint64 \<times> duration) list" where
  "checkLeaks now ld cm =
     (if leakCallback ld then
        map (\<lambda>(i, conn). (i, time_Sub now (AcquiredAt conn)))
          (filter (\<lambda>(i, conn). time_Sub now (AcquiredAt conn) > maxConnectionAge ld) (activeConnections cm))
      else [])"

section \<open>Validation is a bounded retry\<close>

definition logged_attempt ::
    "(int \<Rightarrow> 'w \<Rightarrow> 'w \<times> (go_error + unit)) \<Rightarrow> int \<Rightarrow> 'w \<times> (go_error + unit) list \<Rightarrow>
     ('w \<times> (go_error + unit) list) \<times> (go_error + unit)" where
  "logged_attempt attempt i = (\<lambda>(w, rs). case attempt i w of (w', r) \<Rightarrow> ((w', rs @ [r]), r))"

interpretation validation: retry_contract
  "\<lambda>i b. validate_loop (logged_attempt attempt) n i" "n - 1" "\<lambda>i b w. (w, None)" "logged_attempt attempt"
  "\<lambda>e. True" "validation_failed n" "\<lambda>i b. b" "\<lambda>e. False" snd
  for n :: int and attempt :: "int \<Rightarrow> 'w \<Rightarrow> 'w \<times> (go_error + unit)"
proof (unfold_locales, goal_cases)
  case (1 a b le w)
  then show ?case by (subst validate_loop.simps) (simp split: prod.split sum.split)
next
  case (2 a b le w)
  then show ?case by (subst validate_loop.simps) simp
qed (auto simp: logged_attempt_def split: prod.splits)

lemma logged_validate_erases:
  "map_prod fst id (validate_loop (logged_attempt attempt) n i le (w, rs)) = validate_loop attempt n i le w"
proof (induction "nat (n - i)" arbitrary: i le w rs rule: less_induct)
  case less
  obtain w1 r where a: "attempt i w = (w1, r)" by (metis surj_pair)
  then have l: "logged_attempt attempt i (w, rs) = ((w1, rs @ [r]), r)" by (simp add: logged_attempt_def)
  show ?case
    by (subst (1 2) validate_loop.simps) (auto simp: a l less split: sum.split)
qed

section \<open>Tracked connections\<close>

text \<open>Every tracked connection has an identifier handed out before, and no two share one.\<close>

definition tracking_inv :: "ConnectionManager \<Rightarrow> bool" where
  "tracking_inv cm \<longleftrightarrow>
     distinct (map fst (activeConnections cm)) \<and> (\<forall>(i, c) \<in> set (activeConnections cm). i \<le> connectionID cm)"

lemma update_fresh: "k \<notin> fst ` set xs \<Longrightarrow> AList.update k v xs = xs @ [(k, v)]"
  by (induction xs) auto

lemma trackConnection_appends:
  assumes "tracking_inv cm" "connectionID cm \<noteq> - 1"
  shows "tracking_inv (trackConnection now cm) \<and>
    activeConnections (trackConnection now cm) = activeConnections cm @
      [(connectionID cm + 1, \<lparr>tc_ID = connectionID cm + 1, AcquiredAt = now, LastUsedAt = now,
                              QueryCount = 0, StackTrace = []\<rparr>)]"
proof -
  have less: "connectionID cm < connectionID cm + 1" using assms(2) by (rule word_less_succ)
  then have fresh: "connectionID cm + 1 \<notin> fst ` set (activeConnections cm)"
    using assms(1) by (fastforce simp: tracking_inv_def)
  have "\<forall>(i, c) \<in> set (activeConnections cm). i \<le> connectionID cm + 1"
    using assms(1) less unfolding tracking_inv_def by fastforce
  with fresh assms(1) show ?thesis
    by (simp add: tracking_inv_def trackConnection_def Let_def update_fresh)
qed

lemma trackConnection_fields:
  "connectionID (trackConnection now cm) = connectionID cm + 1"
  "cm_config (trackConnection now cm) = cm_config cm"
  by (simp_all add: trackConnection_def Let_def)

text \<open>A client that acquires a connection and releases it.\<close>

definition use_connection ::
    "'w sql_driver \<Rightarrow> ConnectionManager \<times> 'w \<Rightarrow> go_context \<Rightarrow> (ConnectionManager \<times> 'w) \<times> bool" where
  "use_connection drv st ctx =
     (case AcquireConnection drv ctx st of
        (st1, Inl err) \<Rightarrow> (st1, False)
      | (st1, Inr conn) \<Rightarrow> (ReleaseConnection drv conn st1, True))"

lemma use_connection_tracks:
  assumes "EnableLeakDetection (cm_config cm)" "tracking_inv cm" "connectionID cm \<noteq> - 1"
    and "use_connection drv (cm, w) ctx = ((cm', w'), ok)"
  shows "tracking_inv cm' \<and> cm_config cm' = cm_config cm \<and>
    connectionID cm' = connectionID cm + (if ok then 1 else 0) \<and>
    length (activeConnections cm') = length (activeConnections cm) + (if ok then 1 else 0)"
  using assms(1,2,4) trackConnection_appends [OF assms(2,3)]
  by (auto simp: use_connection_def AcquireConnection_def ReleaseConnection_def trackConnection_fields
      split: option.splits prod.splits sum.splits)

section \<open>Properties\<close>

text \<open>
  \<open>Validate\<close> of a validator built by \<open>NewConnectionValidator\<close> makes one to three attempts; it
  succeeds exactly if its last attempt does, and otherwise returns the wrapped error of the third.
\<close>

theorem validate_bounded:
  "let cv = NewConnectionValidator config; ctx1 = context_WithTimeout (drv_Now drv w) (cv_timeout cv) ctx;
       attempt = validate_attempt drv cv ctx1 conn
   in \<exists>w' rs res. validate_loop (logged_attempt attempt) 3 0 None (w, []) = ((w', rs), res) \<and>
     Validate drv cv ctx conn w = (drv_Cancel drv ctx1 w', res) \<and>
     retry_result 3 (\<lambda>e. True) (validation_failed 3) (\<lambda>e. False) rs res"
proof -
  let ?cv = "NewConnectionValidator config"
  let ?at = "validate_attempt drv ?cv (context_WithTimeout (drv_Now drv w) (cv_timeout ?cv) ctx) conn"
  obtain w' rs res where ob: "validate_loop (logged_attempt ?at) 3 0 None (w, []) = ((w', rs), res)"
    by (metis surj_pair)
  have "validate_loop ?at 3 0 None w = (w', res)"
    using logged_validate_erases [of ?at 3 0 None w "[]"] ob by simp
  then have "Validate drv ?cv ctx conn w =
      (drv_Cancel drv (context_WithTimeout (drv_Now drv w) (cv_timeout ?cv) ctx) w', res)"
    by (simp add: Validate_def NewConnectionValidator_def)
  moreover have "retry_result 3 (\<lambda>e. True) (validation_failed 3) (\<lambda>e. False) rs res"
    using validation.loop_result [of 0 3 ?at None "(w, [])"] ob by (simp add: numeral_eq_Suc)
  ultimately show ?thesis using ob by (simp add: Let_def)
qed

text \<open>
  \<open>ReleaseConnection\<close> closes a connection but leaves it tracked: with leak detection on,
  after any sequence of connections acquired and released one after the other, as many more are
  tracked as were acquired, although none is in use.
\<close>

theorem released_connections_stay_tracked:
  assumes "EnableLeakDetection (cm_config cm)" and "tracking_inv cm"
    and "unat (connectionID cm) + length ctxs < 2 ^ 64"
  shows "length (activeConnections (fst (fst (run (use_connection drv) (cm, w) ctxs)))) =
    length (activeConnections cm) + length (filter id (snd (run (use_connection drv) (cm, w) ctxs)))"
  using assms
proof (induction ctxs arbitrary: cm w)
  case (Cons ctx ctxs)
  obtain cm' w' ok where u: "use_connection drv (cm, w) ctx = ((cm', w'), ok)" by (metis surj_pair)
  have ne: "connectionID cm \<noteq> - 1" using Cons.prems(3) by (auto simp: unsigned_minus_1_eq_mask mask_eq_exp_minus_1)
  note t = use_connection_tracks [OF Cons.prems(1,2) ne u]
  have "unat (connectionID cm') \<le> unat (connectionID cm) + 1"
    using t unat_plus_if_size [of "connectionID cm" 1] by (auto simp: wsst_TYs split: if_splits)
  then have "unat (connectionID cm') + length ctxs < 2 ^ 64" using Cons.prems(3) by simp
  with Cons.IH [of cm' w'] Cons.prems(1) t u show ?case
    by (auto simp: run_Cons simp del: run.simps(2))
qed simp

text \<open>
  A manager with leak detection can be closed once: whatever happens afterwards, opened
  again or not, the next \<open>Close\<close> panics on the channel that is already closed. It does so also
  when the first \<open>Close\<close> failed.
\<close>

theorem second_close_panics:
  assumes "leakDetector cm \<noteq> None"
    and "ConnectionManager_Close drv (cm, w) = ((cm1, w1), Ret r)"
    and "ConnectionManager_Open drv (cm1, w2) = ((cm2, w3), err)"
  shows "snd (ConnectionManager_Close drv (cm1, w2)) = Panic ''close of closed channel'' \<and>
    snd (ConnectionManager_Close drv (cm2, w3)) = Panic ''close of closed channel''"
proof -
  have cm1: "\<exists>ld. leakDetector cm1 = Some ld \<and> stop_closed ld"
    using assms(1,2)
    by (auto simp: ConnectionManager_Close_def LeakDetector_Stop_def Let_def
        split: option.splits outcome.splits if_splits prod.splits)
  moreover have "leakDetector cm2 \<in> {leakDetector cm1, LeakDetector_Start (leakDetector cm1)}"
    using assms(3)
    by (auto simp: ConnectionManager_Open_def Let_def split: if_splits prod.splits sum.splits option.splits)
  ultimately have "\<exists>ld. leakDetector cm2 = Some ld \<and> stop_closed ld" by (auto simp: LeakDetector_Start_def)
  with cm1 show ?thesis by (auto simp: ConnectionManager_Close_def LeakDetector_Stop_def)
qed

text \<open>
  What \<open>database/sql\<close> documents of an expired context: a query on it returns an error. Time does
  not run backwards.
\<close>

definition refuses_expired :: "'w sql_driver \<Rightarrow> bool" where
  "refuses_expired drv \<longleftrightarrow>
     (\<forall>conn t q w. t \<le> drv_Now drv w \<longrightarrow>
        (\<exists>w' e. drv_ConnScan drv conn (Some t) q w = (w', Some e) \<and> drv_Now drv w \<le> drv_Now drv w')) \<and>
     (\<forall>d w. drv_Now drv w \<le> drv_Now drv (drv_Sleep drv d w))"

lemma expired_attempt_fails:
  assumes "refuses_expired drv" "t \<le> drv_Now drv w"
  shows "\<exists>w' e. validate_attempt drv cv (Some t) conn i w = (w', Inl e) \<and> t \<le> drv_Now drv w'"
proof -
  obtain w1 e where "drv_ConnScan drv conn (Some t) (validationQuery cv) w = (w1, Some e)"
    "drv_Now drv w \<le> drv_Now drv w1"
    using assms unfolding refuses_expired_def by blast
  moreover have "drv_Now drv w1 \<le> drv_Now drv (drv_Sleep drv d w1)" for d
    using assms(1) by (simp add: refuses_expired_def)
  ultimately show ?thesis using assms(2) by (auto simp: validate_attempt_def intro: order_trans)
qed

lemma expired_validation_fails:
  assumes "refuses_expired drv" "t \<le> drv_Now drv w"
  shows "\<exists>w' e. validate_loop (validate_attempt drv cv (Some t) conn) n i le w = (w', Inl e)"
  using assms(2)
proof (induction "nat (n - i)" arbitrary: i le w rule: less_induct)
  case less
  obtain w' e where "validate_attempt drv cv (Some t) conn i w = (w', Inl e)" "t \<le> drv_Now drv w'"
    using expired_attempt_fails [OF assms(1) less.prems] by blast
  with less.hyps [of "i + 1" w' "Some e"] show ?case by (subst validate_loop.simps) auto
qed

text \<open>
  \<open>NewConnectionManager\<close> reads the validator's settings before it fills in the defaults: a
  configuration that leaves \<open>ValidationTimeout\<close> at zero gets the default of five seconds, but
  the validator keeps zero, and with a driver that refuses queries on an expired context no
  connection is ever acquired.
\<close>

theorem zero_validation_timeout_rejects:
  assumes "ValidationTimeout config = 0" and "refuses_expired drv"
    and "validator cm = validator (NewConnectionManager config)"
  shows "ValidationTimeout (cm_config (NewConnectionManager config)) = 5 * Second \<and>
    (\<exists>st e. AcquireConnection drv ctx (cm, w) = (st, Inl e))"
proof -
  have "cv_timeout (validator cm) = 0"
    using assms(1,3) by (simp add: NewConnectionManager_def NewConnectionValidator_def)
  then have val: "\<exists>w' e. Validate drv (validator cm) ctx conn v = (w', Inl e)" for conn v
  proof -
    obtain t where t: "context_WithTimeout (drv_Now drv v) 0 ctx = Some t" "t \<le> drv_Now drv v"
      using context_WithTimeout_bound [of "drv_Now drv v" 0 ctx] by (auto simp: time_Add_def)
    obtain w' e where "validate_loop (validate_attempt drv (validator cm) (Some t) conn)
        (cv_maxRetries (validator cm)) 0 None v = (w', Inl e)"
      using expired_validation_fails [OF assms(2) t(2)] by blast
    with t(1) \<open>cv_timeout (validator cm) = 0\<close> show ?thesis by (simp add: Validate_def)
  qed
  have "\<exists>st e. AcquireConnection drv ctx (cm, w) = (st, Inl e)"
  proof (cases "cm_db cm")
    case (Some db)
    obtain w1 r where conn: "drv_Conn drv db ctx w = (w1, r)" by (metis surj_pair)
    show ?thesis
    proof (cases r)
      case (Inr c)
      obtain w' e where "Validate drv (validator cm) ctx c w1 = (w', Inl e)" using val by blast
      then show ?thesis using Some conn Inr by (simp add: AcquireConnection_def)
    qed (use Some conn in \<open>simp add: AcquireConnection_def\<close>)
  qed (simp add: AcquireConnection_def)
  then show ?thesis using assms(1) by (simp add: NewConnectionManager_def config_defaults_def Let_def)
qed

section \<open>Witnesses\<close>

definition sample_open_config :: AdvancedConfig where
  "sample_open_config =
     \<lparr>DatabaseType = ''sqlite'', DSN = '':memory:'', MaxOpenConns = 0, MaxIdleConns = 0, ConnMaxLifetime = 0,
      ConnMaxIdleTime = 0, LeakDetectionThreshold = 0, ValidationQuery = [], ValidationTimeout = 0,
      WarmupConnections = 0, WarmupTimeout = 0, ConnectionTimeout = 0, EnableMetrics = False,
      EnableLeakDetection = True\<rparr>"

definition sample_manager :: ConnectionManager where
  "sample_manager = fst (fst (ConnectionManager_Open (sample_driver (Inr 0)) (NewConnectionManager sample_open_config, 0)))"

lemma sample_manager_fields:
  "leakDetector sample_manager \<noteq> None" "cm_db sample_manager = Some 7" "tracking_inv sample_manager"
  "EnableLeakDetection (cm_config sample_manager)" "connectionID sample_manager = 0"
  "activeConnections sample_manager = []" "validator sample_manager = validator (NewConnectionManager sample_open_config)"
  by (simp_all add: sample_manager_def ConnectionManager_Open_def NewConnectionManager_def sample_open_config_def
      config_defaults_def driver_name_def db_types sample_driver_def NewLeakDetector_def LeakDetector_Start_def
      tracking_inv_def)

theorem released_connections_stay_tracked_witness:
  "length (activeConnections (fst (fst (run (use_connection (sample_driver (Inr 0))) (sample_manager, 3) [None, None])))) = 2"
proof -
  have "snd (run (use_connection (sample_driver (Inr 0))) (sample_manager, 3) [None, None]) = [True, True]"
    by (simp add: use_connection_def AcquireConnection_def sample_manager_fields Validate_def
        validate_loop.simps validate_attempt_def trackConnection_def ReleaseConnection_def Let_def
        NewConnectionManager_def NewConnectionValidator_def sample_driver_def)
  with released_connections_stay_tracked [of sample_manager "[None, None]" "sample_driver (Inr 0)" 3] show ?thesis
    by (simp add: sample_manager_fields del: run.simps)
qed

theorem second_close_panics_witness:
  "snd (ConnectionManager_Close (sample_driver (Inr 0)) (fst (ConnectionManager_Open (sample_driver (Inr 0))
     (fst (ConnectionManager_Close (sample_driver (Inr 0)) (sample_manager, 3)))))) = Panic ''close of closed channel''"
proof -
  let ?drv = "sample_driver (Inr 0)"
  let ?c = "ConnectionManager_Close ?drv (sample_manager, 3)"
  obtain cm1 w1 where c: "?c = ((cm1, w1), Ret None)"
    by (simp add: ConnectionManager_Close_def sample_manager_def ConnectionManager_Open_def NewConnectionManager_def
        sample_open_config_def config_defaults_def driver_name_def db_types sample_driver_def NewLeakDetector_def
        LeakDetector_Start_def LeakDetector_Stop_def)
  obtain cm2 w3 err where o: "ConnectionManager_Open ?drv (cm1, w1) = ((cm2, w3), err)" by (metis surj_pair)
  show ?thesis using second_close_panics [OF sample_manager_fields(1) c o] by (simp add: c o)
qed

definition deadline_driver :: "nat sql_driver" where
  "deadline_driver = (sample_driver (Inr 0))
     \<lparr>drv_ConnScan := \<lambda>conn ctx q w.
        (w, case ctx of None \<Rightarrow> None | Some t \<Rightarrow> if t \<le> Time (int w) then Some DeadlineExceeded else None)\<rparr>"

theorem zero_validation_timeout_rejects_witness:
  "\<exists>st e. AcquireConnection deadline_driver None (sample_manager, 3) = (st, Inl e)"
proof -
  have "refuses_expired deadline_driver"
    by (simp add: refuses_expired_def deadline_driver_def sample_driver_def)
  from zero_validation_timeout_rejects [OF _ this sample_manager_fields(7), of None 3] show ?thesis
    by (simp add: sample_open_config_def)
qed

end
