(* ===== verification/Runtime.thy ===== *)
theory Runtime
  imports Db Open Cache
begin

text \<open>
  The database runtime of \<open>dbruntime.go\<close>, which puts the connection manager, the gate, the
  database wrapper and the cache together. The state of a call is the runtime and the
  world of the driver.
\<close>

section \<open>Configuration and state\<close>

record RuntimeConfig =
  rc_DatabaseType :: DatabaseType
  rc_DSN :: string
  rc_MaxOpenConns :: int
  rc_MaxIdleConns :: int
  rc_ConnMaxLifetime :: duration
  rc_ConnMaxIdleTime :: duration
  rc_LeakDetectionThreshold :: duration
  rc_ValidationQuery :: string
  rc_ValidationTimeout :: duration
  rc_WarmupConnections :: int
  rc_WarmupTimeout :: duration
  rc_ConnectionTimeout :: duration
  rc_EnableLeakDetection :: bool
  rc_CircuitBreakerMaxFailures :: int
  rc_CircuitBreakerResetTimeout :: duration
  rc_CircuitBreakerHalfOpenTimeout :: duration
  rc_MaxRequestsPerSecond :: int64
  rc_MaxConcurrentConnections :: int64
  rc_StmtCacheSize :: int
  rc_SlowQueryThreshold :: duration
  rc_QueryTimeout :: duration
  rc_MaxRetries :: int
  rc_RetryBackoff :: duration
  rc_BackpressureMode :: string
  rc_BackpressureTimeout :: duration
  rc_EnableAggressiveCaching :: bool
  rc_CacheDefaultTTL :: duration
  rc_CacheCapacity :: int
  rc_InMemoryMode :: bool

text \<open>\<open>&RuntimeConfig{}\<close>.\<close>

definition zero_RuntimeConfig :: RuntimeConfig where
  "zero_RuntimeConfig =
     \<lparr>rc_DatabaseType = [], rc_DSN = [], rc_MaxOpenConns = 0, rc_MaxIdleConns = 0, rc_ConnMaxLifetime = 0,
      rc_ConnMaxIdleTime = 0, rc_LeakDetectionThreshold = 0, rc_ValidationQuery = [], rc_ValidationTimeout = 0,
      rc_WarmupConnections = 0, rc_WarmupTimeout = 0, rc_ConnectionTimeout = 0, rc_EnableLeakDetection = False,
      rc_CircuitBreakerMaxFailures = 0, rc_CircuitBreakerResetTimeout = 0, rc_CircuitBreakerHalfOpenTimeout = 0,
      rc_MaxRequestsPerSecond = 0, rc_MaxConcurrentConnections = 0, rc_StmtCacheSize = 0,
      rc_SlowQueryThreshold = 0, rc_QueryTimeout = 0, rc_MaxRetries = 0, rc_RetryBackoff = 0,
      rc_BackpressureMode = [], rc_BackpressureTimeout = 0, rc_EnableAggressiveCaching = False,
      rc_CacheDefaultTTL = 0, rc_CacheCapacity = 0, rc_InMemoryMode = False\<rparr>"

text \<open>
  The cache holds values of any type; \<open>QueryCached\<close> recognises its own by their type.
\<close>

datatype cache_value =
    QueryResult "string list" "go_value list list"
  | OtherValue go_value

record DBRuntime =
  connManager :: ConnectionManager
  rt_gate :: ConnectionGate
  advancedDB :: "AdvancedDB option"
  rt_config :: RuntimeConfig
  rt_cache :: "cache_value InMemoryCache option"

type_synonym 'w rt_state = "DBRuntime \<times> 'w"

definition connection_config :: "RuntimeConfig \<Rightarrow> AdvancedConfig" where
  "connection_config c =
     \<lparr>DatabaseType = rc_DatabaseType c, DSN = rc_DSN c, MaxOpenConns = rc_MaxOpenConns c,
      MaxIdleConns = rc_MaxIdleConns c, ConnMaxLifetime = rc_ConnMaxLifetime c,
      ConnMaxIdleTime = rc_ConnMaxIdleTime c, LeakDetectionThreshold = rc_LeakDetectionThreshold c,
      ValidationQuery = rc_ValidationQuery c, ValidationTimeout = rc_ValidationTimeout c,
      WarmupConnections = rc_WarmupConnections c, WarmupTimeout = rc_WarmupTimeout c,
      ConnectionTimeout = rc_ConnectionTimeout c, EnableMetrics = False,
      EnableLeakDetection = rc_EnableLeakDetection c\<rparr>"

definition gate_config :: "RuntimeConfig \<Rightarrow> GateConfig" where
  "gate_config c =
     \<lparr>MaxFailures = rc_CircuitBreakerMaxFailures c, ResetTimeout = rc_CircuitBreakerResetTimeout c,
      HalfOpenTimeout = rc_CircuitBreakerHalfOpenTimeout c, MaxRequestsPerSecond = rc_MaxRequestsPerSecond c,
      MaxConcurrentConnections = rc_MaxConcurrentConnections c, BackpressureMode = rc_BackpressureMode c,
      BackpressureTimeout = rc_BackpressureTimeout c\<rparr>"

definition db_config :: "RuntimeConfig \<Rightarrow> DBAdvancedConfig" where
  "db_config c =
     \<lparr>StmtCacheSize = rc_StmtCacheSize c, cfg_SlowQueryThreshold = rc_SlowQueryThreshold c,
      QueryTimeout = rc_QueryTimeout c, cfg_MaxRetries = rc_MaxRetries c, RetryBackoff = rc_RetryBackoff c\<rparr>"

definition NewDBRuntime :: "time \<Rightarrow> RuntimeConfig option \<Rightarrow> DBRuntime" where
  "NewDBRuntime now config =
     (let c = (case config of None \<Rightarrow> zero_RuntimeConfig | Some c \<Rightarrow> c)
      in \<lparr>connManager = NewConnectionManager (connection_config c),
          rt_gate = NewConnectionGate now (Some (gate_config c)), advancedDB = None, rt_config = c,
          rt_cache =
            (if rc_EnableAggressiveCaching c \<or> rc_InMemoryMode c
             then Some (NewInMemoryCache
                    (if rc_CacheCapacity c \<le> 0 then 10000 else rc_CacheCapacity c)
                    (if rc_CacheDefaultTTL c \<le> 0 then 300 * Second else rc_CacheDefaultTTL c))
             else None)\<rparr>)"

section \<open>Connecting\<close>

definition Runtime_Connect :: "'w sql_driver \<Rightarrow> 'w rt_state \<Rightarrow> 'w rt_state \<times> go_error option" where
  "Runtime_Connect drv = (\<lambda>(rt, w).
     (case ConnectionManager_Open drv (connManager rt, w) of
        ((cm, w1), Some err) \<Rightarrow>
          ((rt\<lparr>connManager := cm\<rparr>, w1), Some (ErrorfW ''failed to open connection: '' err []))
      | ((cm, w1), None) \<Rightarrow>
          ((rt\<lparr>connManager := cm,
               advancedDB := Some (NewAdvancedDB (the (cm_db cm)) (Some (db_config (rt_config rt))))\<rparr>, w1),
           None)))"

definition Runtime_Disconnect :: "'w sql_driver \<Rightarrow> 'w rt_state \<Rightarrow> 'w rt_state \<times> go_error option outcome" where
  "Runtime_Disconnect drv = (\<lambda>(rt, w).
     (let (rt1, w1) =
            (case advancedDB rt of
               None \<Rightarrow> (rt, w)
             | Some adb \<Rightarrow>
                 (case psc_Clear drv (stmtCache adb) w of
                    (psc, w1) \<Rightarrow> (rt\<lparr>advancedDB := Some (adb\<lparr>stmtCache := psc\<rparr>)\<rparr>, w1)));
          ((cm, w2), r) = ConnectionManager_Close drv (connManager rt1, w1)
      in ((rt1\<lparr>connManager := cm\<rparr>, w2), r)))"

definition SetCache :: "cache_value InMemoryCache option \<Rightarrow> DBRuntime \<Rightarrow> DBRuntime" where
  "SetCache c rt = rt\<lparr>rt_cache := c\<rparr>"

definition IsConnected :: "DBRuntime \<Rightarrow> bool" where
  "IsConnected rt \<longleftrightarrow> cm_db (connManager rt) \<noteq> None"

definition not_connected :: go_error where
  "not_connected = Errorf ''database not connected''"

section \<open>Operations\<close>

text \<open>A method call on \<open>r.advancedDB\<close>: the wrapper, the shared gate and the world change.\<close>

definition on_advancedDB ::
    "('w db_state \<Rightarrow> 'w db_state \<times> 'a outcome) \<Rightarrow> 'w rt_state \<Rightarrow> 'w rt_state \<times> 'a outcome" where
  "on_advancedDB f = (\<lambda>(rt, w).
     (case advancedDB rt of
        None \<Rightarrow> ((rt, w), Panic nil_dereference)
      | Some adb \<Rightarrow>
          (case f (rt_gate rt, adb, w) of
             ((cg, adb1, w1), r) \<Rightarrow> ((rt\<lparr>rt_gate := cg, advancedDB := Some adb1\<rparr>, w1), r))))"

definition Runtime_Exec ::
    "'w sql_driver \<Rightarrow> gate_env \<Rightarrow> go_context \<Rightarrow> string \<Rightarrow> go_value list \<Rightarrow>
     'w rt_state \<Rightarrow> 'w rt_state \<times> (go_error + handle) outcome" where
  "Runtime_Exec drv env ctx query args st =
     (if \<not> IsConnected (fst st) then (st, Ret (Inl not_connected))
      else on_advancedDB (AdvancedDB_Exec drv env ctx query args) st)"

definition Runtime_Query ::
    "'w sql_driver \<Rightarrow> gate_env \<Rightarrow> go_context \<Rightarrow> string \<Rightarrow> go_value list \<Rightarrow>
     'w rt_state \<Rightarrow> 'w rt_state \<times> (go_error + handle) outcome" where
  "Runtime_Query drv env ctx query args st =
     (if \<not> IsConnected (fst st) then (st, Ret (Inl not_connected))
      else on_advancedDB (AdvancedDB_Query drv env ctx query args) st)"

text \<open>\<open>QueryRow\<close> returns the row, or \<open>nil\<close> when there is no connection.\<close>

definition Runtime_QueryRow ::
    "'w sql_driver \<Rightarrow> go_context \<Rightarrow> string \<Rightarrow> go_value list \<Rightarrow> 'w rt_state \<Rightarrow> 'w rt_state \<times> handle option outcome" where
  "Runtime_QueryRow drv ctx query args st =
     (if \<not> IsConnected (fst st) then (st, Ret None)
      else on_advancedDB (\<lambda>s. map_prod id (\<lambda>h. Ret (Some h)) (AdvancedDB_QueryRow drv ctx query args s)) st)"

definition Runtime_Prepare ::
    "'w sql_driver \<Rightarrow> nat \<Rightarrow> go_context \<Rightarrow> string \<Rightarrow> 'w rt_state \<Rightarrow> 'w rt_state \<times> (go_error + handle) outcome" where
  "Runtime_Prepare drv pick ctx query st =
     (if \<not> IsConnected (fst st) then (st, Ret (Inl not_connected))
      else on_advancedDB (\<lambda>s. map_prod id Ret (AdvancedDB_Prepare drv pick ctx query s)) st)"

definition Runtime_Begin ::
    "'w sql_driver \<Rightarrow> gate_env \<Rightarrow> go_context \<Rightarrow> 'w rt_state \<Rightarrow> 'w rt_state \<times> (go_error + handle) outcome" where
  "Runtime_Begin drv env ctx st =
     (if \<not> IsConnected (fst st) then (st, Ret (Inl not_connected))
      else on_advancedDB (AdvancedDB_Begin drv env ctx) st)"

definition Runtime_Stats :: "'w sql_driver \<Rightarrow> 'w rt_state \<Rightarrow> DBStats outcome" where
  "Runtime_Stats drv = (\<lambda>(rt, w).
     (if \<not> IsConnected rt then Ret zero_DBStats
      else case advancedDB rt of None \<Rightarrow> Panic nil_dereference | Some adb \<Rightarrow> Ret (AdvancedDB_Stats drv adb w)))"

definition zero_MetricsStats :: MetricsStats where
  "zero_MetricsStats =
     \<lparr>ms_TotalQueries = 0, ms_SuccessfulQueries = 0, ms_FailedQueries = 0, AverageQueryTime = 0,
      ms_SlowQueries = 0, SuccessRate = Finite 0\<rparr>"

definition Runtime_Metrics :: "DBRuntime \<Rightarrow> MetricsStats outcome" where
  "Runtime_Metrics rt =
     (if \<not> IsConnected rt then Ret zero_MetricsStats
      else case advancedDB rt of None \<Rightarrow> Panic nil_dereference | Some adb \<Rightarrow> Ret (GetStats (metrics adb)))"

definition Runtime_HealthCheck ::
    "'w sql_driver \<Rightarrow> go_context \<Rightarrow> 'w rt_state \<Rightarrow> 'w rt_state \<times> go_error option outcome" where
  "Runtime_HealthCheck drv ctx = (\<lambda>(rt, w).
     (if \<not> IsConnected rt then ((rt, w), Ret (Some not_connected))
      else case advancedDB rt of
             None \<Rightarrow> ((rt, w), Panic nil_dereference)
           | Some adb \<Rightarrow>
               (case AdvancedDB_HealthCheck drv ctx adb w of (w1, r) \<Rightarrow> ((rt, w1), Ret r))))"

definition CircuitBreakerState :: "DBRuntime \<Rightarrow> string" where
  "CircuitBreakerState rt = ConnectionGate_State (rt_gate rt)"

section \<open>Cached queries\<close>

fun bytes_to_string :: "go_value \<Rightarrow> go_value" where
  "bytes_to_string (VBytes b) = VString b"
| "bytes_to_string v = v"

text \<open>The loop over the rows. A result set need not end: the loop may not return.\<close>

partial_function (option) read_rows ::
    "'w sql_driver \<Rightarrow> handle \<Rightarrow> nat \<Rightarrow> go_value list list \<Rightarrow> 'w \<Rightarrow>
     ('w \<times> (go_error + go_value list list)) option" where
  "read_rows drv rows n acc w =
     (let (w1, more) = drv_Next drv rows w
      in if \<not> more then Some (w1, Inr acc)
         else
           (let (w2, r) = drv_Scan drv rows n w1
            in case r of
                 Inl err \<Rightarrow> Some (w2, Inl err)
               | Inr vs \<Rightarrow> read_rows drv rows n (acc @ [map bytes_to_string vs]) w2))"

text \<open>What \<open>QueryCached\<close> does with a result set: columns, rows, error, all before the deferred \<open>Close\<close>.\<close>

definition materialize ::
    "'w sql_driver \<Rightarrow> handle \<Rightarrow> 'w \<Rightarrow> ('w \<times> (go_error + string list \<times> go_value list list)) option" where
  "materialize drv rows w =
     (case drv_Columns drv rows w of
        (w1, Inl err) \<Rightarrow> Some (w1, Inl err)
      | (w1, Inr columns) \<Rightarrow>
          (case read_rows drv rows (length columns) [] w1 of
             None \<Rightarrow> None
           | Some (w2, Inl err) \<Rightarrow> Some (w2, Inl err)
           | Some (w2, Inr results) \<Rightarrow>
               (case drv_RowsErr drv rows w2 of
                  (w3, Some err) \<Rightarrow> Some (w3, Inl err)
                | (w3, None) \<Rightarrow> Some (w3, Inr (columns, results)))))"

definition cache_get :: "time \<Rightarrow> string \<Rightarrow> DBRuntime \<Rightarrow> DBRuntime \<times> cache_value option" where
  "cache_get now key rt =
     (case rt_cache rt of
        Some c \<Rightarrow>
          if key \<noteq> [] then (case InMemoryCache_Get now key c of (c1, v) \<Rightarrow> (rt\<lparr>rt_cache := Some c1\<rparr>, v))
          else (rt, None)
      | None \<Rightarrow> (rt, None))"

definition cache_put :: "time \<Rightarrow> string \<Rightarrow> cache_value \<Rightarrow> duration \<Rightarrow> DBRuntime \<Rightarrow> DBRuntime" where
  "cache_put now key v ttl rt =
     (case rt_cache rt of
        Some c \<Rightarrow> if key \<noteq> [] then rt\<lparr>rt_cache := Some (fst (InMemoryCache_Set now key v ttl c))\<rparr> else rt
      | None \<Rightarrow> rt)"

definition query_uncached ::
    "'w sql_driver \<Rightarrow> gate_env \<Rightarrow> go_context \<Rightarrow> string \<Rightarrow> duration \<Rightarrow> string \<Rightarrow> go_value list \<Rightarrow>
     'w rt_state \<Rightarrow> 'w rt_state \<times> (go_error + string list \<times> go_value list list \<times> bool) outcome" where
  "query_uncached drv env ctx key ttl query args st =
     (case Runtime_Query drv env ctx query args st of
        (st1, Panic m) \<Rightarrow> (st1, Panic m)
      | (st1, Blocked) \<Rightarrow> (st1, Blocked)
      | (st1, Ret (Inl err)) \<Rightarrow> (st1, Ret (Inl err))
      | ((rt1, w1), Ret (Inr rows)) \<Rightarrow>
          (case materialize drv rows w1 of
             None \<Rightarrow> ((rt1, w1), Blocked)
           | Some (w2, Inl err) \<Rightarrow> ((rt1, drv_RowsClose drv rows w2), Ret (Inl err))
           | Some (w2, Inr (columns, results)) \<Rightarrow>
               ((cache_put (drv_Now drv w2) key (QueryResult columns results) ttl rt1, drv_RowsClose drv rows w2),
                Ret (Inr (columns, results, False)))))"

definition QueryCached ::
    "'w sql_driver \<Rightarrow> gate_env \<Rightarrow> go_context \<Rightarrow> string \<Rightarrow> duration \<Rightarrow> string \<Rightarrow> go_value list \<Rightarrow>
     'w rt_state \<Rightarrow> 'w rt_state \<times> (go_error + string list \<times> go_value list list \<times> bool) outcome" where
  "QueryCached drv env ctx key ttl query args = (\<lambda>(rt, w).
     (case cache_get (drv_Now drv w) key rt of
        (rt1, Some (QueryResult columns rows)) \<Rightarrow> ((rt1, w), Ret (Inr (columns, rows, True)))
      | (rt1, _) \<Rightarrow> query_uncached drv env ctx key ttl query args (rt1, w)))"

section \<open>The runtime as a machine\<close>

datatype rt_event =
    RConnect
  | RDisconnect
  | RExec gate_env go_context string "go_value list"
  | RQuery gate_env go_context string "go_value list"
  | RQueryRow go_context string "go_value list"
  | RPrepare nat go_context string
  | RBegin gate_env go_context
  | RHealthCheck go_context
  | RQueryCached gate_env go_context string duration string "go_value list"
  | RStats
  | RMetrics
  | RCircuitBreakerState
  | RIsConnected
  | RSetCache "cache_value InMemoryCache option"

datatype rt_answer =
    AnsError "go_error option outcome"
  | AnsHandle "(go_error + handle) outcome"
  | AnsRow "handle option outcome"
  | AnsRows "(go_error + string list \<times> go_value list list \<times> bool) outcome"
  | AnsStats "DBStats outcome"
  | AnsMetrics "MetricsStats outcome"
  | AnsState string
  | AnsConnected bool
  | AnsNothing

text \<open>Every method of the runtime that does more than return one of its fields.\<close>

fun rt_step :: "'w sql_driver \<Rightarrow> 'w rt_state \<Rightarrow> rt_event \<Rightarrow> 'w rt_state \<times> rt_answer" where
  "rt_step drv st RConnect = map_prod id (\<lambda>e. AnsError (Ret e)) (Runtime_Connect drv st)"
| "rt_step drv st RDisconnect = map_prod id AnsError (Runtime_Disconnect drv st)"
| "rt_step drv st (RExec env ctx q args) = map_prod id AnsHandle (Runtime_Exec drv env ctx q args st)"
| "rt_step drv st (RQuery env ctx q args) = map_prod id AnsHandle (Runtime_Query drv env ctx q args st)"
| "rt_step drv st (RQueryRow ctx q args) = map_prod id AnsRow (Runtime_QueryRow drv ctx q args st)"
| "rt_step drv st (RPrepare pick ctx q) = map_prod id AnsHandle (Runtime_Prepare drv pick ctx q st)"
| "rt_step drv st (RBegin env ctx) = map_prod id AnsHandle (Runtime_Begin drv env ctx st)"
| "rt_step drv st (RHealthCheck ctx) = map_prod id AnsError (Runtime_HealthCheck drv ctx st)"
| "rt_step drv st (RQueryCached env ctx key ttl q args) =
     map_prod id AnsRows (QueryCached drv env ctx key ttl q args st)"
| "rt_step drv st RStats = (st, AnsStats (Runtime_Stats drv st))"
| "rt_step drv st RMetrics = (st, AnsMetrics (Runtime_Metrics (fst st)))"
| "rt_step drv st RCircuitBreakerState = (st, AnsState (CircuitBreakerState (fst st)))"
| "rt_step drv st RIsConnected = (st, AnsConnected (IsConnected (fst st)))"
| "rt_step drv st (RSetCache c) = (map_prod (SetCache c) id st, AnsNothing)"

fun panics :: "'a outcome \<Rightarrow> bool" where
  "panics (Panic m) = True"
| "panics _ = False"

fun answer_panics :: "rt_answer \<Rightarrow> bool" where
  "answer_panics (AnsError r) = panics r"
| "answer_panics (AnsHandle r) = panics r"
| "answer_panics (AnsRow r) = panics r"
| "answer_panics (AnsRows r) = panics r"
| "answer_panics (AnsStats r) = panics r"
| "answer_panics (AnsMetrics r) = panics r"
| "answer_panics _ = False"

text \<open>A connected runtime has a wrapper, and the wrapper works on the manager's pool.\<close>

definition runtime_inv :: "DBRuntime \<Rightarrow> bool" where
  "runtime_inv rt \<longleftrightarrow>
     (case cm_db (connManager rt) of None \<Rightarrow> True | Some db \<Rightarrow> \<exists>adb. advancedDB rt = Some adb \<and> adb_db adb = db)"

lemma Open_connects:
  "ConnectionManager_Open drv (cm, w) = ((cm', w'), None) \<Longrightarrow> cm_db cm' \<noteq> None"
  "ConnectionManager_Open drv (cm, w) = ((cm', w'), Some e) \<Longrightarrow> cm_db cm' = None"
  by (auto simp: ConnectionManager_Open_def Let_def split: if_splits prod.splits sum.splits option.splits)

lemma Open_leakDetector:
  "ConnectionManager_Open drv (cm, w) = ((cm', w'), r) \<Longrightarrow> (leakDetector cm' = None) = (leakDetector cm = None)"
  by (auto simp: ConnectionManager_Open_def LeakDetector_Start_def Let_def
      split: if_splits prod.splits sum.splits option.splits)

lemma Connect_inv:
  "runtime_inv rt \<Longrightarrow> Runtime_Connect drv (rt, w) = ((rt', w'), r) \<Longrightarrow> runtime_inv rt'"
  using Open_connects
  by (fastforce simp: Runtime_Connect_def runtime_inv_def NewAdvancedDB_def Let_def
      split: prod.splits option.splits)

lemma Close_result:
  assumes "ConnectionManager_Close drv (cm, w) = ((cm', w'), r)"
  shows "cm_db cm' \<in> {None, cm_db cm}" "(leakDetector cm' = None) = (leakDetector cm = None)"
    "leakDetector cm = None \<Longrightarrow> \<not> panics r"
  using assms
  by (auto simp: ConnectionManager_Close_def LeakDetector_Stop_def Let_def
      split: outcome.splits option.splits if_splits prod.splits)

lemma Disconnect_inv:
  assumes "runtime_inv rt" "Runtime_Disconnect drv (rt, w) = ((rt', w'), r)"
  shows "runtime_inv rt'"
  using assms
  by (auto simp: Runtime_Disconnect_def runtime_inv_def psc_Clear_def Let_def
      split: prod.splits option.splits dest!: Close_result(1))

lemma gated_db: "gated drv env operation ctx (cg, adb, w) = ((cg', adb', w'), r) \<Longrightarrow> adb_db adb' = adb_db adb"
  by (auto simp: gated_def record_elapsed_def Let_def split: prod.splits outcome.splits)

lemma ExecuteWithGate_no_panic: "ExecuteWithGate clk others sel op (cg, w) = (st, r) \<Longrightarrow> \<not> panics r"
  by (auto simp: ExecuteWithGate_def ConnectionGate_Allow_def
      dest: AcquireWithContext_no_panic [THEN notE]
      split: prod.splits option.splits outcome.splits sum.splits)

lemma gated_no_panic: "gated drv env operation ctx (cg, adb, w) = (st, r) \<Longrightarrow> \<not> panics r"
  by (auto simp: gated_def Let_def dest: ExecuteWithGate_no_panic split: prod.splits outcome.splits)

text \<open>
  The contract of the wrapper's operations that the runtime relies on: they keep the pool and
  never panic. The runtime's own operations, guarded by \<open>IsConnected\<close>, then keep its
  invariant, leave manager and cache alone, and do not panic either.
\<close>

locale db_operation =
  fixes f :: "'w db_state \<Rightarrow> 'w db_state \<times> 'a outcome"
  assumes keeps_pool: "f (cg, adb, w) = ((cg', adb', w'), r) \<Longrightarrow> adb_db adb' = adb_db adb"
    and no_panic: "f (cg, adb, w) = (st, r) \<Longrightarrow> \<not> panics r"
begin

lemma guarded:
  assumes "runtime_inv rt"
    and "(if \<not> IsConnected (fst (rt, w)) then ((rt, w), Ret d) else on_advancedDB f (rt, w)) = ((rt', w'), r)"
  shows "runtime_inv rt' \<and> connManager rt' = connManager rt \<and> rt_cache rt' = rt_cache rt \<and> \<not> panics r"
proof (cases "cm_db (connManager rt)")
  case None
  with assms show ?thesis by (auto simp: IsConnected_def)
next
  case (Some db)
  with assms(1) obtain adb where adb: "advancedDB rt = Some adb" "adb_db adb = db"
    by (auto simp: runtime_inv_def)
  obtain cg1 adb1 w1 r1 where f: "f (rt_gate rt, adb, w) = ((cg1, adb1, w1), r1)" by (metis surj_pair)
  with assms(2) Some adb have "rt' = rt\<lparr>rt_gate := cg1, advancedDB := Some adb1\<rparr>" "r = r1"
    by (auto simp: IsConnected_def on_advancedDB_def)
  with keeps_pool [OF f] no_panic [OF f] Some adb show ?thesis by (simp add: runtime_inv_def)
qed

end

interpretation exec_op: db_operation "AdvancedDB_Exec drv env ctx q args" for drv env ctx q args
  unfolding AdvancedDB_Exec_def by unfold_locales (simp_all add: gated_db gated_no_panic)

interpretation query_op: db_operation "AdvancedDB_Query drv env ctx q args" for drv env ctx q args
  unfolding AdvancedDB_Query_def by unfold_locales (simp_all add: gated_db gated_no_panic)

interpretation row_op: db_operation
  "\<lambda>s. map_prod id (\<lambda>h. Ret (Some h)) (AdvancedDB_QueryRow drv ctx q args s)" for drv ctx q args
  by unfold_locales (auto simp: AdvancedDB_QueryRow_def record_elapsed_def Let_def split: prod.splits)

interpretation prepare_op: db_operation "\<lambda>s. map_prod id Ret (AdvancedDB_Prepare drv pick ctx q s)"
  for drv pick ctx q
  by unfold_locales (auto simp: AdvancedDB_Prepare_def split: option.splits prod.splits sum.splits)

interpretation begin_op: db_operation "AdvancedDB_Begin drv env ctx" for drv env ctx
  by unfold_locales (auto simp: AdvancedDB_Begin_def Let_def dest: ExecuteWithGate_no_panic split: prod.splits outcome.splits)

lemma Exec_guarded:
  "runtime_inv rt \<Longrightarrow> Runtime_Exec drv env ctx q args (rt, w) = ((rt', w'), r) \<Longrightarrow>
   runtime_inv rt' \<and> connManager rt' = connManager rt \<and> rt_cache rt' = rt_cache rt \<and> \<not> panics r"
  unfolding Runtime_Exec_def by (rule exec_op.guarded)

lemma Query_guarded:
  "runtime_inv rt \<Longrightarrow> Runtime_Query drv env ctx q args (rt, w) = ((rt', w'), r) \<Longrightarrow>
   runtime_inv rt' \<and> connManager rt' = connManager rt \<and> rt_cache rt' = rt_cache rt \<and> \<not> panics r"
  unfolding Runtime_Query_def by (rule query_op.guarded)

lemma QueryRow_guarded:
  "runtime_inv rt \<Longrightarrow> Runtime_QueryRow drv ctx q args (rt, w) = ((rt', w'), r) \<Longrightarrow>
   runtime_inv rt' \<and> connManager rt' = connManager rt \<and> rt_cache rt' = rt_cache rt \<and> \<not> panics r"
  unfolding Runtime_QueryRow_def by (rule row_op.guarded)

lemma Prepare_guarded:
  "runtime_inv rt \<Longrightarrow> Runtime_Prepare drv pick ctx q (rt, w) = ((rt', w'), r) \<Longrightarrow>
   runtime_inv rt' \<and> connManager rt' = connManager rt \<and> rt_cache rt' = rt_cache rt \<and> \<not> panics r"
  unfolding Runtime_Prepare_def by (rule prepare_op.guarded)

lemma Begin_guarded:
  "runtime_inv rt \<Longrightarrow> Runtime_Begin drv env ctx (rt, w) = ((rt', w'), r) \<Longrightarrow>
   runtime_inv rt' \<and> connManager rt' = connManager rt \<and> rt_cache rt' = rt_cache rt \<and> \<not> panics r"
  unfolding Runtime_Begin_def by (rule begin_op.guarded)

lemma HealthCheck_guarded:
  assumes "runtime_inv rt" "Runtime_HealthCheck drv ctx (rt, w) = ((rt', w'), r)"
  shows "rt' = rt \<and> \<not> panics r"
  using assms
  by (auto simp: Runtime_HealthCheck_def IsConnected_def runtime_inv_def split: if_splits option.splits prod.splits)

lemma Stats_no_panic: "runtime_inv rt \<Longrightarrow> \<not> panics (Runtime_Stats drv (rt, w))"
  by (auto simp: Runtime_Stats_def IsConnected_def runtime_inv_def)

lemma Metrics_no_panic: "runtime_inv rt \<Longrightarrow> \<not> panics (Runtime_Metrics rt)"
  by (auto simp: Runtime_Metrics_def IsConnected_def runtime_inv_def)

lemma SetCache_frame [simp]:
  "connManager (SetCache c rt) = connManager rt" "runtime_inv (SetCache c rt) = runtime_inv rt"
  by (simp_all add: SetCache_def runtime_inv_def split: option.split)

lemma cache_ops_frame [simp]:
  "connManager (fst (cache_get now key rt)) = connManager rt" "advancedDB (fst (cache_get now key rt)) = advancedDB rt"
  "connManager (cache_put now key v ttl rt) = connManager rt" "advancedDB (cache_put now key v ttl rt) = advancedDB rt"
  by (simp_all add: cache_get_def cache_put_def split: option.split prod.split)

lemma runtime_inv_cache [simp]:
  "runtime_inv (fst (cache_get now key rt)) = runtime_inv rt" "runtime_inv (cache_put now key v ttl rt) = runtime_inv rt"
  by (simp_all add: runtime_inv_def split: option.split)

lemma query_uncached_guarded:
  assumes "runtime_inv rt" "query_uncached drv env ctx key ttl q args (rt, w) = ((rt', w'), r)"
  shows "runtime_inv rt' \<and> connManager rt' = connManager rt \<and> \<not> panics r"
proof -
  obtain rt1 w1 r1 where q: "Runtime_Query drv env ctx q args (rt, w) = ((rt1, w1), r1)" by (metis surj_pair)
  have "runtime_inv rt1" "connManager rt1 = connManager rt" "\<not> panics r1"
    using Query_guarded [OF assms(1) q] by simp_all
  with q assms(2) show ?thesis
    by (auto simp: query_uncached_def split: outcome.splits sum.splits option.splits prod.splits)
qed

lemma QueryCached_guarded:
  assumes "runtime_inv rt" "QueryCached drv env ctx key ttl q args (rt, w) = ((rt', w'), r)"
  shows "runtime_inv rt' \<and> connManager rt' = connManager rt \<and> \<not> panics r"
proof -
  obtain rt1 v where g: "cache_get (drv_Now drv w) key rt = (rt1, v)" by (metis surj_pair)
  then have "runtime_inv rt1" "connManager rt1 = connManager rt" using assms(1) runtime_inv_cache(1) cache_ops_frame(1) by (metis fst_conv)+
  with g assms(2) query_uncached_guarded [of rt1 drv env ctx key ttl q args w rt' w' r] show ?thesis
    by (auto simp: QueryCached_def split: option.splits cache_value.splits)
qed

lemma rt_step_guarded:
  assumes "runtime_inv (fst st)" "rt_step drv st e = (st', a)"
  shows "runtime_inv (fst st') \<and>
    (leakDetector (connManager (fst st')) = None) = (leakDetector (connManager (fst st)) = None) \<and>
    (answer_panics a \<longrightarrow> e = RDisconnect \<and> leakDetector (connManager (fst st)) \<noteq> None)"
proof -
  obtain rt w where st: "st = (rt, w)" by (cases st)
  obtain rt' w' where st': "st' = (rt', w')" by (cases st')
  have inv: "runtime_inv rt" using assms(1) st by simp
  show ?thesis
  proof (cases e)
    case RConnect
    with assms(2) st st' Connect_inv [OF inv, of drv w rt' w'] show ?thesis
      by (auto simp: Runtime_Connect_def split: prod.splits option.splits dest: Open_leakDetector)
  next
    case RDisconnect
    with assms(2) st st' obtain r where r: "Runtime_Disconnect drv (rt, w) = ((rt', w'), r)" "a = AnsError r"
      by (cases "Runtime_Disconnect drv (rt, w)") auto
    then obtain w0 where c: "ConnectionManager_Close drv (connManager rt, w0) = ((connManager rt', w'), r)"
      by (auto simp: Runtime_Disconnect_def psc_Clear_def Let_def split: prod.splits option.splits)
    with Close_result(2,3) [OF c] Disconnect_inv [OF inv r(1)] RDisconnect r(2) st st' show ?thesis by auto
  next
    case (RExec env ctx q args)
    with assms(2) st st' show ?thesis
      by (cases "Runtime_Exec drv env ctx q args (rt, w)") (auto dest: Exec_guarded [OF inv])
  next
    case (RQuery env ctx q args)
    with assms(2) st st' show ?thesis
      by (cases "Runtime_Query drv env ctx q args (rt, w)") (auto dest: Query_guarded [OF inv])
  next
    case (RQueryRow ctx q args)
    with assms(2) st st' show ?thesis
      by (cases "Runtime_QueryRow drv ctx q args (rt, w)") (auto dest: QueryRow_guarded [OF inv])
  next
    case (RPrepare pick ctx q)
    with assms(2) st st' show ?thesis
      by (cases "Runtime_Prepare drv pick ctx q (rt, w)") (auto dest: Prepare_guarded [OF inv])
  next
    case (RBegin env ctx)
    with assms(2) st st' show ?thesis
      by (cases "Runtime_Begin drv env ctx (rt, w)") (auto dest: Begin_guarded [OF inv])
  next
    case (RHealthCheck ctx)
    with assms(2) st st' inv show ?thesis
      by (cases "Runtime_HealthCheck drv ctx (rt, w)") (auto dest: HealthCheck_guarded [OF inv])
  next
    case (RQueryCached env ctx key ttl q args)
    with assms(2) st st' show ?thesis
      by (cases "QueryCached drv env ctx key ttl q args (rt, w)") (auto dest: QueryCached_guarded [OF inv])
  qed (use assms(2) st st' inv Stats_no_panic [OF inv, of drv w] Metrics_no_panic [OF inv] in auto)
qed


section \<open>The leak detector through a run\<close>

text \<open>Which calls panic: every \<open>Disconnect\<close> but the first.\<close>

fun later_disconnects :: "bool \<Rightarrow> rt_event list \<Rightarrow> bool list" where
  "later_disconnects closed_before [] = []"
| "later_disconnects closed_before (e # es) =
     (closed_before \<and> e = RDisconnect) # later_disconnects (closed_before \<or> e = RDisconnect) es"

definition detector_closed :: "DBRuntime \<Rightarrow> bool option" where
  "detector_closed rt = map_option stop_closed (leakDetector (connManager rt))"

lemma Connect_detector:
  "Runtime_Connect drv (rt, w) = ((rt', w'), r) \<Longrightarrow> detector_closed rt' = detector_closed rt"
  by (auto simp: detector_closed_def Runtime_Connect_def ConnectionManager_Open_def LeakDetector_Start_def Let_def option.map_comp comp_def
      split: prod.splits option.splits sum.splits if_splits)

lemma Close_detector:
  assumes "ConnectionManager_Close drv (cm, w) = ((cm', w'), r)" "map_option stop_closed (leakDetector cm) = Some b"
  shows "map_option stop_closed (leakDetector cm') = Some True" "panics r = b"
  using assms
  by (auto simp: ConnectionManager_Close_def LeakDetector_Stop_def Let_def
      split: option.splits outcome.splits if_splits prod.splits)

lemma Disconnect_detector:
  assumes "Runtime_Disconnect drv (rt, w) = ((rt', w'), r)" "detector_closed rt = Some b"
  shows "detector_closed rt' = Some True" "panics r = b"
proof -
  from assms(1) obtain w0 where c: "ConnectionManager_Close drv (connManager rt, w0) = ((connManager rt', w'), r)"
    by (auto simp: Runtime_Disconnect_def psc_Clear_def Let_def split: prod.splits option.splits)
  show "detector_closed rt' = Some True" "panics r = b"
    using Close_detector [OF c] assms(2) by (simp_all add: detector_closed_def)
qed

text \<open>Every other call leaves the connection manager alone and does not panic.\<close>

lemma map_prod_id_eq: "map_prod id f p = (s, b) \<longleftrightarrow> (\<exists>r. p = (s, r) \<and> b = f r)"
  by (cases p) auto

lemma other_step_detector:
  assumes "runtime_inv rt" "rt_step drv (rt, w) e = ((rt', w'), a)" "e \<noteq> RConnect" "e \<noteq> RDisconnect"
  shows "detector_closed rt' = detector_closed rt"
  using assms(2-4)
  by (cases e)
    (auto simp: detector_closed_def map_prod_id_eq dest: Exec_guarded [OF assms(1)] Query_guarded [OF assms(1)] QueryRow_guarded [OF assms(1)]
      Prepare_guarded [OF assms(1)] Begin_guarded [OF assms(1)] HealthCheck_guarded [OF assms(1)] QueryCached_guarded [OF assms(1)])

lemma rt_step_detector:
  assumes "runtime_inv rt" "rt_step drv (rt, w) e = ((rt', w'), a)" "detector_closed rt = Some b"
  shows "runtime_inv rt' \<and> detector_closed rt' = Some (b \<or> e = RDisconnect) \<and> answer_panics a = (b \<and> e = RDisconnect)"
proof -
  note g = rt_step_guarded [of "(rt, w)" drv e "((rt', w'))" a, simplified, OF assms(1,2)]
  consider "e = RConnect" | "e = RDisconnect" | "e \<noteq> RConnect \<and> e \<noteq> RDisconnect" by blast
  then show ?thesis
  proof cases
    case 1
    then obtain r where "Runtime_Connect drv (rt, w) = ((rt', w'), r)"
      using assms(2) by (cases "Runtime_Connect drv (rt, w)") auto
    from Connect_detector [OF this] 1 g assms(3) show ?thesis by auto
  next
    case 2
    then obtain r where r: "Runtime_Disconnect drv (rt, w) = ((rt', w'), r)" "a = AnsError r"
      using assms(2) by (cases "Runtime_Disconnect drv (rt, w)") auto
    from Disconnect_detector [OF r(1) assms(3)] 2 r(2) g show ?thesis by simp
  next
    case 3
    with other_step_detector [OF assms(1,2)] g assms(3) show ?thesis by auto
  qed
qed

lemma run_detector:
  assumes "runtime_inv rt" "detector_closed rt = Some b"
  shows "map answer_panics (snd (run (rt_step drv) (rt, w) es)) = later_disconnects b es"
  using assms
proof (induction es arbitrary: rt w b)
  case (Cons e es)
  obtain rt1 w1 a where s: "rt_step drv (rt, w) e = ((rt1, w1), a)" by (metis surj_pair)
  from rt_step_detector [OF Cons.prems(1) s Cons.prems(2)] Cons.IH [of rt1 "b \<or> e = RDisconnect" w1] s
  show ?case by (simp add: run_Cons del: run.simps(2))
qed simp

section \<open>Properties\<close>


definition cached_result :: "DBRuntime \<Rightarrow> time \<Rightarrow> string \<Rightarrow> cache_value option" where
  "cached_result rt t key = Option.bind (rt_cache rt) (cache_lookup t key)"

lemma QueryCached_hit:
  assumes "rt_cache rt = Some c" "cache_inv c" "key \<noteq> []"
    "cache_lookup (drv_Now drv w) key c = Some (QueryResult cols rows)"
  shows "QueryCached drv env ctx key ttl query args (rt, w) =
    ((rt\<lparr>rt_cache := Some (fst (InMemoryCache_Get (drv_Now drv w) key c))\<rparr>, w), Ret (Inr (cols, rows, True)))"
  using assms Get_result [of "drv_Now drv w" key c]
  by (cases "InMemoryCache_Get (drv_Now drv w) key c") (simp add: QueryCached_def cache_get_def)

lemma query_uncached_cache:
  assumes "runtime_inv rt" "query_uncached drv env ctx key ttl q args (rt, w) = ((rt', w'), Ret (Inr (cols, rows, b)))"
  shows "\<not> b \<and> (\<exists>w2 h. w' = drv_RowsClose drv h w2 \<and> rt_cache rt' = map_option (\<lambda>c.
    if key \<noteq> [] then fst (InMemoryCache_Set (drv_Now drv w2) key (QueryResult cols rows) ttl c) else c) (rt_cache rt))"
proof -
  obtain rt1 w1 r1 where q: "Runtime_Query drv env ctx q args (rt, w) = ((rt1, w1), r1)" by (metis surj_pair)
  have "rt_cache rt1 = rt_cache rt" using Query_guarded [OF assms(1) q] by simp
  with q assms(2) show ?thesis
    by (auto simp: query_uncached_def cache_put_def split: outcome.splits sum.splits option.splits prod.splits)
qed

lemma query_uncached_error:
  assumes "runtime_inv rt" "query_uncached drv env ctx key ttl q args (rt, w) = ((rt', w'), Ret (Inl err))"
  shows "rt_cache rt' = rt_cache rt"
proof -
  obtain rt1 w1 r1 where q: "Runtime_Query drv env ctx q args (rt, w) = ((rt1, w1), r1)" by (metis surj_pair)
  have "rt_cache rt1 = rt_cache rt" using Query_guarded [OF assms(1) q] by simp
  with q assms(2) show ?thesis
    by (auto simp: query_uncached_def split: outcome.splits sum.splits option.splits prod.splits)
qed

lemma QueryCached_miss:
  assumes "QueryCached drv env ctx key ttl q args (rt, w) = (st', Ret r)" "\<forall>cols rows. r \<noteq> Inr (cols, rows, True)"
    "rt_cache rt = Some c"
  shows "query_uncached drv env ctx key ttl q args
    (if key = [] then rt else rt\<lparr>rt_cache := Some (fst (InMemoryCache_Get (drv_Now drv w) key c))\<rparr>, w) = (st', Ret r)"
  using assms by (auto simp: QueryCached_def cache_get_def split: if_splits prod.splits option.splits cache_value.splits)

lemma Get_defaultTTL [simp]: "defaultTTL (fst (InMemoryCache_Get now k c)) = defaultTTL c"
  by (simp add: InMemoryCache_Get_def Let_def split: option.split)

lemma runtime_inv_cache_update [simp]: "runtime_inv (rt\<lparr>rt_cache := x\<rparr>) = runtime_inv rt"
  by (simp add: runtime_inv_def split: option.split)

text \<open>
  A query that \<open>QueryCached\<close> answered from the database is answered from the cache
  afterwards: until the entry expires (its lifetime is counted from a clock reading just before the rows
  are closed), every call with the same key returns the same columns and rows without touching
  the database, whatever its query.
\<close>

theorem cached_query_is_served:
  fixes drv :: "'w sql_driver"
  assumes "runtime_inv rt" and "rt_cache rt = Some c" and "cache_inv c" and "key \<noteq> []"
    and "QueryCached drv env ctx key ttl query args (rt, w) = ((rt', w'), Ret (Inr (cols, rows, False)))"
  shows "\<exists>w2 h. w' = drv_RowsClose drv h w2 \<and>
    (\<forall>(drv' :: 'w sql_driver) env' ctx' ttl' query' args' v.
       IsZero (effectiveExpire (drv_Now drv w2) ttl c) \<or> drv_Now drv' v \<le> effectiveExpire (drv_Now drv w2) ttl c \<longrightarrow>
       (\<exists>rt''. QueryCached drv' env' ctx' key ttl' query' args' (rt', v) = ((rt'', v), Ret (Inr (cols, rows, True)))))"
proof -
  let ?c = "fst (InMemoryCache_Get (drv_Now drv w) key c)"
  have inv: "cache_inv ?c" by (rule Get_inv [OF assms(3)])
  have "query_uncached drv env ctx key ttl query args (rt\<lparr>rt_cache := Some ?c\<rparr>, w) = ((rt', w'), Ret (Inr (cols, rows, False)))"
    using QueryCached_miss [OF assms(5) _ assms(2)] assms(4) by simp
  from query_uncached_cache [OF _ this] assms(1,4) obtain w2 h where w2: "w' = drv_RowsClose drv h w2"
    "rt_cache rt' = Some (fst (InMemoryCache_Set (drv_Now drv w2) key (QueryResult cols rows) ttl ?c))" by auto
  let ?d = "fst (InMemoryCache_Set (drv_Now drv w2) key (QueryResult cols rows) ttl ?c)"
  have exp: "effectiveExpire (drv_Now drv w2) ttl ?c = effectiveExpire (drv_Now drv w2) ttl c"
    by (simp add: effectiveExpire_def)
  have live: "IsZero (effectiveExpire (drv_Now drv w2) ttl c) \<or> t \<le> effectiveExpire (drv_Now drv w2) ttl c \<Longrightarrow>
      cache_lookup t key ?d = Some (QueryResult cols rows)" for t
    using lookup_Set [OF inv, of t key "drv_Now drv w2" key "QueryResult cols rows" ttl]
    by (auto simp: exp item_expired_def After_def)
  show ?thesis
    by (intro exI [of _ w2] exI [of _ h] conjI allI impI w2(1))
      (rule exI, rule QueryCached_hit [OF w2(2) Set_inv [OF inv] assms(4) live])
qed

text \<open>
  A query that fails is not cached: afterwards every key has the answer it had before, at
  any time from the call on.
\<close>

theorem failed_query_not_cached:
  assumes "runtime_inv rt" and "rt_cache rt = Some c" and "cache_inv c"
    and "QueryCached drv env ctx key ttl query args (rt, w) = ((rt', w'), Ret (Inl err))"
    and "drv_Now drv w \<le> t"
  shows "cached_result rt' t j = cached_result rt t j"
proof -
  let ?rt = "if key = [] then rt else rt\<lparr>rt_cache := Some (fst (InMemoryCache_Get (drv_Now drv w) key c))\<rparr>"
  have "query_uncached drv env ctx key ttl query args (?rt, w) = ((rt', w'), Ret (Inl err))"
    by (rule QueryCached_miss [OF assms(4) _ assms(2)]) simp
  then have "rt_cache rt' = rt_cache ?rt" by (rule query_uncached_error [rotated]) (simp add: assms(1))
  then show ?thesis
    using assms(2) mem_cache.get_keeps [OF assms(3,5), of j key] by (simp add: cached_result_def)
qed

text \<open>
  What \<open>database/sql\<close> documents of a result set with finitely many rows: \<open>pending\<close> are the rows that are still to come and
  \<open>current\<close> is the row the cursor is on. \<open>Next\<close> moves the cursor to the next row and says whether there is one; \<open>Scan\<close> copies the
  current row and moves nothing.
\<close>

definition cursor_ok ::
    "'w sql_driver \<Rightarrow> handle \<Rightarrow> nat \<Rightarrow> ('w \<Rightarrow> go_value list list) \<Rightarrow> ('w \<Rightarrow> go_value list) \<Rightarrow> bool" where
  "cursor_ok drv rows n pending current \<longleftrightarrow>
     (\<forall>w. pending w = [] \<longrightarrow> \<not> snd (drv_Next drv rows w)) \<and>
     (\<forall>w r rs. pending w = r # rs \<longrightarrow>
        snd (drv_Next drv rows w) \<and> pending (fst (drv_Next drv rows w)) = rs \<and> current (fst (drv_Next drv rows w)) = r) \<and>
     (\<forall>w. snd (drv_Scan drv rows n w) = Inr (current w) \<and> pending (fst (drv_Scan drv rows n w)) = pending w)"

text \<open>
  C15. On such a result set the loop of \<open>QueryCached\<close> returns, and its result is all the rows in
  order with every byte string turned into a string.
\<close>

theorem rows_are_read:
  assumes "cursor_ok drv rows n pending current"
  shows "\<exists>w'. read_rows drv rows n acc w = Some (w', Inr (acc @ map (map bytes_to_string) (pending w)))"
proof (induction "pending w" arbitrary: acc w)
  case Nil
  then have "\<not> snd (drv_Next drv rows w)" using assms by (simp add: cursor_ok_def)
  with Nil show ?case by (subst read_rows.simps) (simp add: split_beta)
next
  case (Cons r rs)
  let ?w1 = "fst (drv_Next drv rows w)" let ?w2 = "fst (drv_Scan drv rows n ?w1)"
  have next': "snd (drv_Next drv rows w)" "pending ?w1 = rs" "current ?w1 = r"
    using assms Cons.hyps(2) [symmetric] by (auto simp: cursor_ok_def)
  then have scan: "snd (drv_Scan drv rows n ?w1) = Inr r" "pending ?w2 = rs"
    using assms by (simp_all add: cursor_ok_def)
  have "read_rows drv rows n acc w = read_rows drv rows n (acc @ [map bytes_to_string r]) ?w2"
    by (subst read_rows.simps) (simp add: split_beta next' scan)
  with Cons.hyps(1) [of ?w2 "acc @ [map bytes_to_string r]"] scan(2) Cons.hyps(2) [symmetric] show ?case by simp
qed

section \<open>Witnesses\<close>

text \<open>An in-memory runtime with leak detection, opened on the sample driver.\<close>

definition sample_rc :: RuntimeConfig where
  "sample_rc = zero_RuntimeConfig
     \<lparr>rc_InMemoryMode := True, rc_EnableLeakDetection := True,
      rc_CircuitBreakerMaxFailures := MaxFailures sample_config,
      rc_CircuitBreakerResetTimeout := ResetTimeout sample_config,
      rc_CircuitBreakerHalfOpenTimeout := HalfOpenTimeout sample_config,
      rc_MaxRequestsPerSecond := MaxRequestsPerSecond sample_config,
      rc_MaxConcurrentConnections := MaxConcurrentConnections sample_config,
      rc_BackpressureMode := BackpressureMode sample_config, rc_BackpressureTimeout := BackpressureTimeout sample_config\<rparr>"

lemma sample_rc_gate: "gate_config sample_rc = sample_config"
  by (simp add: gate_config_def sample_rc_def)

definition sample_runtime :: DBRuntime where
  "sample_runtime = fst (fst (Runtime_Connect (sample_driver (Inr 9)) (NewDBRuntime (Time 1) (Some sample_rc), 0)))"

lemma sample_connection_config:
  "NewConnectionManager (connection_config sample_rc) =
     \<lparr>cm_db = None,
      cm_config = \<lparr>DatabaseType = ''sqlite'', DSN = [], MaxOpenConns = 25, MaxIdleConns = 5,
        ConnMaxLifetime = 30 * Minute, ConnMaxIdleTime = 10 * Minute, LeakDetectionThreshold = 10 * Minute,
        ValidationQuery = ''SELECT 1 FROM DUAL'', ValidationTimeout = 5 * Second, WarmupConnections = 0,
        WarmupTimeout = 0, ConnectionTimeout = 30 * Second, EnableMetrics = False, EnableLeakDetection = True\<rparr>,
      activeConnections = [], connectionID = 0,
      leakDetector = Some \<lparr>maxConnectionAge = 0, checkInterval = 30 * Second, stop_closed = False,
        leakCallback = False, watchers = 0\<rparr>,
      validator = \<lparr>validationQuery = [], cv_timeout = 0, cv_maxRetries = 3, cv_retryBackoff = 100 * Millisecond\<rparr>,
      warmupDone = False, warmups_started = 0\<rparr>"
  by (simp add: NewConnectionManager_def connection_config_def sample_rc_def zero_RuntimeConfig_def
      config_defaults_def db_types NewLeakDetector_def NewConnectionValidator_def)

lemma sample_new_runtime:
  "NewDBRuntime (Time 1) (Some sample_rc) =
      \<lparr>connManager = NewConnectionManager (connection_config sample_rc),
       rt_gate = NewConnectionGate (Time 1) (Some sample_config), advancedDB = None, rt_config = sample_rc,
       rt_cache = Some (NewInMemoryCache 10000 (300 * Second))\<rparr>"
  by (simp add: NewDBRuntime_def sample_rc_gate) (simp add: sample_rc_def zero_RuntimeConfig_def)

lemma sample_runtime_fields:
  "cm_db (connManager sample_runtime) = Some 7" "rt_gate sample_runtime = NewConnectionGate (Time 1) (Some sample_config)"
  "advancedDB sample_runtime = Some (NewAdvancedDB 7 (Some (db_config sample_rc)))"
  "rt_cache sample_runtime = Some (NewInMemoryCache 10000 (300 * Second))"
  unfolding sample_runtime_def Runtime_Connect_def sample_new_runtime ConnectionManager_Open_def sample_connection_config
  by (simp_all add: driver_name_def db_types sample_driver_def)

lemma sample_runtime_inv: "runtime_inv sample_runtime"
  by (simp add: runtime_inv_def sample_runtime_fields NewAdvancedDB_def db_config_def sample_rc_def zero_RuntimeConfig_def)


lemma sample_retryQuery:
  "retryQuery (sample_driver (Inr h)) (NewRetryPolicy config) db ctx q args w = (w + 1, Inr h)"
  using NewRetryPolicy_fields(4) [of config]
  by (subst retryQuery_def, subst retry_loop.simps) (simp add: sample_driver_def)

lemma NewAdvancedDB_fields:
  "retryPolicy (NewAdvancedDB db config) = NewRetryPolicy config" "adb_db (NewAdvancedDB db config) = db"
  by (simp_all add: NewAdvancedDB_def Let_def split: option.split)

lemma sample_rows: "read_rows (sample_driver r) rows (Suc 0) [] 4 = Some (6, Inr [[VString ''x'']])"
  by (subst read_rows.simps, simp add: sample_driver_def) (subst read_rows.simps, simp)

lemma sample_Query:
  "\<exists>rt'. Runtime_Query (sample_driver (Inr 9)) (sample_clock, [], SelSlot) None ''SELECT 1'' []
     (sample_runtime\<lparr>rt_cache := Some c\<rparr>, 3) = ((rt', 4), Ret (Inr 9)) \<and> rt_cache rt' = Some c"
  by (simp add: Runtime_Query_def IsConnected_def on_advancedDB_def sample_runtime_fields AdvancedDB_Query_def
      gated_def ExecuteWithGate_def sample_allow NewAdvancedDB_fields sample_retryQuery Let_def)
    (simp add: sample_driver_def)

lemma sample_QueryCached:
  "\<exists>rt'. QueryCached (sample_driver (Inr 9)) (sample_clock, [], SelSlot) None ''k'' 0 ''SELECT 1'' [] (sample_runtime, 3) =
     ((rt', 6), Ret (Inr ([''col''], [[VString ''x'']], False)))"
proof -
  let ?drv = "sample_driver (Inr 9)"
  let ?c = "fst (InMemoryCache_Get (Time 3) ''k'' (NewInMemoryCache 10000 (300 * Second)))"
  obtain rt1 where q: "Runtime_Query ?drv (sample_clock, [], SelSlot) None ''SELECT 1'' []
      (sample_runtime\<lparr>rt_cache := Some ?c\<rparr>, 3) = ((rt1, 4), Ret (Inr 9))" using sample_Query by blast
  have g: "cache_get (drv_Now ?drv 3) ''k'' sample_runtime = (sample_runtime\<lparr>rt_cache := Some ?c\<rparr>, None)"
    by (simp add: cache_get_def sample_runtime_fields InMemoryCache_Get_def sample_driver_def NewInMemoryCache_def)
  have "drv_Columns ?drv 9 4 = (4, Inr [''col''])" "drv_RowsErr ?drv 9 6 = (6, None)" "drv_RowsClose ?drv 9 6 = 6"
    by (simp_all add: sample_driver_def)
  then show ?thesis by (simp add: QueryCached_def g query_uncached_def q materialize_def sample_rows)
qed

theorem cached_query_is_served_witness:
  "\<exists>rt1 rt2. QueryCached (sample_driver (Inr 9)) (sample_clock, [], SelSlot) None ''k'' 0 ''SELECT 1'' [] (sample_runtime, 3) =
     ((rt1, 6), Ret (Inr ([''col''], [[VString ''x'']], False))) \<and>
   QueryCached (sample_driver (Inr 9)) (sample_clock, [], SelSlot) None ''k'' 0 ''SELECT 2'' [] (rt1, 100) =
     ((rt2, 100), Ret (Inr ([''col''], [[VString ''x'']], True)))"
proof -
  obtain rt1 where q: "QueryCached (sample_driver (Inr 9)) (sample_clock, [], SelSlot) None ''k'' 0 ''SELECT 1'' []
      (sample_runtime, 3) = ((rt1, 6), Ret (Inr ([''col''], [[VString ''x'']], False)))" using sample_QueryCached by blast
  have "drv_Now (sample_driver (Inr 9)) 100 \<le>
      effectiveExpire (drv_Now (sample_driver (Inr 9)) w2) 0 (NewInMemoryCache 10000 (300 * Second))" for w2
    by (simp add: sample_driver_def effectiveExpire_def NewInMemoryCache_def Second_def time_Add_def)
  with cached_query_is_served [OF sample_runtime_inv sample_runtime_fields(4) cache_inv_new _ q] show ?thesis
    using q by (metis list.distinct(1))
qed

theorem failed_query_not_cached_witness:
  "let rt = (NewDBRuntime (Time 1) (Some sample_rc))
         \<lparr>rt_cache := Some (fst (InMemoryCache_Set (Time 1) ''a'' (OtherValue (VInt 3)) 0 (NewInMemoryCache 2 0)))\<rparr>
   in cached_result (fst (fst (QueryCached (sample_driver (Inr 9)) (sample_clock, [], SelSlot) None ''k'' 0 ''SELECT 1'' []
        (rt, 5)))) (Time 6) ''a'' = Some (OtherValue (VInt 3))"
proof -
  let ?c = "fst (InMemoryCache_Set (Time 1) ''a'' (OtherValue (VInt 3)) 0 (NewInMemoryCache 2 0))"
  let ?rt = "(NewDBRuntime (Time 1) (Some sample_rc))\<lparr>rt_cache := Some ?c\<rparr>"
  have inv: "runtime_inv ?rt" "cache_inv ?c"
    by (simp_all add: sample_new_runtime sample_connection_config runtime_inv_def Set_inv cache_inv_new)
  obtain rt' w' where q: "QueryCached (sample_driver (Inr 9)) (sample_clock, [], SelSlot) None ''k'' 0 ''SELECT 1'' [] (?rt, 5) =
      ((rt', w'), Ret (Inl not_connected))"
    by (simp add: QueryCached_def cache_get_def InMemoryCache_Get_def InMemoryCache_Set_def NewInMemoryCache_def
        evict_if_full_def query_uncached_def Runtime_Query_def IsConnected_def sample_new_runtime sample_connection_config)
  have "effectiveExpire (Time 1) 0 (NewInMemoryCache 2 0 :: cache_value InMemoryCache) = zero_time"
    by (simp add: effectiveExpire_def NewInMemoryCache_def)
  then have "cached_result ?rt (Time 6) ''a'' = Some (OtherValue (VInt 3))"
    by (simp add: cached_result_def lookup_Set cache_inv_new item_expired_def IsZero_def)
  moreover have "drv_Now (sample_driver (Inr 9)) 5 \<le> Time 6" by (simp add: sample_driver_def)
  ultimately show ?thesis
    using failed_query_not_cached [OF inv(1) _ inv(2) q, of "Time 6" "''a''"] by (simp add: q)
qed

text \<open>
  A driver whose world is the number of rows that are still to come: \<open>Next\<close> takes one away, \<open>Scan\<close> reads what the
  cursor is on, a row with the number of rows after it.
\<close>

definition counting_driver :: "nat sql_driver" where
  "counting_driver = sample_driver (Inr 9)
     \<lparr>drv_Next := \<lambda>_ w. (w - 1, 0 < w), drv_Scan := \<lambda>_ _ w. (w, Inr [VBytes ''x'', VInt (int w)])\<rparr>"

definition countdown :: "nat \<Rightarrow> go_value list list" where
  "countdown w = map (\<lambda>i. [VBytes ''x'', VInt (int i)]) (rev [0..<w])"

lemma counting_cursor: "cursor_ok counting_driver 9 2 countdown (\<lambda>w. [VBytes ''x'', VInt (int w)])"
  unfolding cursor_ok_def
proof (intro conjI allI impI)
  fix w r rs
  assume "countdown w = r # rs"
  then show "snd (drv_Next counting_driver 9 w)" "countdown (fst (drv_Next counting_driver 9 w)) = rs"
    "[VBytes ''x'', VInt (int (fst (drv_Next counting_driver 9 w)))] = r"
    by (cases w; simp add: counting_driver_def countdown_def)+
qed (simp_all add: counting_driver_def countdown_def)

theorem rows_are_read_witness:
  "\<exists>w'. read_rows counting_driver 9 2 [] 2 = Some (w', Inr [[VString ''x'', VInt 1], [VString ''x'', VInt 0]])"
  using rows_are_read [OF counting_cursor, of "[]" 2] by (simp add: countdown_def upt_rec numeral_2_eq_2)

end
