(* ===== verification/Protocol.thy ===== *)
theory Protocol
  imports Runtime
begin

text \<open>
  The wire protocol of \<open>tcp_protocol.go\<close>: messages and responses, one JSON text per line. The
  texts themselves are those of \<open>encoding/json\<close>: a record \<open>json_codec\<close> holds what the program uses
  of it (\<open>Marshal\<close> and \<open>Unmarshal\<close> at the types it needs), and \<open>codec_ok\<close> states what is
  documented of them. Framing, that is the newline that is appended and the line scanner that
  reads it back, is modelled in full.
\<close>

section \<open>Messages\<close>

type_synonym MessageType = string

definition MessageTypeExec :: MessageType where "MessageTypeExec = ''EXEC''"
definition MessageTypeQuery :: MessageType where "MessageTypeQuery = ''QUERY''"
definition MessageTypePing :: MessageType where "MessageTypePing = ''PING''"
definition MessageTypeStats :: MessageType where "MessageTypeStats = ''STATS''"
definition MessageTypeMetrics :: MessageType where "MessageTypeMetrics = ''METRICS''"
definition MessageTypeClose :: MessageType where "MessageTypeClose = ''CLOSE''"

lemmas message_types = MessageTypeExec_def MessageTypeQuery_def MessageTypePing_def MessageTypeStats_def
  MessageTypeMetrics_def MessageTypeClose_def

record TCPMessage =
  msg_Type :: MessageType
  msg_ID :: string
  msg_Query :: string
  msg_Args :: "go_value list"
  msg_Payload :: string
  IdempotencyKey :: string
  ClientIP :: string
  RequestSize :: int64

record TCPResponse =
  resp_ID :: string
  resp_Success :: bool
  resp_Error :: string
  resp_Data :: string

record ExecResult =
  RowsAffected :: int64
  LastInsertID :: int64

record StatsResult =
  sr_MaxOpenConnections :: int
  sr_OpenConnections :: int
  sr_InUse :: int
  sr_Idle :: int
  sr_WaitCount :: int64
  sr_WaitDuration :: int64
  sr_MaxIdleClosed :: int64
  sr_MaxIdleTimeClosed :: int64
  sr_MaxLifetimeClosed :: int64

record MetricsResult =
  mr_TotalQueries :: int64
  mr_SuccessfulQueries :: int64
  mr_FailedQueries :: int64
  mr_SlowQueries :: int64
  mr_AverageQueryTime :: int64

text \<open>What the server marshals into the data of a response.\<close>

datatype reply_data =
    DStatus string
  | DExec ExecResult
  | DQuery "string list" "go_value list list"
  | DStats StatsResult
  | DMetrics MetricsResult

section \<open>JSON texts\<close>

record json_codec =
  marshal_message :: "TCPMessage \<Rightarrow> go_error + string"
  unmarshal_message :: "string \<Rightarrow> go_error + TCPMessage"
  marshal_response :: "TCPResponse \<Rightarrow> go_error + string"
  unmarshal_response :: "string \<Rightarrow> go_error + TCPResponse"
  marshal_data :: "reply_data \<Rightarrow> go_error + string"
  unmarshal_exec :: "string \<Rightarrow> go_error + ExecResult"
  unmarshal_query :: "string \<Rightarrow> go_error + string list \<times> go_value list list"
  unmarshal_stats :: "string \<Rightarrow> go_error + StatsResult"
  unmarshal_metrics :: "string \<Rightarrow> go_error + MetricsResult"

definition newline :: char where "newline = CHR 0x0A"
definition carriage_return :: char where "carriage_return = CHR 0x0D"

text \<open>
  What \<open>encoding/json\<close> promises: a text is compact, with no line break in it, and it is read back to the value
  it was made from, as long as that survives JSON. Numbers come back as \<open>float64\<close>, byte
  strings and times as strings, and text that is not UTF-8 is replaced, so the second part is
  claimed only of values without these.
\<close>

definition one_line :: "string \<Rightarrow> bool" where
  "one_line s \<longleftrightarrow> newline \<notin> set s \<and> carriage_return \<notin> set s"

definition ascii :: "string \<Rightarrow> bool" where
  "ascii s \<longleftrightarrow> (\<forall>c \<in> set s. of_char c < (128 :: int))"

fun json_native :: "go_value \<Rightarrow> bool" where
  "json_native VNil = True"
| "json_native (VBool b) = True"
| "json_native (VString s) = ascii s"
| "json_native (VFloat (Finite x)) = True"
| "json_native _ = False"

definition message_native :: "TCPMessage \<Rightarrow> bool" where
  "message_native m \<longleftrightarrow>
     ascii (msg_Type m) \<and> ascii (msg_ID m) \<and> ascii (msg_Query m) \<and> list_all json_native (msg_Args m) \<and>
     msg_Payload m = [] \<and> ascii (IdempotencyKey m) \<and> ascii (ClientIP m)"

definition response_native :: "json_codec \<Rightarrow> TCPResponse \<Rightarrow> bool" where
  "response_native cdc r \<longleftrightarrow>
     ascii (resp_ID r) \<and> ascii (resp_Error r) \<and>
     (resp_Data r = [] \<or> (\<exists>d. marshal_data cdc d = Inr (resp_Data r)))"

definition codec_ok :: "json_codec \<Rightarrow> bool" where
  "codec_ok cdc \<longleftrightarrow>
     (\<forall>m s. marshal_message cdc m = Inr s \<longrightarrow>
        one_line s \<and> (message_native m \<longrightarrow> unmarshal_message cdc s = Inr m)) \<and>
     (\<forall>r s. marshal_response cdc r = Inr s \<longrightarrow>
        one_line s \<and> (response_native cdc r \<longrightarrow> unmarshal_response cdc s = Inr r)) \<and>
     (\<forall>x s. marshal_data cdc (DExec x) = Inr s \<longrightarrow> unmarshal_exec cdc s = Inr x) \<and>
     (\<forall>x s. marshal_data cdc (DStats x) = Inr s \<longrightarrow> unmarshal_stats cdc s = Inr x) \<and>
     (\<forall>x s. marshal_data cdc (DMetrics x) = Inr s \<longrightarrow> unmarshal_metrics cdc s = Inr x) \<and>
     (\<forall>cols rows s. marshal_data cdc (DQuery cols rows) = Inr s \<longrightarrow>
        list_all ascii cols \<and> list_all (list_all json_native) rows \<longrightarrow> unmarshal_query cdc s = Inr (cols, rows))"

definition EncodeTCPMessage :: "json_codec \<Rightarrow> TCPMessage \<Rightarrow> go_error + string" where
  "EncodeTCPMessage cdc msg =
     (case marshal_message cdc msg of
        Inl err \<Rightarrow> Inl (ErrorfW ''failed to encode message: '' err [])
      | Inr data \<Rightarrow> Inr (data @ [newline]))"

definition DecodeTCPMessage :: "json_codec \<Rightarrow> string \<Rightarrow> go_error + TCPMessage" where
  "DecodeTCPMessage cdc data =
     (case unmarshal_message cdc data of
        Inl err \<Rightarrow> Inl (ErrorfW ''failed to decode message: '' err [])
      | Inr msg \<Rightarrow> Inr msg)"

definition EncodeTCPResponse :: "json_codec \<Rightarrow> TCPResponse \<Rightarrow> go_error + string" where
  "EncodeTCPResponse cdc resp =
     (case marshal_response cdc resp of
        Inl err \<Rightarrow> Inl (ErrorfW ''failed to encode response: '' err [])
      | Inr data \<Rightarrow> Inr (data @ [newline]))"

definition DecodeTCPResponse :: "json_codec \<Rightarrow> string \<Rightarrow> go_error + TCPResponse" where
  "DecodeTCPResponse cdc data =
     (case unmarshal_response cdc data of
        Inl err \<Rightarrow> Inl (ErrorfW ''failed to decode response: '' err [])
      | Inr resp \<Rightarrow> Inr resp)"

definition NewSuccessResponse :: "json_codec \<Rightarrow> string \<Rightarrow> reply_data \<Rightarrow> go_error + TCPResponse" where
  "NewSuccessResponse cdc i data =
     (case marshal_data cdc data of
        Inl err \<Rightarrow> Inl err
      | Inr payload \<Rightarrow> Inr \<lparr>resp_ID = i, resp_Success = True, resp_Error = [], resp_Data = payload\<rparr>)"

definition NewErrorResponse :: "string \<Rightarrow> go_error \<Rightarrow> TCPResponse" where
  "NewErrorResponse i err = \<lparr>resp_ID = i, resp_Success = False, resp_Error = error_text err, resp_Data = []\<rparr>"

section \<open>Lines\<close>

text \<open>
  The line scanner of \<open>bufio\<close> with the one-megabyte buffer that server and client give it: a line with
  its newline has to fit the buffer, otherwise scanning stops with an error (\<open>True\<close>). A carriage return
  before the newline is dropped; a last line need not be terminated.
\<close>

definition max_line :: nat where "max_line = 1024 * 1024"

definition drop_cr :: "string \<Rightarrow> string" where
  "drop_cr s = (if s \<noteq> [] \<and> last s = carriage_return then butlast s else s)"

function scan_lines :: "string \<Rightarrow> string list \<times> bool" where
  "scan_lines [] = ([], False)"
| "scan_lines (c # cs) =
     (let line = takeWhile (\<lambda>x. x \<noteq> newline) (c # cs); rest = dropWhile (\<lambda>x. x \<noteq> newline) (c # cs)
      in if length line \<ge> max_line then ([], True)
         else (case scan_lines (tl rest) of (ls, err) \<Rightarrow> (drop_cr line # ls, err)))"
  by pat_completeness auto
termination
proof (relation "measure length", goal_cases)
  case (2 c cs line rest)
  have "length rest \<le> length (c # cs)" unfolding 2(2) by (rule length_dropWhile_le)
  then show ?case by (simp add: le_diff_conv less_Suc_eq_le)
qed simp

declare scan_lines.simps [simp del]


lemma scan_lines_line:
  assumes "one_line s" "length s < max_line"
  shows "scan_lines (s @ newline # rest) = (case scan_lines rest of (ls, err) \<Rightarrow> (s # ls, err))"
proof -
  have s: "newline \<notin> set s" "carriage_return \<notin> set s" using assms(1) by (simp_all add: one_line_def)
  have tw: "takeWhile (\<lambda>x. x \<noteq> newline) (s @ newline # rest) = s"
    "dropWhile (\<lambda>x. x \<noteq> newline) (s @ newline # rest) = newline # rest"
    using s(1) by (auto simp: takeWhile_append dropWhile_append)
  have "drop_cr s = s" using s(2) by (metis drop_cr_def last_in_set)
  moreover obtain c cs where "s @ newline # rest = c # cs" by (cases s) auto
  ultimately show ?thesis
    using scan_lines.simps(2) [of c cs] tw assms(2) by simp
qed

text \<open>
  The lines that a sequence of texts, each followed by a newline, is read back to.
\<close>

lemma scan_lines_frames:
  "\<forall>s \<in> set ss. one_line s \<and> length s < max_line \<Longrightarrow>
   scan_lines (concat (map (\<lambda>s. s @ [newline]) ss)) = (ss, False)"
  by (induction ss) (simp_all add: scan_lines_line scan_lines.simps(1))

lemma map_eq_Inr: "map f xs = map Inr ys \<longleftrightarrow> list_all2 (\<lambda>x y. f x = Inr y) xs ys"
  by (induction xs arbitrary: ys; case_tac ys) auto

lemma EncodeTCPMessage_frame:
  assumes "codec_ok cdc" "message_native m" "EncodeTCPMessage cdc m = Inr f"
  shows "\<exists>t. f = t @ [newline] \<and> one_line t \<and> DecodeTCPMessage cdc t = Inr m"
proof -
  obtain t where "marshal_message cdc m = Inr t" "f = t @ [newline]"
    using assms(3) by (auto simp: EncodeTCPMessage_def split: sum.splits)
  with assms(1,2) show ?thesis by (simp add: codec_ok_def DecodeTCPMessage_def)
qed

lemma EncodeTCPResponse_frame:
  assumes "codec_ok cdc" "response_native cdc r" "EncodeTCPResponse cdc r = Inr f"
  shows "\<exists>t. f = t @ [newline] \<and> one_line t \<and> DecodeTCPResponse cdc t = Inr r"
proof -
  obtain t where "marshal_response cdc r = Inr t" "f = t @ [newline]"
    using assms(3) by (auto simp: EncodeTCPResponse_def split: sum.splits)
  with assms(1,2) show ?thesis by (simp add: codec_ok_def DecodeTCPResponse_def)
qed

section \<open>Properties\<close>

text \<open>
  C17. What one side writes the other side reads: if messages that survive JSON are encoded and their
  lines fit the buffer, the concatenation of the frames is scanned back to as many lines, without an error,
  and each line decodes to its message.
\<close>

theorem frames_round_trip:
  assumes "codec_ok cdc" and "map (EncodeTCPMessage cdc) msgs = map Inr frames"
    and "\<forall>f \<in> set frames. length f \<le> max_line" and "\<forall>m \<in> set msgs. message_native m"
  shows "map (DecodeTCPMessage cdc) (fst (scan_lines (concat frames))) = map Inr msgs \<and>
    \<not> snd (scan_lines (concat frames))"
proof -
  have enc: "list_all2 (\<lambda>m f. EncodeTCPMessage cdc m = Inr f) msgs frames" using assms(2) by (simp add: map_eq_Inr)
  have frame: "\<exists>t. f = t @ [newline] \<and> one_line t" if "f \<in> set frames" for f
  proof -
    have "Inr f \<in> set (map (EncodeTCPMessage cdc) msgs)" using that assms(2) by simp
    then obtain m where m: "m \<in> set msgs" "EncodeTCPMessage cdc m = Inr f" by auto
    from EncodeTCPMessage_frame [OF assms(1) _ m(2)] assms(4) m(1) show ?thesis by blast
  qed
  have "scan_lines (concat (map (\<lambda>s. s @ [newline]) (map butlast frames))) = (map butlast frames, False)"
  proof (rule scan_lines_frames, rule ballI)
    fix s
    assume "s \<in> set (map butlast frames)"
    then obtain f where f: "f \<in> set frames" "s = butlast f" by auto
    then obtain t where t: "f = t @ [newline]" "one_line t" using frame by blast
    have "length f \<le> max_line" using assms(3) f(1) by blast
    with t f(2) show "one_line s \<and> length s < max_line" by simp
  qed
  moreover have "butlast f @ [newline] = f" if "f \<in> set frames" for f using frame [OF that] by auto
  then have "map (\<lambda>s. s @ [newline]) (map butlast frames) = frames" by (simp add: map_idI)
  moreover have "DecodeTCPMessage cdc (butlast f) = Inr m" if "EncodeTCPMessage cdc m = Inr f" "message_native m" for m f
    using EncodeTCPMessage_frame [OF assms(1) that(2,1)] by auto
  then have "map (DecodeTCPMessage cdc) (map butlast frames) = map Inr msgs"
    using enc assms(4) by (simp add: map_eq_Inr list.rel_map list_all2_conv_all_nth)
  ultimately show ?thesis by simp
qed

section \<open>Witnesses\<close>

text \<open>A concrete codec: the texts of the values in a table, errors for all others.\<close>

definition table_encode :: "('a \<times> string) list \<Rightarrow> 'a \<Rightarrow> go_error + string" where
  "table_encode t v = (case map_of t v of None \<Rightarrow> Inl (ErrExt 2 ''json'') | Some s \<Rightarrow> Inr s)"

definition table_decode :: "('a \<times> string) list \<Rightarrow> string \<Rightarrow> go_error + 'a" where
  "table_decode t s = (case map_of (map prod.swap t) s of None \<Rightarrow> Inl (ErrExt 3 ''json'') | Some v \<Rightarrow> Inr v)"

definition table_codec ::
    "(TCPMessage \<times> string) list \<Rightarrow> (TCPResponse \<times> string) list \<Rightarrow> (ExecResult \<times> string) list \<Rightarrow> json_codec" where
  "table_codec ms rs xs =
     \<lparr>marshal_message = table_encode ms, unmarshal_message = table_decode ms,
      marshal_response = table_encode rs, unmarshal_response = table_decode rs,
      marshal_data = (\<lambda>d. case d of DExec x \<Rightarrow> table_encode xs x | _ \<Rightarrow> Inl (ErrExt 2 ''json'')),
      unmarshal_exec = table_decode xs, unmarshal_query = (\<lambda>s. Inl (ErrExt 3 ''json'')),
      unmarshal_stats = (\<lambda>s. Inl (ErrExt 3 ''json'')), unmarshal_metrics = (\<lambda>s. Inl (ErrExt 3 ''json''))\<rparr>"

lemmas table_defs = table_codec_def table_encode_def table_decode_def

definition sample_message :: TCPMessage where
  "sample_message =
     \<lparr>msg_Type = ''EXEC'', msg_ID = ''1'', msg_Query = ''INSERT'', msg_Args = [VString ''a''], msg_Payload = [],
      IdempotencyKey = ''k'', ClientIP = [], RequestSize = 0\<rparr>"

definition sample_response :: TCPResponse where
  "sample_response = \<lparr>resp_ID = ''1'', resp_Success = True, resp_Error = [], resp_Data = ''{x}''\<rparr>"

definition sample_exec_result :: ExecResult where
  "sample_exec_result = \<lparr>RowsAffected = 9, LastInsertID = 0\<rparr>"

definition sample_codec :: json_codec where
  "sample_codec = table_codec
     [(sample_message, ''{1}''), (sample_message\<lparr>msg_ID := ''2''\<rparr>, ''{2}'')]
     [(sample_response, ''{r}'')] [(sample_exec_result, ''{x}'')]"

lemma sample_codec_ok: "codec_ok sample_codec"
  by (auto simp: codec_ok_def sample_codec_def table_defs one_line_def newline_def carriage_return_def
      sample_message_def split: option.splits if_splits)

theorem frames_round_trip_witness:
  "map (DecodeTCPMessage sample_codec) (fst (scan_lines (''{1}'' @ newline # ''{2}'' @ [newline]))) =
     [Inr sample_message, Inr (sample_message\<lparr>msg_ID := ''2''\<rparr>)]"
proof -
  have "map (EncodeTCPMessage sample_codec) [sample_message, sample_message\<lparr>msg_ID := ''2''\<rparr>] =
      map Inr [''{1}'' @ [newline], ''{2}'' @ [newline]]"
    by (simp add: EncodeTCPMessage_def sample_codec_def table_defs sample_message_def)
  from frames_round_trip [OF sample_codec_ok this] show ?thesis
    by (simp add: max_line_def sample_message_def message_native_def ascii_def)
qed

end
