(* ===== verification/Server.thy ===== *)
theory Server
  imports Protocol
begin

text \<open>
  The TCP server of \<open>tcp_server.go\<close>: admission of connections and requests, the handling
  of messages, idempotency keys, start and stop. Handlers share the runtime, whose own parts synchronise, and the
  server's maps, which its mutex protects. \<open>handleMessage\<close> is the handling of one message in a row; handlers of different
  connections interleave between its two halves, \<open>check_message\<close> and \<open>dispatch\<close>, and the section on idempotency is about all such
  interleavings. What a handler writes to the connection is the list of frames it returns.
\<close>

section \<open>State\<close>

record TCPServerConfig =
  srv_Address :: string
  EnableIdempotency :: bool
  EnableDDoSProtection :: bool
  MaxRequestSize :: int64
  MaxConnectionsPerIP :: int
  RateLimitPerIP :: int64
  BlacklistedIPs :: "string list"
  WhitelistedIPs :: "string list"

record TCPServer =
  srv_config :: TCPServerConfig
  srv_runtime :: "DBRuntime option"
  listening :: bool
  clients :: "uint64 list"
  clientCounter :: uint64
  shutdown_closed :: bool
  ipConnections :: "string \<Rightarrow> int"
  ipRateLimits :: "string \<rightharpoonup> time"
  blacklistMap :: "string set"
  whitelistMap :: "string set"
  idempotencyCache :: "TCPResponse InMemoryCache option"

type_synonym 'w srv_state = "TCPServer \<times> 'w"

text \<open>The field \<open>Runtime\<close> of the configuration, which may be nil, is the first argument.\<close>

definition NewTCPServer :: "DBRuntime option \<Rightarrow> TCPServerConfig \<Rightarrow> TCPServer" where
  "NewTCPServer rt config =
     \<lparr>srv_config = config, srv_runtime = rt, listening = False, clients = [], clientCounter = 0,
      shutdown_closed = False, ipConnections = (\<lambda>_. 0), ipRateLimits = Map.empty,
      blacklistMap = set (BlacklistedIPs config), whitelistMap = set (WhitelistedIPs config),
      idempotencyCache = (if EnableIdempotency config then Some (NewInMemoryCache 10000 (300 * Second)) else None)\<rparr>"

section \<open>Start, stop, accept\<close>

text \<open>\<open>listen\<close> is what \<open>net.Listen\<close> returns.\<close>

definition Server_Start :: "go_error option \<Rightarrow> TCPServer \<Rightarrow> TCPServer \<times> go_error option" where
  "Server_Start listen s =
     (if listening s then (s, Some (Errorf ''server already started''))
      else case listen of
             Some err \<Rightarrow> (s, Some (ErrorfW ''failed to start TCP server: '' err []))
           | None \<Rightarrow> (s\<lparr>listening := True\<rparr>, None))"

text \<open>
  \<open>Stop\<close> holds the mutex while it waits for the handlers: \<open>waiting\<close> says that one of them
  wants the mutex at that moment. The handlers remove their clients.
\<close>

definition Server_Stop :: "bool \<Rightarrow> TCPServer \<Rightarrow> TCPServer \<times> go_error option outcome" where
  "Server_Stop waiting s =
     (if \<not> listening s then (s, Ret (Some (Errorf ''server not started'')))
      else if shutdown_closed s then (s, Panic ''close of closed channel'')
      else if waiting then (s\<lparr>shutdown_closed := True\<rparr>, Blocked)
      else (s\<lparr>shutdown_closed := True, clients := []\<rparr>, Ret None))"

text \<open>A connection has come in: it gets a number and a handler.\<close>

definition accept_client :: "TCPServer \<Rightarrow> TCPServer \<times> uint64" where
  "accept_client s =
     (let i = clientCounter s + 1 in (s\<lparr>clientCounter := i, clients := removeAll i (clients s) @ [i]\<rparr>, i))"

text \<open>
  The accept loop, driven by what \<open>Accept\<close> returns; the flags say whether the shutdown channel is closed when the
  loop looks, before the call and after an error. The result lists the clients whose handlers were
  started.
\<close>

datatype accept_result = AcceptTimeout | AcceptFailed go_error | Accepted

fun acceptLoop :: "(bool \<times> accept_result \<times> bool) list \<Rightarrow> TCPServer \<Rightarrow> TCPServer \<times> uint64 list" where
  "acceptLoop [] s = (s, [])"
| "acceptLoop ((down, r, down') # rs) s =
     (if down then (s, [])
      else case r of
             AcceptTimeout \<Rightarrow> acceptLoop rs s
           | AcceptFailed err \<Rightarrow> if down' then (s, []) else acceptLoop rs s
           | Accepted \<Rightarrow>
               (let (s1, i) = accept_client s; (s2, is) = acceptLoop rs s1 in (s2, i # is)))"

section \<open>Addresses\<close>

text \<open>\<open>net.SplitHostPort\<close>: the host in brackets, if it has colons itself, and the port after the last colon.\<close>

definition addr_error :: "string \<Rightarrow> string \<Rightarrow> go_error" where
  "addr_error why addr = ErrExt 6 (''address '' @ addr @ '': '' @ why)"

definition SplitHostPort :: "string \<Rightarrow> go_error + string \<times> string" where
  "SplitHostPort hostport =
     (if CHR '':'' \<notin> set hostport then Inl (addr_error ''missing port in address'' hostport)
      else
        (let port = rev (takeWhile (\<lambda>x. x \<noteq> CHR '':'') (rev hostport)); i = length hostport - length port - 1
         in if hd hostport = CHR ''['' then
              (if CHR '']'' \<notin> set hostport then Inl (addr_error ''missing ']' in address'' hostport)
               else
                 (let e = length (takeWhile (\<lambda>x. x \<noteq> CHR '']'') hostport)
                  in if e + 1 = length hostport then Inl (addr_error ''missing port in address'' hostport)
                     else if e + 1 \<noteq> i then
                       Inl (addr_error (if hostport ! (e + 1) = CHR '':'' then ''too many colons in address''
                                        else ''missing port in address'') hostport)
                     else if CHR ''['' \<in> set (drop 1 hostport) then Inl (addr_error ''unexpected '[' in address'' hostport)
                     else if CHR '']'' \<in> set (drop (e + 1) hostport) then Inl (addr_error ''unexpected ']' in address'' hostport)
                     else Inr (take (e - 1) (drop 1 hostport), port)))
            else
              (let host = take i hostport
               in if CHR '':'' \<in> set host then Inl (addr_error ''too many colons in address'' hostport)
                  else if CHR ''['' \<in> set hostport then Inl (addr_error ''unexpected '[' in address'' hostport)
                  else if CHR '']'' \<in> set hostport then Inl (addr_error ''unexpected ']' in address'' hostport)
                  else Inr (host, port))))"

text \<open>The address is that of \<open>conn.RemoteAddr()\<close>.\<close>

definition getClientIP :: "string \<Rightarrow> string" where
  "getClientIP addr = (case SplitHostPort addr of Inl err \<Rightarrow> addr | Inr (host, port) \<Rightarrow> host)"

text \<open>\<open>bound\<close> is the address the listener is bound to.\<close>

definition Server_GetAddress :: "string \<Rightarrow> TCPServer \<Rightarrow> string" where
  "Server_GetAddress bound s = (if listening s then bound else srv_Address (srv_config s))"

section \<open>Admission\<close>

definition allowConnection :: "string \<Rightarrow> TCPServer \<Rightarrow> TCPServer \<times> bool" where
  "allowConnection clientIP s =
     (if clientIP \<in> blacklistMap s then (s, False)
      else if whitelistMap s \<noteq> {} \<and> clientIP \<notin> whitelistMap s then (s, False)
      else if MaxConnectionsPerIP (srv_config s) > 0 then
        (if ipConnections s clientIP \<ge> MaxConnectionsPerIP (srv_config s) then (s, False)
         else (s\<lparr>ipConnections := (ipConnections s)(clientIP := ipConnections s clientIP + 1)\<rparr>, True))
      else (s, True))"

definition checkRateLimit :: "time \<Rightarrow> string \<Rightarrow> TCPServer \<Rightarrow> TCPServer \<times> bool" where
  "checkRateLimit now clientIP s =
     (if RateLimitPerIP (srv_config s) \<le> 0 then (s, True)
      else
        (case ipRateLimits s clientIP of
           None \<Rightarrow> (s\<lparr>ipRateLimits := (ipRateLimits s)(clientIP \<mapsto> now)\<rparr>, True)
         | Some lastRequest \<Rightarrow>
             if time_Sub now lastRequest < Second then (s, False)
             else (s\<lparr>ipRateLimits := (ipRateLimits s)(clientIP \<mapsto> now)\<rparr>, True)))"

section \<open>Responses\<close>

definition sendResponse :: "json_codec \<Rightarrow> TCPResponse \<Rightarrow> string list" where
  "sendResponse cdc resp = (case EncodeTCPResponse cdc resp of Inl err \<Rightarrow> [] | Inr data \<Rightarrow> [data])"

definition sendError :: "json_codec \<Rightarrow> string \<Rightarrow> go_error \<Rightarrow> string list" where
  "sendError cdc i err = sendResponse cdc (NewErrorResponse i err)"

text \<open>The common end of the handlers: the data as a response, or an error if it cannot be marshalled.\<close>

definition reply :: "json_codec \<Rightarrow> string \<Rightarrow> reply_data \<Rightarrow> string list \<times> TCPResponse option" where
  "reply cdc i data =
     (case NewSuccessResponse cdc i data of
        Inl err \<Rightarrow> (sendError cdc i err, None)
      | Inr resp \<Rightarrow> (sendResponse cdc resp, Some resp))"

definition checkIdempotency :: "time \<Rightarrow> TCPMessage \<Rightarrow> TCPServer \<Rightarrow> TCPServer \<times> TCPResponse option" where
  "checkIdempotency now msg s =
     (case idempotencyCache s of
        None \<Rightarrow> (s, None)
      | Some c \<Rightarrow>
          if IdempotencyKey msg = [] then (s, None)
          else (case InMemoryCache_Get now (IdempotencyKey msg) c of
                  (c1, r) \<Rightarrow> (s\<lparr>idempotencyCache := Some c1\<rparr>, r)))"

definition storeIdempotency :: "time \<Rightarrow> TCPMessage \<Rightarrow> TCPResponse option \<Rightarrow> TCPServer \<Rightarrow> TCPServer" where
  "storeIdempotency now msg response s =
     (case (idempotencyCache s, response) of
        (Some c, Some resp) \<Rightarrow>
          if IdempotencyKey msg = [] then s
          else s\<lparr>idempotencyCache :=
                   Some (fst (InMemoryCache_Set now (IdempotencyKey msg) resp (300 * Second) c))\<rparr>
      | _ \<Rightarrow> s)"

section \<open>Handlers\<close>

definition handlePing :: "json_codec \<Rightarrow> TCPMessage \<Rightarrow> string list" where
  "handlePing cdc msg = fst (reply cdc (msg_ID msg) (DStatus ''ok''))"

text \<open>A method call on \<open>s.runtime\<close>, which panics if there is none.\<close>

definition with_runtime ::
    "('w rt_state \<Rightarrow> 'w rt_state \<times> 'a outcome) \<Rightarrow> 'w srv_state \<Rightarrow> 'w srv_state \<times> 'a outcome" where
  "with_runtime f = (\<lambda>(s, w).
     (case srv_runtime s of
        None \<Rightarrow> ((s, w), Panic nil_dereference)
      | Some rt \<Rightarrow> (case f (rt, w) of ((rt1, w1), r) \<Rightarrow> ((s\<lparr>srv_runtime := Some rt1\<rparr>, w1), r))))"

definition handleExec ::
    "json_codec \<Rightarrow> 'w sql_driver \<Rightarrow> gate_env \<Rightarrow> TCPMessage \<Rightarrow> 'w srv_state \<Rightarrow>
     'w srv_state \<times> (string list \<times> TCPResponse option) outcome" where
  "handleExec cdc drv env msg st =
     (case with_runtime (Runtime_Exec drv env None (msg_Query msg) (msg_Args msg)) st of
        (st1, Panic m) \<Rightarrow> (st1, Panic m)
      | (st1, Blocked) \<Rightarrow> (st1, Blocked)
      | (st1, Ret (Inl err)) \<Rightarrow> (st1, Ret (sendError cdc (msg_ID msg) err, None))
      | ((s1, w1), Ret (Inr result)) \<Rightarrow>
          ((s1, w1),
           Ret (reply cdc (msg_ID msg)
                  (DExec \<lparr>RowsAffected = drv_RowsAffected drv result w1,
                          LastInsertID = drv_LastInsertId drv result w1\<rparr>))))"

definition handleQuery ::
    "json_codec \<Rightarrow> 'w sql_driver \<Rightarrow> gate_env \<Rightarrow> TCPMessage \<Rightarrow> 'w srv_state \<Rightarrow>
     'w srv_state \<times> (string list \<times> TCPResponse option) outcome" where
  "handleQuery cdc drv env msg st =
     (case with_runtime (Runtime_Query drv env None (msg_Query msg) (msg_Args msg)) st of
        (st1, Panic m) \<Rightarrow> (st1, Panic m)
      | (st1, Blocked) \<Rightarrow> (st1, Blocked)
      | (st1, Ret (Inl err)) \<Rightarrow> (st1, Ret (sendError cdc (msg_ID msg) err, None))
      | ((s1, w1), Ret (Inr rows)) \<Rightarrow>
          (case materialize drv rows w1 of
             None \<Rightarrow> ((s1, w1), Blocked)
           | Some (w2, Inl err) \<Rightarrow>
               ((s1, drv_RowsClose drv rows w2), Ret (sendError cdc (msg_ID msg) err, None))
           | Some (w2, Inr (columns, results)) \<Rightarrow>
               ((s1, drv_RowsClose drv rows w2), Ret (reply cdc (msg_ID msg) (DQuery columns results)))))"

definition handleStats :: "json_codec \<Rightarrow> 'w sql_driver \<Rightarrow> TCPMessage \<Rightarrow> 'w srv_state \<Rightarrow> string list outcome" where
  "handleStats cdc drv msg = (\<lambda>(s, w).
     bind_outcome (snd (with_runtime (\<lambda>st. (st, Runtime_Stats drv st)) (s, w))) (\<lambda>st.
       Ret (fst (reply cdc (msg_ID msg)
         (DStats \<lparr>sr_MaxOpenConnections = MaxOpenConnections st, sr_OpenConnections = OpenConnections st,
                  sr_InUse = InUse st, sr_Idle = Idle st, sr_WaitCount = WaitCount st,
                  sr_WaitDuration = WaitDuration st, sr_MaxIdleClosed = MaxIdleClosed st,
                  sr_MaxIdleTimeClosed = MaxIdleTimeClosed st,
                  sr_MaxLifetimeClosed = MaxLifetimeClosed st\<rparr>)))))"

definition handleMetrics :: "json_codec \<Rightarrow> TCPMessage \<Rightarrow> TCPServer \<Rightarrow> string list outcome" where
  "handleMetrics cdc msg s =
     bind_outcome (snd (with_runtime (\<lambda>st. (st, Runtime_Metrics (fst st))) (s, ()))) (\<lambda>m.
       Ret (fst (reply cdc (msg_ID msg)
         (DMetrics \<lparr>mr_TotalQueries = ms_TotalQueries m, mr_SuccessfulQueries = ms_SuccessfulQueries m,
                    mr_FailedQueries = ms_FailedQueries m, mr_SlowQueries = ms_SlowQueries m,
                    mr_AverageQueryTime = AverageQueryTime m\<rparr>))))"

text \<open>The end of the \<open>EXEC\<close> and \<open>QUERY\<close> cases: the response is kept for its idempotency key.\<close>

definition finish ::
    "'w sql_driver \<Rightarrow> TCPMessage \<Rightarrow> 'w srv_state \<times> (string list \<times> TCPResponse option) outcome \<Rightarrow>
     'w srv_state \<times> string list outcome" where
  "finish drv msg = (\<lambda>((s, w), r).
     (case r of
        Panic m \<Rightarrow> ((s, w), Panic m)
      | Blocked \<Rightarrow> ((s, w), Blocked)
      | Ret (out, response) \<Rightarrow>
          ((if EnableIdempotency (srv_config s) \<and> IdempotencyKey msg \<noteq> []
            then storeIdempotency (drv_Now drv w) msg response s else s, w), Ret out)))"

definition dispatch ::
    "json_codec \<Rightarrow> 'w sql_driver \<Rightarrow> gate_env \<Rightarrow> TCPMessage \<Rightarrow> 'w srv_state \<Rightarrow> 'w srv_state \<times> string list outcome" where
  "dispatch cdc drv env msg st =
     (if msg_Type msg = MessageTypePing then (st, Ret (handlePing cdc msg))
      else if msg_Type msg = MessageTypeExec then finish drv msg (handleExec cdc drv env msg st)
      else if msg_Type msg = MessageTypeQuery then finish drv msg (handleQuery cdc drv env msg st)
      else if msg_Type msg = MessageTypeStats then (st, handleStats cdc drv msg st)
      else if msg_Type msg = MessageTypeMetrics then (st, handleMetrics cdc msg (fst st))
      else (st, Ret (sendError cdc (msg_ID msg) (Errorf (''unknown message type: '' @ msg_Type msg)))))"

definition handleMessage ::
    "json_codec \<Rightarrow> 'w sql_driver \<Rightarrow> gate_env \<Rightarrow> string \<Rightarrow> TCPMessage \<Rightarrow> 'w srv_state \<Rightarrow>
     'w srv_state \<times> string list outcome" where
  "handleMessage cdc drv env clientIP msg0 = (\<lambda>(s, w).
     (let msg = msg0\<lparr>ClientIP := clientIP\<rparr>; cfg = srv_config s
      in if EnableDDoSProtection cfg \<and> MaxRequestSize cfg > 0 \<and> RequestSize msg > MaxRequestSize cfg
         then ((s, w), Ret (sendError cdc (msg_ID msg)
                 (Errorf (''request too large: '' @ show_int (RequestSize msg) @ '' bytes''))))
         else
           (let (s1, ok) = (if EnableDDoSProtection cfg then checkRateLimit (drv_Now drv w) clientIP s else (s, True))
            in if \<not> ok
               then ((s1, w), Ret (sendError cdc (msg_ID msg) (Errorf (''rate limit exceeded for IP: '' @ clientIP))))
               else
                 (let (s2, cached) =
                        (if EnableIdempotency cfg \<and> IdempotencyKey msg \<noteq> []
                         then checkIdempotency (drv_Now drv w) msg s1 else (s1, None))
                  in case cached of
                       Some result \<Rightarrow> ((s2, w), Ret (sendResponse cdc result))
                     | None \<Rightarrow> dispatch cdc drv env msg (s2, w)))))"

text \<open>
  The handlers of different connections run at the same time, and the locks of the two checks are released before a message is
  dispatched, so that other messages are handled in between. \<open>check_message\<close> is the first half of \<open>handleMessage\<close>, which may answer
  the message already, and \<open>dispatch\<close> the second; \<open>handleMessage\<close> is the two in a row. A \<open>msg_step\<close> is one half of the handling of one
  message, in the world it meets, and a run of \<open>message_step\<close> any interleaving of such halves.
\<close>

definition check_message ::
    "json_codec \<Rightarrow> 'w sql_driver \<Rightarrow> string \<Rightarrow> TCPMessage \<Rightarrow> 'w srv_state \<Rightarrow> TCPServer \<times> string list option" where
  "check_message cdc drv clientIP msg0 = (\<lambda>(s, w).
     (let msg = msg0\<lparr>ClientIP := clientIP\<rparr>; cfg = srv_config s
      in if EnableDDoSProtection cfg \<and> MaxRequestSize cfg > 0 \<and> RequestSize msg > MaxRequestSize cfg
         then (s, Some (sendError cdc (msg_ID msg)
                 (Errorf (''request too large: '' @ show_int (RequestSize msg) @ '' bytes''))))
         else
           (let (s1, ok) = (if EnableDDoSProtection cfg then checkRateLimit (drv_Now drv w) clientIP s else (s, True))
            in if \<not> ok
               then (s1, Some (sendError cdc (msg_ID msg) (Errorf (''rate limit exceeded for IP: '' @ clientIP))))
               else
                 (let (s2, cached) =
                        (if EnableIdempotency cfg \<and> IdempotencyKey msg \<noteq> []
                         then checkIdempotency (drv_Now drv w) msg s1 else (s1, None))
                  in (s2, map_option (sendResponse cdc) cached)))))"

datatype 'w msg_step = Checks string TCPMessage 'w | Dispatches gate_env TCPMessage 'w

fun message_step :: "json_codec \<Rightarrow> 'w sql_driver \<Rightarrow> TCPServer \<Rightarrow> 'w msg_step \<Rightarrow> TCPServer \<times> ('w \<times> string list outcome option)" where
  "message_step cdc drv s (Checks ip msg v) = (case check_message cdc drv ip msg (s, v) of (s1, out) \<Rightarrow> (s1, (v, map_option Ret out)))"
| "message_step cdc drv s (Dispatches env msg v) = (case dispatch cdc drv env msg (s, v) of ((s1, v1), r) \<Rightarrow> (s1, (v1, Some r)))"

text \<open>
  The loop over the lines of a connection, each with what the gate meets while its message is
  handled. It ends at the end of the input, at a message that closes the connection, or when the server shuts
  down.
\<close>

fun client_loop ::
    "json_codec \<Rightarrow> 'w sql_driver \<Rightarrow> string \<Rightarrow> (gate_env \<times> string) list \<Rightarrow> 'w srv_state \<Rightarrow>
     'w srv_state \<times> string list outcome" where
  "client_loop cdc drv clientIP [] st = (st, Ret [])"
| "client_loop cdc drv clientIP ((env, data) # lines) st =
     (if shutdown_closed (fst st) then (st, Ret [])
      else
        (case DecodeTCPMessage cdc data of
           Inl err \<Rightarrow> map_prod id (\<lambda>r. bind_outcome r (\<lambda>out. Ret (sendError cdc [] err @ out)))
                        (client_loop cdc drv clientIP lines st)
         | Inr msg0 \<Rightarrow>
             (let msg = msg0\<lparr>RequestSize := int (length data), ClientIP := clientIP\<rparr>;
                  (st1, r) = handleMessage cdc drv env clientIP msg st
              in case r of
                   Ret out \<Rightarrow>
                     if msg_Type msg = MessageTypeClose then (st1, Ret out)
                     else map_prod id (\<lambda>r. bind_outcome r (\<lambda>out'. Ret (out @ out')))
                            (client_loop cdc drv clientIP lines st1)
                 | Panic m \<Rightarrow> (st1, Panic m)
                 | Blocked \<Rightarrow> (st1, Blocked))))"

definition handleClient ::
    "json_codec \<Rightarrow> 'w sql_driver \<Rightarrow> uint64 \<Rightarrow> string \<Rightarrow> (gate_env \<times> string) list \<Rightarrow> 'w srv_state \<Rightarrow>
     'w srv_state \<times> string list outcome" where
  "handleClient cdc drv clientID clientIP lines = (\<lambda>(s, w).
     (let (s1, ok) = (if EnableDDoSProtection (srv_config s) then allowConnection clientIP s else (s, True));
          ((s2, w2), r) = (if ok then client_loop cdc drv clientIP lines (s1, w) else ((s1, w), Ret []))
      in ((case r of Blocked \<Rightarrow> s2 | _ \<Rightarrow> s2\<lparr>clients := removeAll clientID (clients s2)\<rparr>, w2), r)))"

definition GetClientCount :: "TCPServer \<Rightarrow> int" where
  "GetClientCount s = int (length (clients s))"

section \<open>Accepted connections\<close>

lemma acceptLoop_clients:
  "set (clients (fst (acceptLoop rs s))) = set (clients s) \<union> set (snd (acceptLoop rs s))"
  by (induction rs s rule: acceptLoop.induct)
    (auto simp: accept_client_def Let_def split: accept_result.splits prod.splits)

section \<open>Addresses of clients\<close>

definition plain_host :: "string \<Rightarrow> bool" where
  "plain_host h \<longleftrightarrow> CHR ''['' \<notin> set h \<and> CHR '']'' \<notin> set h"

lemma port_of_address:
  "CHR '':'' \<notin> set port \<Longrightarrow> rev (takeWhile (\<lambda>x. x \<noteq> CHR '':'') (rev (pre @ CHR '':'' # port))) = port"
  by (auto simp: takeWhile_append)

lemma getClientIP_ipv4:
  assumes "plain_host host" "CHR '':'' \<notin> set host" "plain_host port" "CHR '':'' \<notin> set port"
  shows "getClientIP (host @ CHR '':'' # port) = host"
proof -
  have "hd (host @ CHR '':'' # port) \<noteq> CHR ''[''"
    using assms(1) by (cases host) (auto simp: plain_host_def)
  with assms port_of_address [OF assms(4), of host] show ?thesis
    by (simp add: getClientIP_def SplitHostPort_def plain_host_def Let_def)
qed

lemma getClientIP_ipv6:
  assumes "plain_host host" "plain_host port" "CHR '':'' \<notin> set port"
  shows "getClientIP (CHR ''['' # host @ CHR '']'' # CHR '':'' # port) = host"
proof -
  have "takeWhile (\<lambda>x. x \<noteq> CHR '']'') (CHR ''['' # host @ CHR '']'' # CHR '':'' # port) = CHR ''['' # host"
    using assms(1) by (auto simp: plain_host_def takeWhile_append)
  with assms port_of_address [OF assms(3), of "CHR ''['' # host @ [CHR '']'']"] show ?thesis
    by (simp add: getClientIP_def SplitHostPort_def plain_host_def Let_def)
qed

section \<open>Connections per address\<close>

definition connect_step :: "TCPServer \<Rightarrow> string \<Rightarrow> TCPServer \<times> (string \<times> bool)" where
  "connect_step s clientIP = (case allowConnection clientIP s of (s1, ok) \<Rightarrow> (s1, (clientIP, ok)))"

definition admitted :: "string \<Rightarrow> TCPServer \<Rightarrow> nat \<Rightarrow> bool" where
  "admitted ip s h \<longleftrightarrow>
     0 < MaxConnectionsPerIP (srv_config s) \<and> ipConnections s ip = int h \<and> int h \<le> MaxConnectionsPerIP (srv_config s)"

interpretation admissions: counted_machine connect_step "\<lambda>(i, ok). i = ip \<and> ok" "admitted ip"
  "\<lambda>s. nat (MaxConnectionsPerIP (srv_config s))" for ip
  by unfold_locales (auto simp: connect_step_def allowConnection_def admitted_def split: if_splits)

section \<open>Request rate per address\<close>

definition rate_check_step :: "string \<Rightarrow> TCPServer \<Rightarrow> time \<Rightarrow> TCPServer \<times> bool" where
  "rate_check_step ip s now = checkRateLimit now ip s"

definition accepted_times :: "time list \<Rightarrow> bool list \<Rightarrow> time list" where
  "accepted_times ts oks = map fst (filter snd (zip ts oks))"

lemma accepted_after:
  assumes "0 < RateLimitPerIP (srv_config s)"
    and "t \<in> set (accepted_times ts (snd (run (rate_check_step ip) s ts)))" and "ipRateLimits s ip = Some t0"
  shows "time_Add t0 Second \<le> t"
  using assms
proof (induction ts arbitrary: s t0)
  case (Cons u us)
  let ?s = "fst (rate_check_step ip s u)"
  have cfg: "0 < RateLimitPerIP (srv_config ?s)"
    using Cons.prems(1) by (auto simp: rate_check_step_def checkRateLimit_def split: option.splits)
  show ?case
  proof (cases "time_Sub u t0 < Second")
    case True
    then have "rate_check_step ip s u = (s, False)"
      using Cons.prems by (simp add: rate_check_step_def checkRateLimit_def)
    with Cons show ?thesis by (simp add: accepted_times_def run_Cons del: run.simps(2))
  next
    case False
    have u: "time_Add t0 Second \<le> u"
      using False time_Sub_gt_iff [of "Second - 1" u t0]
      by (simp add: time_le_nanos Second_def in_int64_def)
    have step: "rate_check_step ip s u = (s\<lparr>ipRateLimits := (ipRateLimits s)(ip \<mapsto> u)\<rparr>, True)"
      using False Cons.prems by (simp add: rate_check_step_def checkRateLimit_def)
    with Cons.prems(2) have "t = u \<or> t \<in> set (accepted_times us (snd (run (rate_check_step ip) ?s us)))"
      by (auto simp: accepted_times_def run_Cons simp del: run.simps(2))
    moreover have "t \<in> set (accepted_times us (snd (run (rate_check_step ip) ?s us))) \<Longrightarrow> time_Add u Second \<le> t"
      using Cons.IH [OF cfg, of u] step by simp
    moreover have "time_Add u Second \<le> t \<Longrightarrow> time_Add t0 Second \<le> t"
      using u by (simp add: time_le_nanos Second_def)
    ultimately show ?thesis using u by auto
  qed
qed (simp add: accepted_times_def)

lemma accepted_spaced:
  assumes "0 < RateLimitPerIP (srv_config s)"
  shows "sorted_wrt (\<lambda>t u. time_Add t Second \<le> u) (accepted_times ts (snd (run (rate_check_step ip) s ts)))"
  using assms
proof (induction ts arbitrary: s)
  case (Cons u us)
  obtain s1 ok where step: "rate_check_step ip s u = (s1, ok)" by (metis surj_pair)
  have cfg: "0 < RateLimitPerIP (srv_config s1)" and ok: "ok \<Longrightarrow> ipRateLimits s1 ip = Some u"
    using step Cons.prems by (auto simp: rate_check_step_def checkRateLimit_def split: option.splits if_splits)
  from Cons.IH [OF cfg] accepted_after [OF cfg _ ok] step show ?case
    by (auto simp: accepted_times_def run_Cons simp del: run.simps(2))
qed (simp add: accepted_times_def)

section \<open>What handling a message leaves alone\<close>

lemma ipConnections_admission [simp]:
  "ipConnections (fst (checkRateLimit now ip s)) = ipConnections s"
  "ipConnections (fst (checkIdempotency now msg s)) = ipConnections s"
  "ipConnections (storeIdempotency now msg r s) = ipConnections s"
  by (auto simp: checkRateLimit_def checkIdempotency_def storeIdempotency_def split: option.split prod.split)

text \<open>A handler changes the runtime of its server and nothing else.\<close>

lemma with_runtime_frame: "with_runtime f (s, w) = ((s', w'), r) \<Longrightarrow> \<exists>x. s' = s\<lparr>srv_runtime := x\<rparr>"
  by (auto simp: with_runtime_def split: option.splits prod.splits intro: exI [of _ "srv_runtime s"])

lemma handler_changes:
  "handleExec cdc drv env msg (s, w) = ((s', w'), r) \<Longrightarrow> \<exists>x. s' = s\<lparr>srv_runtime := x\<rparr>"
  "handleQuery cdc drv env msg (s, w) = ((s', w'), r) \<Longrightarrow> \<exists>x. s' = s\<lparr>srv_runtime := x\<rparr>"
  by (auto simp: handleExec_def handleQuery_def dest: with_runtime_frame
      split: prod.splits outcome.splits sum.splits option.splits)

lemma ipConnections_handlers:
  "ipConnections (fst (fst (handleExec cdc drv env msg (s, w)))) = ipConnections s"
  "ipConnections (fst (fst (handleQuery cdc drv env msg (s, w)))) = ipConnections s"
  using handler_changes(1) [of cdc drv env msg s w] handler_changes(2) [of cdc drv env msg s w]
  by (cases "handleExec cdc drv env msg (s, w)"; cases "handleQuery cdc drv env msg (s, w)"; force)+

lemma ipConnections_finish: "ipConnections (fst (fst (finish drv msg x))) = ipConnections (fst (fst x))"
  by (simp add: finish_def split: prod.split outcome.split)

lemma ipConnections_dispatch: "ipConnections (fst (fst (dispatch cdc drv env msg (s, w)))) = ipConnections s"
  by (simp add: dispatch_def ipConnections_finish ipConnections_handlers)

lemma ipConnections_handleMessage:
  "ipConnections (fst (fst (handleMessage cdc drv env ip msg (s, w)))) = ipConnections s"
proof -
  let ?m = "msg\<lparr>ClientIP := ip\<rparr>"
  obtain s1 ok where c1: "(if EnableDDoSProtection (srv_config s) then checkRateLimit (drv_Now drv w) ip s else (s, True)) =
      (s1, ok)" by (metis surj_pair)
  obtain s2 r where c2: "(if EnableIdempotency (srv_config s) \<and> IdempotencyKey ?m \<noteq> []
      then checkIdempotency (drv_Now drv w) ?m s1 else (s1, None)) = (s2, r)" by (metis surj_pair)
  have "ipConnections s1 = ipConnections s"
    using c1 ipConnections_admission(1) [of "drv_Now drv w" ip s] by (simp del: ipConnections_admission split: if_splits)
  moreover have "ipConnections s2 = ipConnections s1"
    using c2 ipConnections_admission(2) [of "drv_Now drv w" ?m s1] by (simp del: ipConnections_admission split: if_splits)
  ultimately show ?thesis
    unfolding handleMessage_def Let_def prod.case c1 c2
    by (simp add: ipConnections_dispatch split: option.split)
qed

lemma ipConnections_client_loop:
  "ipConnections (fst (fst (client_loop cdc drv ip lines st))) = ipConnections (fst st)"
proof (induction lines arbitrary: st)
  case (Cons l lines)
  obtain env data where l: "l = (env, data)" by (cases l)
  obtain s w where st: "st = (s, w)" by (cases st)
  show ?case
    using Cons.IH ipConnections_handleMessage [of cdc drv env ip _ s w]
    by (auto simp: l st Let_def split: sum.split prod.split outcome.split) (metis fst_conv)+
qed simp

lemma handleClient_ipConnections:
  "ipConnections s j \<le> ipConnections (fst (fst (handleClient cdc drv cid ip lines (s, w)))) j"
proof -
  let ?a = "if EnableDDoSProtection (srv_config s) then allowConnection ip s else (s, True)"
  have "ipConnections s j \<le> ipConnections (fst ?a) j" by (simp add: allowConnection_def)
  moreover have "ipConnections (fst (fst (handleClient cdc drv cid ip lines (s, w)))) = ipConnections (fst ?a)"
    using ipConnections_client_loop [of cdc drv ip lines "(fst ?a, w)"]
    by (cases ?a) (auto simp: handleClient_def Let_def split: prod.split outcome.split)
  ultimately show ?thesis by simp
qed

section \<open>Properties\<close>

text \<open>
  C18. The server admits at most \<open>MaxConnectionsPerIP\<close> connections of one address over its whole
  life, not at a time: the count of an address is never reduced, so once it is reached
  the address is refused for good, also after all its connections have ended.
\<close>

theorem connections_per_ip_bound:
  assumes "0 < MaxConnectionsPerIP config"
  shows "int (length (filter (\<lambda>(i, ok). i = ip \<and> ok)
      (snd (run connect_step (NewTCPServer rt config) ips)))) \<le> MaxConnectionsPerIP config \<and>
    ipConnections (fst (fst (handleClient cdc drv cid ip' lines (s, w)))) j \<ge> ipConnections s j"
proof -
  have "admitted ip (NewTCPServer rt config) 0" using assms by (simp add: admitted_def NewTCPServer_def)
  from admissions.positive_bound [OF this, of ips] have "int (length (filter (\<lambda>(i, ok). i = ip \<and> ok)
      (snd (run connect_step (NewTCPServer rt config) ips)))) \<le> MaxConnectionsPerIP config"
    using assms by (simp add: NewTCPServer_def le_nat_iff)
  moreover have "ipConnections (fst (fst (handleClient cdc drv cid ip' lines (s, w)))) j \<ge> ipConnections s j"
    using handleClient_ipConnections .
  ultimately show ?thesis by simp
qed

text \<open>
  C19. The requests of one address that \<open>checkRateLimit\<close> accepts are at least one second
  apart, whatever positive \<open>RateLimitPerIP\<close> is configured: the configured rate has no
  influence on any decision.
\<close>

theorem rate_limit_one_per_second:
  assumes "0 < RateLimitPerIP (srv_config s)" and "0 < n"
  shows "sorted_wrt (\<lambda>t u. time_Add t Second \<le> u)
      (accepted_times ts (snd (run (rate_check_step ip) s ts))) \<and>
    snd (checkRateLimit now ip (s\<lparr>srv_config := (srv_config s)\<lparr>RateLimitPerIP := n\<rparr>\<rparr>)) =
      snd (checkRateLimit now ip s)"
  using accepted_spaced [OF assms(1)] assms by (simp add: checkRateLimit_def split: option.split)

section \<open>Idempotency\<close>

lemma handler_frame:
  assumes "handleExec cdc drv env msg (s, w) = ((s', w'), r) \<or> handleQuery cdc drv env msg (s, w) = ((s', w'), r)"
  shows "idempotencyCache s' = idempotencyCache s \<and> srv_config s' = srv_config s"
  using assms by (auto dest: handler_changes)

lemma reply_id: "snd (reply cdc i data) = Some resp \<Longrightarrow> resp_ID resp = i \<and> fst (reply cdc i data) = sendResponse cdc resp"
  by (auto simp: reply_def NewSuccessResponse_def split: sum.splits)

lemma handler_response:
  assumes "handleExec cdc drv env msg (s, w) = (st, Ret (out, Some resp)) \<or>
    handleQuery cdc drv env msg (s, w) = (st, Ret (out, Some resp))"
  shows "resp_ID resp = msg_ID msg \<and> out = sendResponse cdc resp"
  using assms reply_id [of cdc "msg_ID msg"]
  by (auto simp: handleExec_def handleQuery_def split: prod.splits outcome.splits sum.splits option.splits)
    (metis fst_conv snd_conv)+

text \<open>
  A message without the protection against floods that carries the key of a stored
  response: the response is sent again, nothing else happens.
\<close>

lemma handleMessage_replay:
  assumes "\<not> EnableDDoSProtection (srv_config s)" "EnableIdempotency (srv_config s)" "IdempotencyKey msg \<noteq> []"
    "idempotencyCache s = Some c" "cache_lookup (drv_Now drv w) (IdempotencyKey msg) c = Some resp"
  shows "handleMessage cdc drv env ip msg (s, w) =
    ((s\<lparr>idempotencyCache := Some (fst (InMemoryCache_Get (drv_Now drv w) (IdempotencyKey msg) c))\<rparr>, w),
     Ret (sendResponse cdc resp))"
proof -
  obtain c1 where "InMemoryCache_Get (drv_Now drv w) (IdempotencyKey msg) c = (c1, Some resp)"
    using assms(5) Get_result [of "drv_Now drv w" "IdempotencyKey msg" c] by (metis prod.collapse)
  with assms show ?thesis by (simp add: handleMessage_def checkIdempotency_def)
qed

lemma handleMessage_first:
  assumes "\<not> EnableDDoSProtection (srv_config s)" "EnableIdempotency (srv_config s)" "IdempotencyKey msg \<noteq> []"
    "idempotencyCache s = Some c" "cache_lookup (drv_Now drv w) (IdempotencyKey msg) c = None"
  shows "handleMessage cdc drv env ip msg (s, w) =
    dispatch cdc drv env (msg\<lparr>ClientIP := ip\<rparr>)
      (s\<lparr>idempotencyCache := Some (fst (InMemoryCache_Get (drv_Now drv w) (IdempotencyKey msg) c))\<rparr>, w)"
proof -
  obtain c1 where "InMemoryCache_Get (drv_Now drv w) (IdempotencyKey msg) c = (c1, None)"
    using assms(5) Get_result [of "drv_Now drv w" "IdempotencyKey msg" c] by (metis prod.collapse)
  with assms show ?thesis by (simp add: handleMessage_def checkIdempotency_def)
qed

lemma handleExec_cases:
  assumes "handleExec cdc drv env msg (s, w) = ((s', w'), Ret (out, r))"
  shows "(r = None \<and> (\<exists>err. out = sendError cdc (msg_ID msg) err)) \<or>
    (\<exists>resp. r = Some resp \<and> resp_ID resp = msg_ID msg \<and> resp_Success resp \<and> out = sendResponse cdc resp)"
  using assms
  by (auto simp: handleExec_def reply_def NewSuccessResponse_def split: prod.splits outcome.splits sum.splits)

lemma stored_response_live:
  assumes "cache_inv c" "t \<le> time_Add now (300 * Second)"
  shows "cache_lookup t k (fst (InMemoryCache_Set now k resp (300 * Second) c)) = Some resp"
proof -
  have "effectiveExpire now (300 * Second) c = time_Add now (300 * Second)"
    by (simp add: effectiveExpire_def Second_def)
  with assms(2) lookup_Set [OF assms(1), of t k now k resp "300 * Second"] show ?thesis
    by (auto simp: item_expired_def After_def)
qed

lemma dispatch_exec:
  "msg_Type msg = MessageTypeExec \<Longrightarrow> dispatch cdc drv env msg st = finish drv msg (handleExec cdc drv env msg st)"
  by (simp add: dispatch_def message_types)

lemma finish_Ret:
  assumes "finish drv msg ((s0, w0), x) = ((s1, w1), Ret out)" "EnableIdempotency (srv_config s0)" "IdempotencyKey msg \<noteq> []"
  shows "\<exists>r. x = Ret (out, r) \<and> w1 = w0 \<and> s1 = storeIdempotency (drv_Now drv w0) msg r s0"
  using assms by (cases x) (auto simp: finish_def split: prod.splits)

lemma exec_with_new_key:
  assumes "\<not> EnableDDoSProtection (srv_config s)" "EnableIdempotency (srv_config s)"
    "idempotencyCache s = Some c" "IdempotencyKey msg \<noteq> []" "msg_Type msg = MessageTypeExec"
    "cache_lookup (drv_Now drv w) (IdempotencyKey msg) c = None"
    "handleMessage cdc drv env ip msg (s, w) = ((s1, w1), Ret out)"
  obtains s0 r where
    "handleExec cdc drv env (msg\<lparr>ClientIP := ip\<rparr>)
       (s\<lparr>idempotencyCache := Some (fst (InMemoryCache_Get (drv_Now drv w) (IdempotencyKey msg) c))\<rparr>, w) =
       ((s0, w1), Ret (out, r))"
    "idempotencyCache s0 = Some (fst (InMemoryCache_Get (drv_Now drv w) (IdempotencyKey msg) c))"
    "srv_config s0 = srv_config s" "s1 = storeIdempotency (drv_Now drv w1) (msg\<lparr>ClientIP := ip\<rparr>) r s0"
proof -
  let ?m = "msg\<lparr>ClientIP := ip\<rparr>"
  let ?s = "s\<lparr>idempotencyCache := Some (fst (InMemoryCache_Get (drv_Now drv w) (IdempotencyKey msg) c))\<rparr>"
  obtain s0 w0 x where ex: "handleExec cdc drv env ?m (?s, w) = ((s0, w0), x)" by (metis surj_pair)
  have s0: "idempotencyCache s0 = idempotencyCache ?s" "srv_config s0 = srv_config ?s"
    using handler_frame [OF disjI1 [OF ex]] by blast+
  have "msg_Type ?m = MessageTypeExec" using assms(5) by simp
  then have fin: "finish drv ?m ((s0, w0), x) = ((s1, w1), Ret out)"
    using handleMessage_first [OF assms(1,2,4,3,6), of cdc env ip] assms(7) ex by (simp only: dispatch_exec)
  obtain r where "x = Ret (out, r)" "w1 = w0" "s1 = storeIdempotency (drv_Now drv w0) ?m r s0"
    using finish_Ret [OF fin] s0(2) assms(2,4) by auto
  with that [of s0 r] ex s0 show thesis by simp
qed

lemma replay_after_store:
  assumes "\<not> EnableDDoSProtection (srv_config s)" "EnableIdempotency (srv_config s)" "IdempotencyKey msg \<noteq> []"
    "idempotencyCache s = Some (fst (InMemoryCache_Set now (IdempotencyKey msg) resp (300 * Second) c))" "cache_inv c"
    "drv_Now drv v \<le> time_Add now (300 * Second)"
  shows "\<exists>s2. handleMessage cdc drv env ip msg (s, v) = ((s2, v), Ret (sendResponse cdc resp)) \<and>
    srv_runtime s2 = srv_runtime s"
  using handleMessage_replay [OF assms(1-4) stored_response_live [OF assms(5,6)], of cdc env ip] by simp

lemma handleMessage_check:
  "handleMessage cdc drv env ip msg (s, w) =
     (case check_message cdc drv ip msg (s, w) of
        (s1, Some out) \<Rightarrow> ((s1, w), Ret out)
      | (s1, None) \<Rightarrow> dispatch cdc drv env (msg\<lparr>ClientIP := ip\<rparr>) (s1, w))"
  by (simp add: handleMessage_def check_message_def Let_def split: prod.split option.split)

text \<open>
  A server that remembers a response: its item is in the cache, and only items with keys of \<open>T\<close> were used more recently.
\<close>

definition remembers :: "TCPServerConfig \<Rightarrow> string set \<Rightarrow> TCPResponse cacheItem \<Rightarrow> TCPServer \<Rightarrow> bool" where
  "remembers cfg T i s \<longleftrightarrow> srv_config s = cfg \<and> EnableIdempotency cfg \<and> ci_key i \<noteq> [] \<and>
     (\<exists>c. idempotencyCache s = Some c \<and> cache_inv c \<and> recent T i (cache_abs c))"

definition known_key :: "string set \<Rightarrow> TCPResponse cacheItem \<Rightarrow> time \<Rightarrow> string \<Rightarrow> bool" where
  "known_key T i now k \<longleftrightarrow> k \<in> insert [] T \<or> k = ci_key i \<and> \<not> item_expired now i"

lemma remembers_frame:
  "remembers cfg T i s \<Longrightarrow> idempotencyCache s' = idempotencyCache s \<Longrightarrow> srv_config s' = srv_config s \<Longrightarrow> remembers cfg T i s'"
  by (simp add: remembers_def)

lemma checkRateLimit_frame:
  "idempotencyCache (fst (checkRateLimit now ip s)) = idempotencyCache s \<and> srv_config (fst (checkRateLimit now ip s)) = srv_config s \<and>
   srv_runtime (fst (checkRateLimit now ip s)) = srv_runtime s"
  by (simp add: checkRateLimit_def split: option.split)

lemma remembers_checkIdempotency:
  assumes "remembers cfg T i s" "known_key T i now (IdempotencyKey msg)"
  shows "remembers cfg T i (fst (checkIdempotency now msg s))"
proof -
  obtain c where c: "idempotencyCache s = Some c" "cache_inv c" "recent T i (cache_abs c)"
    using assms(1) by (auto simp: remembers_def)
  with assms recent_cache_step [OF c(2,3), of "CGet now (IdempotencyKey msg)"] show ?thesis
    by (auto simp: checkIdempotency_def remembers_def known_key_def split_beta)
qed

lemma remembers_storeIdempotency:
  assumes "remembers cfg T i s" "IdempotencyKey msg \<in> insert [] T"
  shows "remembers cfg T i (storeIdempotency now msg r s)"
proof -
  obtain c where c: "idempotencyCache s = Some c" "cache_inv c" "recent T i (cache_abs c)"
    using assms(1) by (auto simp: remembers_def)
  with assms recent_cache_step [OF c(2,3), of "CSet now (IdempotencyKey msg) _ (300 * Second)"] show ?thesis
    by (cases r) (auto simp: storeIdempotency_def remembers_def)
qed

lemma remembers_check:
  assumes "remembers cfg T i s" "known_key T i (drv_Now drv w) (IdempotencyKey msg)"
  shows "remembers cfg T i (fst (check_message cdc drv ip msg (s, w)))"
proof -
  obtain s1 ok where c1: "(if EnableDDoSProtection (srv_config s) then checkRateLimit (drv_Now drv w) ip s else (s, True)) = (s1, ok)"
    by (metis surj_pair)
  then have s1: "remembers cfg T i s1"
    using remembers_frame [OF assms(1)] checkRateLimit_frame [of "drv_Now drv w" ip s] assms(1) by (metis fst_conv)
  then show ?thesis
    using remembers_checkIdempotency [OF s1, of "drv_Now drv w" "msg\<lparr>ClientIP := ip\<rparr>"] assms
    unfolding check_message_def Let_def prod.case c1 by (auto split: prod.split)
qed

lemma remembers_finish:
  "remembers cfg T i (fst (fst x)) \<Longrightarrow> IdempotencyKey msg \<in> insert [] T \<Longrightarrow> remembers cfg T i (fst (fst (finish drv msg x)))"
  by (auto simp: finish_def split_beta remembers_storeIdempotency split: outcome.split)

lemma remembers_dispatch:
  assumes "remembers cfg T i s" "IdempotencyKey msg \<in> insert [] T"
  shows "remembers cfg T i (fst (fst (dispatch cdc drv env msg (s, w))))"
proof -
  have "remembers cfg T i (fst (fst (handleExec cdc drv env msg (s, w))))" "remembers cfg T i (fst (fst (handleQuery cdc drv env msg (s, w))))"
    by (rule remembers_frame [OF assms(1)]; metis handler_frame prod.collapse)+
  then show ?thesis using assms by (simp add: dispatch_def remembers_finish)
qed

lemma check_known:
  assumes "remembers cfg T i s" "IdempotencyKey msg = ci_key i" "\<not> item_expired (drv_Now drv w) i"
  shows "\<exists>s1 out. check_message cdc drv ip msg (s, w) = (s1, Some out) \<and> srv_runtime s1 = srv_runtime s \<and>
    (out = sendResponse cdc (ci_value i) \<or> EnableDDoSProtection cfg \<and> (\<exists>err. out = sendError cdc (msg_ID msg) err))"
proof -
  obtain c where c: "idempotencyCache s = Some c" "cache_inv c" "recent T i (cache_abs c)"
    using assms(1) by (auto simp: remembers_def)
  then have get: "snd (InMemoryCache_Get (drv_Now drv w) (ci_key i) c) = Some (ci_value i)"
    using recent_lookup [OF c(2,3) assms(3)] by (simp add: Get_result)
  with assms c show ?thesis
    using checkRateLimit_frame [of "drv_Now drv w" ip s]
    by (cases "checkRateLimit (drv_Now drv w) ip s"; cases "InMemoryCache_Get (drv_Now drv w) (ci_key i) c")
      (auto simp: check_message_def checkIdempotency_def remembers_def Let_def)
qed

text \<open>Steps with keys of \<open>T\<close>, and checks with the key \<open>k\<close> before it is forgotten.\<close>

fun step_within :: "'w sql_driver \<Rightarrow> string set \<Rightarrow> string \<Rightarrow> time \<Rightarrow> 'w msg_step \<Rightarrow> bool" where
  "step_within drv T k deadline (Checks ip msg v) =
     (IdempotencyKey msg \<in> insert [] T \<or> IdempotencyKey msg = k \<and> drv_Now drv v \<le> deadline)"
| "step_within drv T k deadline (Dispatches env msg v) = (IdempotencyKey msg \<in> insert [] T)"

lemma remembers_run:
  "remembers cfg T i s \<Longrightarrow> list_all (step_within drv T (ci_key i) (expireAt i)) es \<Longrightarrow>
   remembers cfg T i (fst (run (message_step cdc drv) s es))"
proof (induction es arbitrary: s)
  case (Cons e es)
  have "remembers cfg T i (fst (message_step cdc drv s e))"
  proof (cases e)
    case (Checks ip msg v)
    with Cons.prems have "known_key T i (drv_Now drv v) (IdempotencyKey msg)"
      by (auto simp: known_key_def item_expired_def After_def)
    from remembers_check [OF Cons.prems(1) this] Checks show ?thesis by (simp add: split_beta)
  next
    case (Dispatches env msg v)
    with Cons.prems remembers_dispatch [OF Cons.prems(1), of msg cdc drv env v] show ?thesis by (simp add: split_beta)
  qed
  with Cons show ?case by (simp add: run_Cons del: run.simps(2))
qed simp

lemma dispatched_exec:
  assumes "EnableIdempotency (srv_config s0)" "idempotencyCache s0 = Some c"
    "IdempotencyKey msg \<noteq> []" "msg_Type msg = MessageTypeExec" "dispatch cdc drv env msg (s0, w0) = ((s1, w1), Ret out)"
  shows "(\<exists>err. out = sendError cdc (msg_ID msg) err \<and> idempotencyCache s1 = idempotencyCache s0) \<or>
    (\<exists>resp. out = sendResponse cdc resp \<and> resp_ID resp = msg_ID msg \<and> resp_Success resp \<and> srv_config s1 = srv_config s0 \<and>
      idempotencyCache s1 = Some (fst (InMemoryCache_Set (drv_Now drv w1) (IdempotencyKey msg) resp (300 * Second) c)))"
proof -
  obtain s2 w2 x where ex: "handleExec cdc drv env msg (s0, w0) = ((s2, w2), x)" by (metis surj_pair)
  have s2: "idempotencyCache s2 = idempotencyCache s0" "srv_config s2 = srv_config s0"
    using handler_frame [OF disjI1 [OF ex]] by blast+
  have "finish drv msg ((s2, w2), x) = ((s1, w1), Ret out)" using assms(5) ex by (simp only: dispatch_exec [OF assms(4)])
  with assms(1,3) s2(2) obtain r where r: "x = Ret (out, r)" "w1 = w2" "s1 = storeIdempotency (drv_Now drv w2) msg r s2"
    using finish_Ret [of drv msg s2 w2 x s1 w1 out] by auto
  from handleExec_cases [OF ex [unfolded r(1)]] r(2,3) s2 assms(2,3) show ?thesis
    by (auto simp: storeIdempotency_def)
qed

text \<open>
  C20. An \<open>EXEC\<close> with an idempotency key that has been executed either failed and nothing is kept, or was answered with success
  and is not executed again for five minutes: whatever halves of other messages run in whatever order after it, a message with the
  same key, whatever it asks for, gets the same bytes, or is refused by the flood protection if that is on, while neither the
  database nor the runtime is touched. Two conditions are needed. The messages in between use fewer than \<open>capacity\<close> (ten thousand)
  different other keys, as the cache of the responses drops the oldest. And no message with the same key passed its check before the
  response was kept, because that one is still dispatched. The response repeated carries the identifier of the first request.
\<close>

theorem idempotent_request_executed_once:
  fixes drv :: "'w sql_driver"
  assumes "EnableIdempotency (srv_config s0)" and "idempotencyCache s0 = Some c" and "cache_inv c"
    and "IdempotencyKey msg \<noteq> []" and "msg_Type msg = MessageTypeExec"
    and "dispatch cdc drv env msg (s0, w0) = ((s1, w1), Ret out)"
    and "finite T" and "int (card T) < capacity c" and "IdempotencyKey msg \<notin> T"
  shows "(\<exists>err. out = sendError cdc (msg_ID msg) err \<and> idempotencyCache s1 = idempotencyCache s0) \<or>
    (\<exists>resp. out = sendResponse cdc resp \<and> resp_ID resp = msg_ID msg \<and> resp_Success resp \<and>
      (\<forall>es s2 env' ip' msg' v.
         list_all (step_within drv T (IdempotencyKey msg) (time_Add (drv_Now drv w1) (300 * Second))) es \<and>
         s2 = fst (run (message_step cdc drv) s1 es) \<and> IdempotencyKey msg' = IdempotencyKey msg \<and>
         drv_Now drv v \<le> time_Add (drv_Now drv w1) (300 * Second) \<longrightarrow>
         (\<exists>s3 out'. handleMessage cdc drv env' ip' msg' (s2, v) = ((s3, v), Ret out') \<and> srv_runtime s3 = srv_runtime s2 \<and>
            (out' = out \<or> EnableDDoSProtection (srv_config s0) \<and> (\<exists>err. out' = sendError cdc (msg_ID msg') err)))))"
  using dispatched_exec [OF assms(1,2,4-6)]
proof (elim disjE exE conjE)
  fix resp :: TCPResponse
  let ?deadline = "time_Add (drv_Now drv w1) (300 * Second)"
  let ?i = "\<lparr>ci_key = IdempotencyKey msg, ci_value = resp, expireAt = ?deadline\<rparr>"
  assume resp: "out = sendResponse cdc resp" "resp_ID resp = msg_ID msg" "resp_Success resp" "srv_config s1 = srv_config s0"
    "idempotencyCache s1 = Some (fst (InMemoryCache_Set (drv_Now drv w1) (IdempotencyKey msg) resp (300 * Second) c))"
  have "effectiveExpire (drv_Now drv w1) (300 * Second) c = ?deadline" by (simp add: effectiveExpire_def Second_def)
  with resp(4,5) assms(1,4) recent_Set [OF assms(3,7-9), of resp "drv_Now drv w1" "300 * Second"] Set_inv [OF assms(3)]
  have s1: "remembers (srv_config s0) T ?i s1" by (simp add: remembers_def)
  have "\<exists>s3 out'. handleMessage cdc drv env' ip' msg' (s2, v) = ((s3, v), Ret out') \<and> srv_runtime s3 = srv_runtime s2 \<and>
      (out' = out \<or> EnableDDoSProtection (srv_config s0) \<and> (\<exists>err. out' = sendError cdc (msg_ID msg') err))"
    if "list_all (step_within drv T (IdempotencyKey msg) ?deadline) es" "s2 = fst (run (message_step cdc drv) s1 es)"
      "IdempotencyKey msg' = IdempotencyKey msg" "drv_Now drv v \<le> ?deadline" for es s2 env' ip' msg' v
  proof -
    have "remembers (srv_config s0) T ?i s2" using remembers_run [OF s1, of drv es cdc] that(1,2) by simp
    moreover have "\<not> item_expired (drv_Now drv v) ?i" using that(4) by (auto simp: item_expired_def After_def)
    ultimately show ?thesis
      using check_known [of "srv_config s0" T ?i s2 msg' drv v cdc ip'] that(3) resp(1) by (auto simp: handleMessage_check)
  qed
  with resp show ?thesis by blast
qed blast

text \<open>A key that was not found is not found at any later time either: if it had expired, it was removed.\<close>

lemma check_passed:
  assumes "\<not> EnableDDoSProtection (srv_config s)" "idempotencyCache s = Some c" "cache_inv c"
    "check_message cdc drv ip msg (s, w) = (s1, None)"
  shows "\<exists>c1. s1 = s\<lparr>idempotencyCache := Some c1\<rparr> \<and> cache_inv c1 \<and>
    (EnableIdempotency (srv_config s) \<and> IdempotencyKey msg \<noteq> [] \<longrightarrow> (\<forall>t. cache_lookup t (IdempotencyKey msg) c1 = None))"
proof (cases "EnableIdempotency (srv_config s) \<and> IdempotencyKey msg \<noteq> []")
  case True
  let ?k = "IdempotencyKey msg" let ?now = "drv_Now drv w" let ?c1 = "fst (InMemoryCache_Get ?now ?k c)"
  have s1: "s1 = s\<lparr>idempotencyCache := Some ?c1\<rparr>" "snd (InMemoryCache_Get ?now ?k c) = None"
    using assms True by (auto simp: check_message_def checkIdempotency_def split: prod.splits)
  then have "lru_lookup ?now ?k (entries (cache_abs c)) = None" by (simp add: Get_result cache_lookup_abs [OF assms(3)])
  then have "cache_lookup t ?k ?c1 = None" for t
    by (auto simp: lookup_Get [OF assms(3)] cache_lookup_abs [OF assms(3)] lru_lookup_def split: option.splits if_splits)
  with s1(1) Get_inv [OF assms(3)] show ?thesis by blast
next
  case False
  with assms show ?thesis by (auto simp: check_message_def intro: exI [of _ c])
qed

lemma check_passes:
  assumes "\<not> EnableDDoSProtection (srv_config s)" "idempotencyCache s = Some c"
    "EnableIdempotency (srv_config s) \<and> IdempotencyKey msg \<noteq> [] \<longrightarrow> cache_lookup (drv_Now drv w) (IdempotencyKey msg) c = None"
  shows "\<exists>s1. check_message cdc drv ip msg (s, w) = (s1, None) \<and> srv_runtime s1 = srv_runtime s"
  using assms Get_result [of "drv_Now drv w" "IdempotencyKey msg" c]
  by (cases "InMemoryCache_Get (drv_Now drv w) (IdempotencyKey msg) c") (auto simp: check_message_def checkIdempotency_def)

lemma exec_dispatched:
  assumes "msg_Type msg = MessageTypeExec" "srv_runtime s = Some rt"
  shows "snd (fst (dispatch cdc drv env msg (s, w))) = snd (fst (Runtime_Exec drv env None (msg_Query msg) (msg_Args msg) (rt, w))) \<and>
    (\<exists>rt2. srv_runtime (fst (fst (dispatch cdc drv env msg (s, w)))) = Some rt2)"
proof -
  let ?h = "handleExec cdc drv env msg (s, w)"
  have "snd (fst ?h) = snd (fst (Runtime_Exec drv env None (msg_Query msg) (msg_Args msg) (rt, w))) \<and>
      (\<exists>rt2. srv_runtime (fst (fst ?h)) = Some rt2)"
    using assms(2) by (auto simp: handleExec_def with_runtime_def split: prod.split outcome.split sum.split)
  moreover have "srv_runtime (storeIdempotency now m r s') = srv_runtime s'" for now m r s'
    by (simp add: storeIdempotency_def split: option.split)
  then have "snd (fst (finish drv msg x)) = snd (fst x)" "srv_runtime (fst (fst (finish drv msg x))) = srv_runtime (fst (fst x))" for x
    by (simp_all add: finish_def split: prod.split outcome.split)
  ultimately show ?thesis by (simp add: dispatch_exec [OF assms(1)])
qed

text \<open>
  C21. The check of an idempotency key and the storing of its response are not one step: of two \<open>EXEC\<close> messages with the same key,
  the second one passes its check if it is made after the check of the first and before the first has been dispatched, and
  then both statements are executed, whatever else happens in between.
\<close>

theorem concurrent_duplicates_both_execute:
  assumes "\<not> EnableDDoSProtection (srv_config s)" and "idempotencyCache s = Some c" and "cache_inv c" and "srv_runtime s = Some rt"
    and "msg_Type msg = MessageTypeExec" and "msg_Type msg' = MessageTypeExec" and "IdempotencyKey msg' = IdempotencyKey msg"
    and "check_message cdc drv ip msg (s, w) = (s1, None)"
  shows "\<exists>s2. check_message cdc drv ip' msg' (s1, v) = (s2, None) \<and>
    snd (fst (dispatch cdc drv env (msg\<lparr>ClientIP := ip\<rparr>) (s2, v1))) =
      snd (fst (Runtime_Exec drv env None (msg_Query msg) (msg_Args msg) (rt, v1))) \<and>
    (\<exists>rt2. srv_runtime (fst (fst (dispatch cdc drv env (msg\<lparr>ClientIP := ip\<rparr>) (s2, v1)))) = Some rt2 \<and>
       snd (fst (dispatch cdc drv env' (msg'\<lparr>ClientIP := ip'\<rparr>)
              (fst (fst (dispatch cdc drv env (msg\<lparr>ClientIP := ip\<rparr>) (s2, v1))), v2))) =
         snd (fst (Runtime_Exec drv env' None (msg_Query msg') (msg_Args msg') (rt2, v2))))"
proof -
  obtain c1 where s1: "s1 = s\<lparr>idempotencyCache := Some c1\<rparr>"
    "EnableIdempotency (srv_config s) \<and> IdempotencyKey msg \<noteq> [] \<longrightarrow> (\<forall>t. cache_lookup t (IdempotencyKey msg) c1 = None)"
    using check_passed [OF assms(1-3,8)] by blast
  then obtain s2 where s2: "check_message cdc drv ip' msg' (s1, v) = (s2, None)" "srv_runtime s2 = Some rt"
    using check_passes [of s1 c1 msg' drv v cdc ip'] assms(1,4,7) by auto
  have "msg_Type (msg\<lparr>ClientIP := ip\<rparr>) = MessageTypeExec" "msg_Type (msg'\<lparr>ClientIP := ip'\<rparr>) = MessageTypeExec"
    using assms(5,6) by simp_all
  note first = exec_dispatched [OF this(1) s2(2), of cdc drv env v1] and second = exec_dispatched [OF this(2), of _ _ cdc drv env' v2]
  from first obtain rt2 where "srv_runtime (fst (fst (dispatch cdc drv env (msg\<lparr>ClientIP := ip\<rparr>) (s2, v1)))) = Some rt2" by blast
  with s2(1) first second [OF this] show ?thesis by auto
qed

definition one_response :: "json_codec \<Rightarrow> string \<Rightarrow> string list \<Rightarrow> bool" where
  "one_response cdc i out \<longleftrightarrow> (\<exists>resp. out = sendResponse cdc resp \<and> resp_ID resp = i)"

lemma one_response_sendError [simp]: "one_response cdc i (sendError cdc i err)"
  unfolding one_response_def sendError_def NewErrorResponse_def by (metis TCPResponse.select_convs(1))

lemma one_response_reply [simp]: "one_response cdc i (fst (reply cdc i data))"
  by (auto simp: reply_def NewSuccessResponse_def split: sum.split) (auto simp: one_response_def)

lemma one_response_reply' [simp]: "reply cdc i data = (out, r) \<Longrightarrow> one_response cdc i out"
  using one_response_reply [of cdc i data] by (simp del: one_response_reply)

lemma one_response_handlers:
  "handleExec cdc drv env msg st = (st', Ret (out, r)) \<Longrightarrow> one_response cdc (msg_ID msg) out"
  "handleQuery cdc drv env msg st = (st', Ret (out, r)) \<Longrightarrow> one_response cdc (msg_ID msg) out"
  by (auto simp: handleExec_def handleQuery_def split: prod.splits outcome.splits sum.splits option.splits)

lemma one_response_finish:
  assumes "finish drv msg x = (st', Ret out)" "\<And>st out r. x = (st, Ret (out, r)) \<Longrightarrow> one_response cdc i out"
  shows "one_response cdc i out"
  using assms by (auto simp: finish_def split: prod.splits outcome.splits)

lemma one_response_dispatch:
  assumes "dispatch cdc drv env msg st = (st', Ret out)"
  shows "one_response cdc (msg_ID msg) out"
proof -
  have "finish drv msg (handleExec cdc drv env msg st) = (st', Ret out) \<Longrightarrow> one_response cdc (msg_ID msg) out"
    "finish drv msg (handleQuery cdc drv env msg st) = (st', Ret out) \<Longrightarrow> one_response cdc (msg_ID msg) out"
    by (rule one_response_finish, assumption, erule one_response_handlers)+
  moreover have "handleStats cdc drv msg st = Ret out \<Longrightarrow> one_response cdc (msg_ID msg) out"
    by (cases "snd (with_runtime (\<lambda>st. (st, Runtime_Stats drv st)) (fst st, snd st))") (auto simp: handleStats_def split_beta)
  moreover have "handleMetrics cdc msg (fst st) = Ret out \<Longrightarrow> one_response cdc (msg_ID msg) out"
    by (cases "snd (with_runtime (\<lambda>st. (st, Runtime_Metrics (fst st))) (fst st, ()))") (auto simp: handleMetrics_def)
  ultimately show ?thesis
    using assms by (auto simp: dispatch_def handlePing_def split: if_splits)
qed

text \<open>
  C22. Every message that is handled gets exactly one response (or none, if the response cannot be
  encoded): one with the identifier of the message, or, for a repeated idempotency key, the
  stored response. A message that closes the connection is answered with an error, as its type is unknown to the
  dispatch.
\<close>

theorem one_response_per_message:
  assumes "handleMessage cdc drv env ip msg (s, w) = ((s1, w1), Ret out)"
  shows "(\<exists>resp. out = sendResponse cdc resp \<and>
      (resp_ID resp = msg_ID msg \<or>
       (\<exists>c. idempotencyCache s = Some c \<and> cache_lookup (drv_Now drv w) (IdempotencyKey msg) c = Some resp))) \<and>
    (msg_Type msg = MessageTypeClose \<and> \<not> EnableDDoSProtection (srv_config s) \<and> \<not> EnableIdempotency (srv_config s) \<longrightarrow>
       out = sendError cdc (msg_ID msg) (Errorf ''unknown message type: CLOSE''))"
proof -
  let ?m = "msg\<lparr>ClientIP := ip\<rparr>"
  obtain sa ok where c1: "(if EnableDDoSProtection (srv_config s) then checkRateLimit (drv_Now drv w) ip s else (s, True)) =
      (sa, ok)" by (metis surj_pair)
  obtain sb r where c2: "(if EnableIdempotency (srv_config s) \<and> IdempotencyKey ?m \<noteq> []
      then checkIdempotency (drv_Now drv w) ?m sa else (sa, None)) = (sb, r)" by (metis surj_pair)
  have sa: "idempotencyCache sa = idempotencyCache s"
    using c1 checkRateLimit_frame [of "drv_Now drv w" ip s] by (auto split: if_splits)
  have hit: "\<exists>c. idempotencyCache s = Some c \<and> cache_lookup (drv_Now drv w) (IdempotencyKey msg) c = Some resp"
    if "r = Some resp" for resp
    using c2 that sa
    by (auto simp: checkIdempotency_def Get_result [symmetric] split: if_splits option.splits prod.splits)
  have "one_response cdc (msg_ID msg) out \<or> (\<exists>resp. r = Some resp \<and> out = sendResponse cdc resp)"
    using assms one_response_dispatch [of cdc drv env ?m "(sb, w)"]
    unfolding handleMessage_def Let_def prod.case c1 c2
    by (auto split: if_splits option.splits)
  then have "\<exists>resp. out = sendResponse cdc resp \<and> (resp_ID resp = msg_ID msg \<or>
      (\<exists>c. idempotencyCache s = Some c \<and> cache_lookup (drv_Now drv w) (IdempotencyKey msg) c = Some resp))"
    using hit unfolding one_response_def by blast
  moreover have "msg_Type msg = MessageTypeClose \<and> \<not> EnableDDoSProtection (srv_config s) \<and>
      \<not> EnableIdempotency (srv_config s) \<longrightarrow> out = sendError cdc (msg_ID msg) (Errorf ''unknown message type: CLOSE'')"
    using assms by (auto simp: handleMessage_def dispatch_def message_types)
  ultimately show ?thesis by blast
qed

section \<open>Witnesses\<close>

definition sample_server_config :: TCPServerConfig where
  "sample_server_config =
     \<lparr>srv_Address = ''localhost:9090'', EnableIdempotency = True, EnableDDoSProtection = False, MaxRequestSize = 0,
      MaxConnectionsPerIP = 2, RateLimitPerIP = 50, BlacklistedIPs = [], WhitelistedIPs = []\<rparr>"

definition sample_server :: TCPServer where
  "sample_server = NewTCPServer (Some sample_runtime) sample_server_config"

theorem connections_per_ip_bound_witness:
  "length (filter (\<lambda>(i, ok). i = ''1.2.3.4'' \<and> ok)
     (snd (run connect_step (NewTCPServer (Some sample_runtime) sample_server_config) (replicate 5 ''1.2.3.4'')))) \<le> 2"
  using connections_per_ip_bound [of sample_server_config "''1.2.3.4''" "Some sample_runtime" "replicate 5 ''1.2.3.4''",
      THEN conjunct1]
  by (simp add: sample_server_config_def del: run.simps replicate.simps)

theorem rate_limit_one_per_second_witness:
  "sorted_wrt (\<lambda>t u. time_Add t Second \<le> u)
     (accepted_times [Time 5, Time 6, Time 2000000000]
       (snd (run (rate_check_step ''1.2.3.4'') sample_server [Time 5, Time 6, Time 2000000000])))"
  using rate_limit_one_per_second [of sample_server 1 "[Time 5, Time 6, Time 2000000000]" "''1.2.3.4''"]
  by (simp add: sample_server_def NewTCPServer_def sample_server_config_def del: run.simps)

lemma sample_retryExec:
  "retryExec (sample_driver (Inr h)) (NewRetryPolicy config) db ctx q args w = (w + 1, Inr h)"
  using NewRetryPolicy_fields(4) [of config]
  by (subst retryExec_def, subst retry_loop.simps) (simp add: sample_driver_def)

lemma sample_Exec:
  "\<exists>rt'. Runtime_Exec (sample_driver (Inr 9)) (sample_clock, [], SelSlot) None q args (sample_runtime, 3) =
     ((rt', 4), Ret (Inr 9))"
  by (simp add: Runtime_Exec_def IsConnected_def on_advancedDB_def sample_runtime_fields AdvancedDB_Exec_def
      gated_def ExecuteWithGate_def sample_allow NewAdvancedDB_fields sample_retryExec Let_def)
    (simp add: sample_driver_def)

lemma sample_handleMessage:
  "\<exists>s1. handleMessage sample_codec (sample_driver (Inr 9)) (sample_clock, [], SelSlot) ''1.2.3.4'' sample_message
     (sample_server, 3) = ((s1, 4), Ret [''{r}'' @ [newline]])"
proof -
  let ?drv = "sample_driver (Inr 9)"
  obtain rt where rt: "Runtime_Exec ?drv (sample_clock, [], SelSlot) None ''INSERT'' [VString ''a''] (sample_runtime, 3) =
      ((rt, 4), Ret (Inr 9))" using sample_Exec by blast
  have reply: "reply sample_codec ''1'' (DExec \<lparr>RowsAffected = drv_RowsAffected ?drv 9 4, LastInsertID = drv_LastInsertId ?drv 9 4\<rparr>) =
      ([''{r}'' @ [newline]], Some sample_response)"
    by (simp add: reply_def NewSuccessResponse_def sendResponse_def EncodeTCPResponse_def sample_codec_def table_defs
        sample_driver_def sample_exec_result_def sample_response_def)
  have "sample_message\<lparr>ClientIP := ''1.2.3.4''\<rparr> = \<lparr>msg_Type = ''EXEC'', msg_ID = ''1'', msg_Query = ''INSERT'',
      msg_Args = [VString ''a''], msg_Payload = [], IdempotencyKey = ''k'', ClientIP = ''1.2.3.4'', RequestSize = 0\<rparr>"
    by (simp add: sample_message_def)
  then show ?thesis
    by (simp add: handleMessage_def sample_server_def NewTCPServer_def sample_server_config_def checkIdempotency_def
        InMemoryCache_Get_def NewInMemoryCache_def dispatch_def message_types handleExec_def with_runtime_def rt reply finish_def)
qed

definition sample_checked :: TCPServer where
  "sample_checked = sample_server\<lparr>idempotencyCache :=
     Some (fst (InMemoryCache_Get (Time 3) ''k'' (NewInMemoryCache 10000 (300 * Second))))\<rparr>"

lemma sample_check: "check_message sample_codec (sample_driver (Inr 9)) ''1.2.3.4'' sample_message (sample_server, 3) = (sample_checked, None)"
  by (simp add: check_message_def sample_checked_def sample_server_def NewTCPServer_def sample_server_config_def checkIdempotency_def
      sample_message_def InMemoryCache_Get_def NewInMemoryCache_def sample_driver_def)

lemma sample_dispatch:
  "\<exists>s1. dispatch sample_codec (sample_driver (Inr 9)) (sample_clock, [], SelSlot) (sample_message\<lparr>ClientIP := ''1.2.3.4''\<rparr>)
     (sample_checked, 3) = ((s1, 4), Ret [''{r}'' @ [newline]])"
  using sample_handleMessage by (simp add: handleMessage_check sample_check)

lemma sample_checked_fields:
  "EnableIdempotency (srv_config sample_checked)" "\<not> EnableDDoSProtection (srv_config sample_checked)"
  "\<exists>c. idempotencyCache sample_checked = Some c \<and> cache_inv c \<and> capacity c = 10000"
proof -
  show "EnableIdempotency (srv_config sample_checked)" "\<not> EnableDDoSProtection (srv_config sample_checked)"
    by (simp_all add: sample_checked_def sample_server_def NewTCPServer_def sample_server_config_def)
  have "capacity (fst (InMemoryCache_Get (Time 3) ''k'' (NewInMemoryCache 10000 (300 * Second)))) = 10000"
    by (simp add: InMemoryCache_Get_def NewInMemoryCache_def)
  then show "\<exists>c. idempotencyCache sample_checked = Some c \<and> cache_inv c \<and> capacity c = 10000"
    by (simp add: sample_checked_def Get_inv cache_inv_new)
qed

theorem idempotent_request_executed_once_witness:
  "\<exists>s1 s3. dispatch sample_codec (sample_driver (Inr 9)) (sample_clock, [], SelSlot) (sample_message\<lparr>ClientIP := ''1.2.3.4''\<rparr>)
       (sample_checked, 3) = ((s1, 4), Ret [''{r}'' @ [newline]]) \<and>
     handleMessage sample_codec (sample_driver (Inr 9)) (sample_clock, [], SelSlot) ''1.2.3.4'' (sample_message\<lparr>msg_ID := ''2''\<rparr>)
       (fst (run (message_step sample_codec (sample_driver (Inr 9))) s1
          [Checks ''5.6.7.8'' (sample_message\<lparr>IdempotencyKey := ''j''\<rparr>) 5, Checks ''5.6.7.8'' sample_message 6,
           Dispatches (sample_clock, [], SelSlot) (sample_message\<lparr>IdempotencyKey := ''j''\<rparr>) 7]), 100) =
       ((s3, 100), Ret [''{r}'' @ [newline]])"
proof -
  let ?drv = "sample_driver (Inr 9)" let ?m = "sample_message\<lparr>ClientIP := ''1.2.3.4''\<rparr>"
  let ?es = "[Checks ''5.6.7.8'' (sample_message\<lparr>IdempotencyKey := ''j''\<rparr>) 5, Checks ''5.6.7.8'' sample_message 6,
    Dispatches (sample_clock, [], SelSlot) (sample_message\<lparr>IdempotencyKey := ''j''\<rparr>) 7]"
  obtain s1 where h: "dispatch sample_codec ?drv (sample_clock, [], SelSlot) ?m (sample_checked, 3) =
      ((s1, 4), Ret [''{r}'' @ [newline]])" using sample_dispatch by blast
  obtain c where c: "idempotencyCache sample_checked = Some c" "cache_inv c" "int (card {''j''}) < capacity c"
    using sample_checked_fields(3) by auto
  have m: "IdempotencyKey ?m \<noteq> []" "msg_Type ?m = MessageTypeExec" "IdempotencyKey ?m \<notin> {''j''}" "finite {''j''}"
    by (simp_all add: sample_message_def message_types)
  have "sendError sample_codec (msg_ID ?m) err \<noteq> [''{r}'' @ [newline]]" for err
    by (simp add: sendError_def sendResponse_def EncodeTCPResponse_def NewErrorResponse_def sample_codec_def table_defs
        sample_response_def)
  moreover have "list_all (step_within ?drv {''j''} (IdempotencyKey ?m) (time_Add (drv_Now ?drv 4) (300 * Second))) ?es"
    "drv_Now ?drv 100 \<le> time_Add (drv_Now ?drv 4) (300 * Second)"
    by (simp_all add: sample_driver_def sample_message_def time_Add_def Second_def)
  moreover have "IdempotencyKey (sample_message\<lparr>msg_ID := ''2''\<rparr>) = IdempotencyKey ?m" by simp
  ultimately show ?thesis
    using idempotent_request_executed_once [OF sample_checked_fields(1) c(1,2) m(1,2) h m(4) c(3) m(3)] h sample_checked_fields(2)
    by metis
qed

theorem concurrent_duplicates_both_execute_witness:
  "\<exists>s2 rt2. check_message sample_codec (sample_driver (Inr 9)) ''5.6.7.8'' sample_message (sample_checked, 3) = (s2, None) \<and>
     snd (fst (dispatch sample_codec (sample_driver (Inr 9)) (sample_clock, [], SelSlot) (sample_message\<lparr>ClientIP := ''1.2.3.4''\<rparr>)
       (s2, 3))) = 4 \<and>
     snd (fst (dispatch sample_codec (sample_driver (Inr 9)) (sample_clock, [], SelSlot) (sample_message\<lparr>ClientIP := ''5.6.7.8''\<rparr>)
       (fst (fst (dispatch sample_codec (sample_driver (Inr 9)) (sample_clock, [], SelSlot)
          (sample_message\<lparr>ClientIP := ''1.2.3.4''\<rparr>) (s2, 3))), 4))) =
       snd (fst (Runtime_Exec (sample_driver (Inr 9)) (sample_clock, [], SelSlot) None ''INSERT'' [VString ''a''] (rt2, 4)))"
proof -
  let ?drv = "sample_driver (Inr 9)"
  have s: "\<not> EnableDDoSProtection (srv_config sample_server)"
    "idempotencyCache sample_server = Some (NewInMemoryCache 10000 (300 * Second))" "srv_runtime sample_server = Some sample_runtime"
    by (simp_all add: sample_server_def NewTCPServer_def sample_server_config_def)
  have m: "msg_Type sample_message = MessageTypeExec" "msg_Query sample_message = ''INSERT''" "msg_Args sample_message = [VString ''a'']"
    by (simp_all add: sample_message_def message_types)
  have "snd (fst (Runtime_Exec ?drv (sample_clock, [], SelSlot) None ''INSERT'' [VString ''a''] (sample_runtime, 3))) = 4"
    using sample_Exec [of "''INSERT''" "[VString ''a'']"] by auto
  with concurrent_duplicates_both_execute [OF s(1,2) cache_inv_new s(3) m(1,1) refl sample_check,
      where ip' = "''5.6.7.8''" and v = 3 and ?v1.0 = 3 and ?v2.0 = 4 and env = "(sample_clock, [], SelSlot)" and env' = "(sample_clock, [], SelSlot)"]
  show ?thesis unfolding m(2,3) by metis
qed

theorem one_response_per_message_witness:
  "\<exists>resp. [''{r}'' @ [newline]] = sendResponse sample_codec resp"
proof -
  obtain s1 where h: "handleMessage sample_codec (sample_driver (Inr 9)) (sample_clock, [], SelSlot) ''1.2.3.4'' sample_message
      (sample_server, 3) = ((s1, 4), Ret [''{r}'' @ [newline]])" using sample_handleMessage by blast
  from one_response_per_message [OF h] show ?thesis by blast
qed

end
