(* ===== verification/Client.thy ===== *)
theory Client
  imports Server
begin

text \<open>
  The TCP client of \<open>tcp_client.go\<close>. Its two locks are part of its state, as some of its
  methods call each other while they hold them: a call that needs a lock that is not free does not return.
  The network is a parameter; \<open>server_network\<close> instantiates it with the server of
  \<open>Server\<close>, so that client and server can be run against each other.
\<close>

section \<open>The network\<close>

text \<open>
  \<open>net_Receive\<close> gives the bytes that reading delivers until there is a whole line or no more is to
  come, and the error that ended it, if any.
\<close>

record 'n network =
  net_Now :: "'n \<Rightarrow> time"
  net_Dial :: "string \<Rightarrow> duration \<Rightarrow> 'n \<Rightarrow> 'n \<times> (go_error + handle)"
  net_Close :: "handle \<Rightarrow> 'n \<Rightarrow> 'n"
  net_SetWriteDeadline :: "handle \<Rightarrow> time \<Rightarrow> 'n \<Rightarrow> 'n \<times> go_error option"
  net_SetReadDeadline :: "handle \<Rightarrow> time \<Rightarrow> 'n \<Rightarrow> 'n \<times> go_error option"
  net_Write :: "handle \<Rightarrow> string \<Rightarrow> 'n \<Rightarrow> 'n \<times> go_error option"
  net_Receive :: "handle \<Rightarrow> 'n \<Rightarrow> 'n \<times> string \<times> go_error option"

section \<open>State\<close>

text \<open>A \<open>sync.RWMutex\<close>: free, held by readers, or held by a writer.\<close>

datatype rw_mutex = Unlocked | ReadLocked nat | WriteLocked

record TCPClient =
  c_address :: string
  c_conn :: "handle option"
  messageID :: uint64
  mu_locked :: bool
  c_timeout :: duration
  connected :: bool
  connMu :: rw_mutex

record TCPClientConfig =
  cc_Address :: string
  cc_Timeout :: duration

definition NewTCPClient :: "TCPClientConfig \<Rightarrow> TCPClient" where
  "NewTCPClient config =
     \<lparr>c_address = cc_Address config, c_conn = None, messageID = 0, mu_locked = False,
      c_timeout = (if cc_Timeout config > 0 then cc_Timeout config else 30 * Second), connected = False,
      connMu = Unlocked\<rparr>"

definition Client_GetAddress :: "TCPClient \<Rightarrow> string" where
  "Client_GetAddress c = c_address c"

type_synonym 'n cl_state = "TCPClient \<times> 'n"

definition nextID :: "TCPClient \<Rightarrow> TCPClient \<times> string" where
  "nextID c = (let i = messageID c + 1 in (c\<lparr>messageID := i\<rparr>, show_int (uint i)))"

text \<open>\<open>IsConnected\<close> takes the read lock: it waits for a writer.\<close>

definition Client_IsConnected :: "TCPClient \<Rightarrow> bool outcome" where
  "Client_IsConnected c = (if connMu c = WriteLocked then Blocked else Ret (connected c))"

section \<open>Sending and receiving\<close>

definition not_connected_client :: go_error where
  "not_connected_client = Errorf ''not connected''"

definition id_mismatch :: "string \<Rightarrow> string \<Rightarrow> go_error" where
  "id_mismatch i j = Errorf (''response ID mismatch: expected '' @ i @ '', got '' @ j)"

text \<open>Reading the response: a scanner of its own for each response, of which the first line is used.\<close>

definition read_response :: "json_codec \<Rightarrow> TCPMessage \<Rightarrow> string \<times> go_error option \<Rightarrow> go_error + TCPResponse" where
  "read_response cdc msg = (\<lambda>(bytes, rerr).
     (case scan_lines bytes of
        ([], True) \<Rightarrow> Inl (ErrorfW ''failed to read response: '' (ErrExt 4 ''bufio.Scanner: token too long'') [])
      | ([], False) \<Rightarrow>
          (case rerr of
             Some err \<Rightarrow> Inl (ErrorfW ''failed to read response: '' err [])
           | None \<Rightarrow> Inl (Errorf ''connection closed''))
      | (line # _, _) \<Rightarrow>
          (case DecodeTCPResponse cdc line of
             Inl err \<Rightarrow> Inl err
           | Inr resp \<Rightarrow> if resp_ID resp \<noteq> msg_ID msg then Inl (id_mismatch (msg_ID msg) (resp_ID resp)) else Inr resp)))"

text \<open>The part of \<open>sendAndReceive\<close> after the test for a connection.\<close>

definition exchange ::
    "json_codec \<Rightarrow> 'n network \<Rightarrow> TCPMessage \<Rightarrow> duration \<Rightarrow> handle \<Rightarrow> 'n \<Rightarrow> 'n \<times> (go_error + TCPResponse)" where
  "exchange cdc net msg timeout conn n =
     (case net_SetWriteDeadline net conn (time_Add (net_Now net n) timeout) n of
        (n1, Some err) \<Rightarrow> (n1, Inl (ErrorfW ''failed to set write deadline: '' err []))
      | (n1, None) \<Rightarrow>
          (case EncodeTCPMessage cdc msg of
             Inl err \<Rightarrow> (n1, Inl err)
           | Inr data \<Rightarrow>
               (case net_Write net conn data n1 of
                  (n2, Some err) \<Rightarrow> (n2, Inl (ErrorfW ''failed to send message: '' err []))
                | (n2, None) \<Rightarrow>
                    (case net_SetReadDeadline net conn (time_Add (net_Now net n2) timeout) n2 of
                       (n3, Some err) \<Rightarrow> (n3, Inl (ErrorfW ''failed to set read deadline: '' err []))
                     | (n3, None) \<Rightarrow>
                         (case net_Receive net conn n3 of (n4, input) \<Rightarrow> (n4, read_response cdc msg input))))))"

text \<open>
  A connected client has a connection unless it was never set, which would be a nil
  dereference.
\<close>

definition sendAndReceive ::
    "json_codec \<Rightarrow> 'n network \<Rightarrow> TCPMessage \<Rightarrow> 'n cl_state \<Rightarrow> 'n cl_state \<times> (go_error + TCPResponse) outcome" where
  "sendAndReceive cdc net msg = (\<lambda>(c, n).
     (if mu_locked c then ((c, n), Blocked)
      else
        (case Client_IsConnected c of
           Ret False \<Rightarrow> ((c, n), Ret (Inl not_connected_client))
         | Ret True \<Rightarrow>
             (case c_conn c of
                None \<Rightarrow> ((c, n), Panic nil_dereference)
              | Some conn \<Rightarrow> (case exchange cdc net msg (c_timeout c) conn n of (n1, r) \<Rightarrow> ((c, n1), Ret r)))
         | Panic m \<Rightarrow> ((c, n), Panic m)
         | Blocked \<Rightarrow> ((c\<lparr>mu_locked := True\<rparr>, n), Blocked))))"

definition sendMessage ::
    "json_codec \<Rightarrow> 'n network \<Rightarrow> TCPMessage \<Rightarrow> 'n cl_state \<Rightarrow> 'n cl_state \<times> go_error option outcome" where
  "sendMessage cdc net msg = (\<lambda>(c, n).
     (if mu_locked c then ((c, n), Blocked)
      else
        (case Client_IsConnected c of
           Ret False \<Rightarrow> ((c, n), Ret (Some not_connected_client))
         | Ret True \<Rightarrow>
             (case EncodeTCPMessage cdc msg of
                Inl err \<Rightarrow> ((c, n), Ret (Some err))
              | Inr data \<Rightarrow>
                  (case c_conn c of
                     None \<Rightarrow> ((c, n), Panic nil_dereference)
                   | Some conn \<Rightarrow>
                       (case net_Write net conn data n of
                          (n1, Some err) \<Rightarrow> ((c, n1), Ret (Some (ErrorfW ''failed to send message: '' err [])))
                        | (n1, None) \<Rightarrow> ((c, n1), Ret None))))
         | Panic m \<Rightarrow> ((c, n), Panic m)
         | Blocked \<Rightarrow> ((c\<lparr>mu_locked := True\<rparr>, n), Blocked))))"

section \<open>Connecting\<close>

definition Client_Connect :: "'n network \<Rightarrow> 'n cl_state \<Rightarrow> 'n cl_state \<times> go_error option outcome" where
  "Client_Connect net = (\<lambda>(c, n).
     (if connMu c \<noteq> Unlocked then ((c, n), Blocked)
      else if connected c then ((c, n), Ret (Some (Errorf ''already connected'')))
      else
        (case net_Dial net (c_address c) (c_timeout c) n of
           (n1, Inl err) \<Rightarrow> ((c, n1), Ret (Some (ErrorfW (''failed to connect to '' @ c_address c @ '': '') err [])))
         | (n1, Inr conn) \<Rightarrow> ((c\<lparr>c_conn := Some conn, connected := True\<rparr>, n1), Ret None))))"

definition plain_message :: "MessageType \<Rightarrow> string \<Rightarrow> TCPMessage" where
  "plain_message t i =
     \<lparr>msg_Type = t, msg_ID = i, msg_Query = [], msg_Args = [], msg_Payload = [], IdempotencyKey = [],
      ClientIP = [], RequestSize = 0\<rparr>"

definition Client_Disconnect :: "json_codec \<Rightarrow> 'n network \<Rightarrow> 'n cl_state \<Rightarrow> 'n cl_state \<times> go_error option outcome" where
  "Client_Disconnect cdc net = (\<lambda>(c, n).
     (if connMu c \<noteq> Unlocked then ((c, n), Blocked)
      else if \<not> connected c then ((c, n), Ret (Some not_connected_client))
      else
        (let (c1, i) = nextID (c\<lparr>connMu := WriteLocked\<rparr>)
         in case sendMessage cdc net (plain_message MessageTypeClose i) (c1, n) of
              ((c2, n2), Panic m) \<Rightarrow> ((c2\<lparr>connMu := Unlocked\<rparr>, n2), Panic m)
            | ((c2, n2), Blocked) \<Rightarrow> ((c2, n2), Blocked)
            | ((c2, n2), Ret _) \<Rightarrow>
                (let n3 = (case c_conn c2 of None \<Rightarrow> n2 | Some conn \<Rightarrow> net_Close net conn n2)
                 in ((c2\<lparr>c_conn := None, connected := False, connMu := Unlocked\<rparr>, n3), Ret None)))))"

section \<open>Requests\<close>

text \<open>The common shape of the requests: a new identifier, the exchange, the answer.\<close>

definition request ::
    "json_codec \<Rightarrow> 'n network \<Rightarrow> (string \<Rightarrow> TCPMessage) \<Rightarrow> string \<Rightarrow> (string \<Rightarrow> go_error + 'a) \<Rightarrow>
     'n cl_state \<Rightarrow> 'n cl_state \<times> (go_error + 'a) outcome" where
  "request cdc net mk what parse = (\<lambda>(c, n).
     (case nextID c of
        (c1, i) \<Rightarrow>
          (case sendAndReceive cdc net (mk i) (c1, n) of
             (st, Panic m) \<Rightarrow> (st, Panic m)
           | (st, Blocked) \<Rightarrow> (st, Blocked)
           | (st, Ret (Inl err)) \<Rightarrow> (st, Ret (Inl err))
           | (st, Ret (Inr resp)) \<Rightarrow>
               if \<not> resp_Success resp then (st, Ret (Inl (Errorf (what @ '' failed: '' @ resp_Error resp))))
               else (st, Ret (parse (resp_Data resp))))))"

definition Client_Ping :: "json_codec \<Rightarrow> 'n network \<Rightarrow> 'n cl_state \<Rightarrow> 'n cl_state \<times> (go_error + unit) outcome" where
  "Client_Ping cdc net = request cdc net (plain_message MessageTypePing) ''ping'' (\<lambda>_. Inr ())"

definition query_message :: "MessageType \<Rightarrow> string \<Rightarrow> string \<Rightarrow> go_value list \<Rightarrow> string \<Rightarrow> TCPMessage" where
  "query_message t query key args i =
     (plain_message t i)\<lparr>msg_Query := query, msg_Args := args, IdempotencyKey := key\<rparr>"

definition ParseExecResult :: "json_codec \<Rightarrow> string \<Rightarrow> go_error + ExecResult" where
  "ParseExecResult cdc data = unmarshal_exec cdc data"

definition ParseQueryResult :: "json_codec \<Rightarrow> string \<Rightarrow> go_error + string list \<times> go_value list list" where
  "ParseQueryResult cdc data = unmarshal_query cdc data"

definition ParseStatsResult :: "json_codec \<Rightarrow> string \<Rightarrow> go_error + StatsResult" where
  "ParseStatsResult cdc data = unmarshal_stats cdc data"

definition ParseMetricsResult :: "json_codec \<Rightarrow> string \<Rightarrow> go_error + MetricsResult" where
  "ParseMetricsResult cdc data = unmarshal_metrics cdc data"

definition ExecWithIdempotency ::
    "json_codec \<Rightarrow> 'n network \<Rightarrow> string \<Rightarrow> string \<Rightarrow> go_value list \<Rightarrow> 'n cl_state \<Rightarrow>
     'n cl_state \<times> (go_error + ExecResult) outcome" where
  "ExecWithIdempotency cdc net query key args =
     request cdc net (query_message MessageTypeExec query key args) ''exec'' (ParseExecResult cdc)"

definition Client_Exec ::
    "json_codec \<Rightarrow> 'n network \<Rightarrow> string \<Rightarrow> go_value list \<Rightarrow> 'n cl_state \<Rightarrow> 'n cl_state \<times> (go_error + ExecResult) outcome" where
  "Client_Exec cdc net query args = ExecWithIdempotency cdc net query [] args"

definition QueryWithIdempotency ::
    "json_codec \<Rightarrow> 'n network \<Rightarrow> string \<Rightarrow> string \<Rightarrow> go_value list \<Rightarrow> 'n cl_state \<Rightarrow>
     'n cl_state \<times> (go_error + string list \<times> go_value list list) outcome" where
  "QueryWithIdempotency cdc net query key args =
     request cdc net (query_message MessageTypeQuery query key args) ''query'' (ParseQueryResult cdc)"

definition Client_Query ::
    "json_codec \<Rightarrow> 'n network \<Rightarrow> string \<Rightarrow> go_value list \<Rightarrow> 'n cl_state \<Rightarrow>
     'n cl_state \<times> (go_error + string list \<times> go_value list list) outcome" where
  "Client_Query cdc net query args = QueryWithIdempotency cdc net query [] args"

definition Client_Stats :: "json_codec \<Rightarrow> 'n network \<Rightarrow> 'n cl_state \<Rightarrow> 'n cl_state \<times> (go_error + StatsResult) outcome" where
  "Client_Stats cdc net = request cdc net (plain_message MessageTypeStats) ''stats'' (ParseStatsResult cdc)"

definition Client_Metrics :: "json_codec \<Rightarrow> 'n network \<Rightarrow> 'n cl_state \<Rightarrow> 'n cl_state \<times> (go_error + MetricsResult) outcome" where
  "Client_Metrics cdc net = request cdc net (plain_message MessageTypeMetrics) ''metrics'' (ParseMetricsResult cdc)"

definition SetTimeout :: "duration \<Rightarrow> TCPClient \<Rightarrow> TCPClient" where
  "SetTimeout t c = c\<lparr>c_timeout := t\<rparr>"

section \<open>A client on the server\<close>

text \<open>
  The network that connects a client to the server: what is written is handled at once, in the order of its lines,
  the responses wait until they are read, and reading when there is none runs into the deadline.
\<close>

definition server_network ::
    "json_codec \<Rightarrow> 'w sql_driver \<Rightarrow> gate_env \<Rightarrow> string \<Rightarrow> ('w srv_state \<times> string) network" where
  "server_network cdc drv env ip =
     \<lparr>net_Now = (\<lambda>((s, w), pending). drv_Now drv w), net_Dial = (\<lambda>_ _ n. (n, Inr 0)), net_Close = (\<lambda>_ n. n),
      net_SetWriteDeadline = (\<lambda>_ _ n. (n, None)), net_SetReadDeadline = (\<lambda>_ _ n. (n, None)),
      net_Write = (\<lambda>_ data (st, pending).
        (case client_loop cdc drv ip (map (Pair env) (fst (scan_lines data))) st of
           (st1, Ret out) \<Rightarrow> ((st1, pending @ concat out), None)
         | (st1, _) \<Rightarrow> ((st1, pending), None))),
      net_Receive = (\<lambda>_ (st, pending).
        ((st, []), pending, if pending = [] then Some (ErrExt 5 ''i/o timeout'') else None))\<rparr>"

lemma scan_one_frame:
  assumes "one_line t" "length (t @ [newline]) \<le> max_line"
  shows "scan_lines (t @ [newline]) = ([t], False)"
  using scan_lines_frames [of "[t]"] assms by simp

lemma client_loop_one:
  assumes "\<not> shutdown_closed (fst st)" "DecodeTCPMessage cdc t = Inr m"
    "handleMessage cdc drv env ip (m\<lparr>RequestSize := int (length t), ClientIP := ip\<rparr>) st = (st1, Ret out)"
  shows "client_loop cdc drv ip [(env, t)] st = (st1, Ret out)"
  using assms by simp

lemma read_response_frame:
  assumes "codec_ok cdc" "EncodeTCPResponse cdc resp = Inr g" "length g \<le> max_line" "response_native cdc resp"
  shows "read_response cdc m (g, e) =
    (if resp_ID resp \<noteq> msg_ID m then Inl (id_mismatch (msg_ID m) (resp_ID resp)) else Inr resp)"
proof -
  obtain t where "g = t @ [newline]" "one_line t" "DecodeTCPResponse cdc t = Inr resp"
    using EncodeTCPResponse_frame [OF assms(1,4,2)] by blast
  with assms(3) scan_one_frame [of t] show ?thesis by (simp add: read_response_def)
qed

text \<open>One exchange with the server, given what the server makes of the message.\<close>

lemma exchange_server_network:
  assumes "codec_ok cdc" "message_native m" "EncodeTCPMessage cdc m = Inr f" "length f \<le> max_line"
    and "\<not> shutdown_closed s"
    and "handleMessage cdc drv env ip (m\<lparr>RequestSize := int (length f - 1), ClientIP := ip\<rparr>) (s, w) =
      (st1, Ret (sendResponse cdc resp))"
    and "EncodeTCPResponse cdc resp = Inr g" "length g \<le> max_line" "response_native cdc resp"
  shows "exchange cdc (server_network cdc drv env ip) m timeout conn ((s, w), []) =
    ((st1, []), if resp_ID resp \<noteq> msg_ID m then Inl (id_mismatch (msg_ID m) (resp_ID resp)) else Inr resp)"
proof -
  obtain t where t: "f = t @ [newline]" "one_line t" "DecodeTCPMessage cdc t = Inr m"
    using EncodeTCPMessage_frame [OF assms(1-3)] by blast
  have scan: "scan_lines f = ([t], False)" using scan_one_frame [OF t(2)] assms(4) t(1) by simp
  have "client_loop cdc drv ip [(env, t)] (s, w) = (st1, Ret [g])"
    using client_loop_one [of "(s, w)" cdc t m drv env ip] assms(5,6,7) t by (simp add: sendResponse_def)
  with scan read_response_frame [OF assms(1,7,8,9)] assms(3) show ?thesis
    by (simp add: exchange_def server_network_def)
qed

text \<open>A client that is connected and whose locks are free.\<close>

definition idle_client :: "TCPClient \<Rightarrow> handle \<Rightarrow> bool" where
  "idle_client c conn \<longleftrightarrow> connected c \<and> c_conn c = Some conn \<and> \<not> mu_locked c \<and> connMu c = Unlocked"

definition next_id :: "TCPClient \<Rightarrow> string" where
  "next_id c = show_int (uint (messageID c + 1))"

lemma sendAndReceive_idle:
  assumes "idle_client c conn"
  shows "sendAndReceive cdc net m (c, n) =
    (case exchange cdc net m (c_timeout c) conn n of (n1, r) \<Rightarrow> ((c, n1), Ret r))"
  using assms by (simp add: sendAndReceive_def idle_client_def Client_IsConnected_def)

lemma request_idle:
  assumes "idle_client c conn"
  shows "request cdc net mk what parse (c, n) =
    (case exchange cdc net (mk (next_id c)) (c_timeout c) conn n of
       (n1, Inl err) \<Rightarrow> ((c\<lparr>messageID := messageID c + 1\<rparr>, n1), Ret (Inl err))
     | (n1, Inr resp) \<Rightarrow>
         ((c\<lparr>messageID := messageID c + 1\<rparr>, n1),
          Ret (if \<not> resp_Success resp then Inl (Errorf (what @ '' failed: '' @ resp_Error resp)) else parse (resp_Data resp))))"
proof -
  have idle: "idle_client (c\<lparr>messageID := messageID c + 1\<rparr>) conn" using assms by (simp add: idle_client_def)
  obtain n1 r where "exchange cdc net (mk (next_id c)) (c_timeout c) conn n = (n1, r)" by (metis surj_pair)
  then show ?thesis
    by (simp add: request_def nextID_def next_id_def Let_def sendAndReceive_idle [OF idle] split: sum.split)
qed

lemma handleMessage_plain:
  assumes "\<not> EnableDDoSProtection (srv_config s)" "IdempotencyKey msg = []"
  shows "handleMessage cdc drv env ip msg (s, w) = dispatch cdc drv env (msg\<lparr>ClientIP := ip\<rparr>) (s, w)"
  using assms by (simp add: handleMessage_def)

lemma finish_plain: "IdempotencyKey msg = [] \<Longrightarrow> finish drv msg ((s, w), Ret (out, r)) = ((s, w), Ret out)"
  by (simp add: finish_def)

text \<open>The response of the server to an \<open>EXEC\<close> message, from what the runtime returned.\<close>

definition exec_response :: "json_codec \<Rightarrow> 'w sql_driver \<Rightarrow> string \<Rightarrow> 'w \<Rightarrow> go_error + handle \<Rightarrow> go_error + TCPResponse" where
  "exec_response cdc drv i w r =
     (case r of
        Inl err \<Rightarrow> Inr (NewErrorResponse i err)
      | Inr h \<Rightarrow> NewSuccessResponse cdc i (DExec \<lparr>RowsAffected = drv_RowsAffected drv h w, LastInsertID = drv_LastInsertId drv h w\<rparr>))"

lemma handleExec_response:
  assumes "srv_runtime s = Some rt0" "Runtime_Exec drv env None (msg_Query msg) (msg_Args msg) (rt0, w) = ((rt, w1), Ret r)"
    and "exec_response cdc drv (msg_ID msg) w1 r = Inr resp"
  shows "handleExec cdc drv env msg (s, w) =
    ((s\<lparr>srv_runtime := Some rt\<rparr>, w1), Ret (sendResponse cdc resp, case r of Inl _ \<Rightarrow> None | Inr _ \<Rightarrow> Some resp))"
  using assms
  by (cases r) (auto simp: handleExec_def with_runtime_def exec_response_def sendError_def reply_def)

lemma ascii_show_digits: "0 \<le> n \<Longrightarrow> ascii (show_digits n)"
proof (induction n rule: show_digits.induct)
  case (1 n)
  then show ?case by (subst show_digits.simps) (auto simp: ascii_def)
qed

lemma ascii_next_id [simp]: "ascii (next_id c)"
  by (simp add: next_id_def show_int_def ascii_show_digits)

text \<open>The identifiers a client gives out do not repeat before the counter does.\<close>

lemma nextID_run:
  "snd (run (\<lambda>c (_ :: unit). nextID c) c (replicate k ())) =
     map (\<lambda>j. show_int (uint (messageID c + 1 + of_nat j))) [0..<k]"
proof (induction k arbitrary: c)
  case (Suc k)
  have "[0..<Suc k] = 0 # map Suc [0..<k]" by (metis map_Suc_upt upt_conv_Cons zero_less_Suc)
  with Suc show ?case
    by (simp add: run_Cons nextID_def Let_def add.assoc del: run.simps(2) upt_Suc)
qed simp

lemma message_ids_distinct:
  assumes "k \<le> 2 ^ 64"
  shows "distinct (snd (run (\<lambda>c (_ :: unit). nextID c) c (replicate k ())))"
proof -
  have "i = j" if "i < k" "j < k" "messageID c + 1 + of_nat i = messageID c + 1 + of_nat j" for i j
  proof -
    have "unat (of_nat i :: uint64) = unat (of_nat j :: uint64)" using that(3) by simp
    then show ?thesis using that(1,2) assms by (simp add: unat_of_nat take_bit_eq_mod)
  qed
  then show ?thesis
    by (auto simp: nextID_run distinct_map inj_on_def show_int_def show_digits_inj word_uint_eq_iff [symmetric])
qed

lemma query_message_native:
  "ascii t \<Longrightarrow> ascii query \<Longrightarrow> ascii key \<Longrightarrow> list_all json_native args \<Longrightarrow>
   message_native (query_message t query key args (next_id c))"
  by (simp add: message_native_def query_message_def plain_message_def ascii_def [of "[]"])

lemma query_message_fields [simp]:
  "msg_Type (query_message t query key args i) = t" "msg_ID (query_message t query key args i) = i"
  "msg_Query (query_message t query key args i) = query" "msg_Args (query_message t query key args i) = args"
  "IdempotencyKey (query_message t query key args i) = key"
  by (simp_all add: query_message_def plain_message_def)

lemma ascii_Exec [simp]: "ascii MessageTypeExec"
  by (simp add: MessageTypeExec_def ascii_def)

section \<open>Properties\<close>

text \<open>
  C23. A statement sent through the client is executed by the server's runtime, once, and the client
  returns what the runtime returned: the counts of the result, or an error with the text of the runtime's error. The
  conditions are that the arguments survive JSON, that message and response fit the line buffers, and that
  the server is running without flood protection.
\<close>

theorem exec_end_to_end:
  assumes "codec_ok cdc" and "idle_client c conn"
    and "ascii query" and "list_all json_native args"
    and "EncodeTCPMessage cdc (query_message MessageTypeExec query [] args (next_id c)) = Inr f" and "length f \<le> max_line"
    and "\<not> shutdown_closed s" and "\<not> EnableDDoSProtection (srv_config s)"
    and "srv_runtime s = Some rt0" and "Runtime_Exec drv env None query args (rt0, w) = ((rt, w1), Ret r)"
    and "exec_response cdc drv (next_id c) w1 r = Inr resp" and "EncodeTCPResponse cdc resp = Inr g"
    and "length g \<le> max_line" and "response_native cdc resp"
  shows "Client_Exec cdc (server_network cdc drv env ip) query args (c, ((s, w), [])) =
    ((c\<lparr>messageID := messageID c + 1\<rparr>, ((s\<lparr>srv_runtime := Some rt\<rparr>, w1), [])),
     Ret (case r of
            Inl err \<Rightarrow> Inl (Errorf (''exec failed: '' @ error_text err))
          | Inr h \<Rightarrow> Inr \<lparr>RowsAffected = drv_RowsAffected drv h w1, LastInsertID = drv_LastInsertId drv h w1\<rparr>))"
proof -
  let ?m = "query_message MessageTypeExec query [] args (next_id c)"
  let ?m1 = "?m\<lparr>RequestSize := int (length f - 1), ClientIP := ip\<rparr>"
  have native: "message_native ?m" using assms(3,4) by (intro query_message_native) (simp_all add: ascii_def [of "[]"])
  have "handleExec cdc drv env (?m1\<lparr>ClientIP := ip\<rparr>) (s, w) =
      ((s\<lparr>srv_runtime := Some rt\<rparr>, w1), Ret (sendResponse cdc resp, case r of Inl _ \<Rightarrow> None | Inr _ \<Rightarrow> Some resp))"
    using assms(9-11) by (intro handleExec_response) simp_all
  then have "handleMessage cdc drv env ip ?m1 (s, w) = ((s\<lparr>srv_runtime := Some rt\<rparr>, w1), Ret (sendResponse cdc resp))"
    using assms(8) by (simp add: handleMessage_plain dispatch_exec finish_plain)
  note ex = exchange_server_network [OF assms(1) native assms(5,6,7) this assms(12,13,14), of "c_timeout c" conn]
  have "resp_ID resp = next_id c"
    using assms(11) by (auto simp: exec_response_def NewErrorResponse_def NewSuccessResponse_def split: sum.splits)
  with ex assms(1,11) show ?thesis
    by (auto simp: Client_Exec_def ExecWithIdempotency_def request_idle [OF assms(2)] exec_response_def
        NewErrorResponse_def NewSuccessResponse_def ParseExecResult_def codec_ok_def split: sum.splits)
qed

text \<open>The first of two requests with the same key, as the server sees it.\<close>

lemma first_keyed_exec:
  assumes "\<not> EnableDDoSProtection (srv_config s)" "EnableIdempotency (srv_config s)" "idempotencyCache s = Some d"
    and "key \<noteq> []" "cache_lookup (drv_Now drv w) key d = None" "IdempotencyKey msg = key" "msg_Type msg = MessageTypeExec"
    and "srv_runtime s = Some rt0" "Runtime_Exec drv env None (msg_Query msg) (msg_Args msg) (rt0, w) = ((rt, w1), Ret (Inr h))"
    and "exec_response cdc drv (msg_ID msg) w1 (Inr h) = Inr resp"
  shows "handleMessage cdc drv env ip msg (s, w) =
    ((s\<lparr>srv_runtime := Some rt, idempotencyCache := Some (fst (InMemoryCache_Set (drv_Now drv w1) key resp (300 * Second)
        (fst (InMemoryCache_Get (drv_Now drv w) key d))))\<rparr>, w1), Ret (sendResponse cdc resp))"
proof -
  let ?s = "s\<lparr>idempotencyCache := Some (fst (InMemoryCache_Get (drv_Now drv w) key d))\<rparr>"
  have "handleExec cdc drv env (msg\<lparr>ClientIP := ip\<rparr>) (?s, w) =
      ((?s\<lparr>srv_runtime := Some rt\<rparr>, w1), Ret (sendResponse cdc resp, Some resp))"
    using handleExec_response [of ?s rt0 drv env "msg\<lparr>ClientIP := ip\<rparr>" w rt w1 "Inr h" cdc resp] assms(8-10) by simp
  with assms(1-7) show ?thesis
    by (simp add: handleMessage_first dispatch_exec finish_def storeIdempotency_def)
qed

text \<open>
  C24. The client cannot use the idempotency of the server: after a statement with a new key has succeeded, the same
  call again, within five minutes, is not executed a second time, but the client rejects the answer, as the stored
  response carries the identifier of the first request.
\<close>

theorem idempotent_retry_rejected:
  fixes drv :: "'w sql_driver"
  assumes "codec_ok cdc" and "idle_client c conn"
    and "ascii query" and "ascii key" and "list_all json_native args" and "key \<noteq> []"
    and "EncodeTCPMessage cdc (query_message MessageTypeExec query key args (next_id c)) = Inr f1"
    and "length f1 \<le> max_line" and "c1 = c\<lparr>messageID := messageID c + 1\<rparr>"
    and "EncodeTCPMessage cdc (query_message MessageTypeExec query key args (next_id c1)) = Inr f2" and "length f2 \<le> max_line"
    and "\<not> shutdown_closed s" and "\<not> EnableDDoSProtection (srv_config s)" and "EnableIdempotency (srv_config s)"
    and "idempotencyCache s = Some d" and "cache_inv d" and "cache_lookup (drv_Now drv w) key d = None"
    and "srv_runtime s = Some rt0" and "Runtime_Exec drv env None query args (rt0, w) = ((rt, w1), Ret (Inr h))"
    and "exec_response cdc drv (next_id c) w1 (Inr h) = Inr resp" and "EncodeTCPResponse cdc resp = Inr g"
    and "length g \<le> max_line" and "response_native cdc resp"
    and "drv_Now drv v \<le> time_Add (drv_Now drv w1) (300 * Second)"
  shows "\<exists>s1 s2. ExecWithIdempotency cdc (server_network cdc drv env ip) query key args (c, ((s, w), [])) =
      ((c1, ((s1, w1), [])),
       Ret (Inr \<lparr>RowsAffected = drv_RowsAffected drv h w1, LastInsertID = drv_LastInsertId drv h w1\<rparr>)) \<and>
    ExecWithIdempotency cdc (server_network cdc drv env ip) query key args (c1, ((s1, v), [])) =
      ((c1\<lparr>messageID := messageID c1 + 1\<rparr>, ((s2, v), [])), Ret (Inl (id_mismatch (next_id c1) (next_id c)))) \<and>
    srv_runtime s2 = srv_runtime s1"
proof -
  let ?m = "\<lambda>c. query_message MessageTypeExec query key args (next_id c)"
  let ?m' = "\<lambda>c f. (?m c)\<lparr>RequestSize := int (length f - 1), ClientIP := ip\<rparr>"
  have native: "message_native (?m c)" for c using assms(3-5) by (intro query_message_native) simp_all
  have id: "resp_ID resp = next_id c" "resp_Success resp"
    using assms(20) by (auto simp: exec_response_def NewSuccessResponse_def split: sum.splits)
  have parse: "unmarshal_exec cdc (resp_Data resp) =
      Inr \<lparr>RowsAffected = drv_RowsAffected drv h w1, LastInsertID = drv_LastInsertId drv h w1\<rparr>"
    using assms(1,20) by (auto simp: exec_response_def NewSuccessResponse_def codec_ok_def split: sum.splits)
  have idle: "idle_client c1 conn" using assms(2,9) by (simp add: idle_client_def)
  have "uint (messageID c + 1 + 1) \<noteq> uint (messageID c + 1)"
    by (simp add: word_uint_eq_iff [symmetric])
  then have neq: "next_id c1 \<noteq> next_id c"
    using assms(9) by (simp add: next_id_def show_int_def show_digits_inj)
  let ?s1 = "s\<lparr>srv_runtime := Some rt, idempotencyCache := Some (fst (InMemoryCache_Set (drv_Now drv w1) key resp (300 * Second)
        (fst (InMemoryCache_Get (drv_Now drv w) key d))))\<rparr>"
  have h1: "handleMessage cdc drv env ip (?m' c f1) (s, w) = ((?s1, w1), Ret (sendResponse cdc resp))"
    using assms(18-20) by (intro first_keyed_exec [OF assms(13-15,6,17)]) simp_all
  obtain s2 where h2: "handleMessage cdc drv env ip (?m' c1 f2) (?s1, v) = ((s2, v), Ret (sendResponse cdc resp))"
    and s2: "srv_runtime s2 = srv_runtime ?s1"
    using replay_after_store [of ?s1 "?m' c1 f2" "drv_Now drv w1" resp
        "fst (InMemoryCache_Get (drv_Now drv w) key d)" drv v cdc env ip]
      assms(6,13,14,24) Get_inv [OF assms(16)] by auto
  note e1 = exchange_server_network [OF assms(1) native assms(7,8,12) h1 assms(21-23), of "c_timeout c" conn]
  note e2 = exchange_server_network [OF assms(1) native assms(10,11) _ h2 assms(21-23), of "c_timeout c1" conn]
  from e1 id parse assms(9)
  have "ExecWithIdempotency cdc (server_network cdc drv env ip) query key args (c, ((s, w), [])) =
      ((c1, ((?s1, w1), [])),
       Ret (Inr \<lparr>RowsAffected = drv_RowsAffected drv h w1, LastInsertID = drv_LastInsertId drv h w1\<rparr>))"
    by (simp add: ExecWithIdempotency_def request_idle [OF assms(2)] ParseExecResult_def)
  moreover from e2 assms(12) id(1) neq
  have "ExecWithIdempotency cdc (server_network cdc drv env ip) query key args (c1, ((?s1, v), [])) =
      ((c1\<lparr>messageID := messageID c1 + 1\<rparr>, ((s2, v), [])), Ret (Inl (id_mismatch (next_id c1) (next_id c))))"
    by (simp add: ExecWithIdempotency_def request_idle [OF idle])
  ultimately show ?thesis using s2 by blast
qed

lemma request_locked:
  "mu_locked c \<Longrightarrow> snd (request cdc net mk what parse (c, n)) = Blocked"
  by (simp add: request_def nextID_def sendAndReceive_def Let_def)

text \<open>
  C25. Disconnecting a connected client never returns: it sends the closing message while it holds the
  write lock, and sending asks whether the client is connected, which needs the read lock. If the lock was
  free, later calls of \<open>Connect\<close>, \<open>Disconnect\<close>, \<open>IsConnected\<close>, \<open>Ping\<close>, \<open>Exec\<close> and \<open>Query\<close> on the client block as well. (\<open>GetAddress\<close> and
  \<open>SetTimeout\<close> take no lock.)
\<close>

theorem disconnect_deadlocks:
  assumes "connected c"
  shows "\<exists>c1. Client_Disconnect cdc net (c, n) = ((c1, n), Blocked) \<and>
    (connMu c = Unlocked \<longrightarrow>
      Client_IsConnected c1 = Blocked \<and>
      (\<forall>n'. snd (Client_Connect net (c1, n')) = Blocked \<and> snd (Client_Disconnect cdc net (c1, n')) = Blocked \<and>
        snd (Client_Ping cdc net (c1, n')) = Blocked \<and> snd (Client_Exec cdc net query args (c1, n')) = Blocked \<and>
        snd (Client_Query cdc net query args (c1, n')) = Blocked))"
proof (cases "connMu c = Unlocked")
  case True
  let ?c = "c\<lparr>connMu := WriteLocked, messageID := messageID c + 1, mu_locked := True\<rparr>"
  have "Client_Disconnect cdc net (c, n) = ((?c, n), Blocked)"
    using assms True
    by (cases "mu_locked c") (simp_all add: Client_Disconnect_def nextID_def sendMessage_def Client_IsConnected_def Let_def)
  moreover have "snd (Client_Disconnect cdc net (?c, n')) = Blocked" "snd (Client_Connect net (?c, n')) = Blocked" for n'
    by (simp_all add: Client_Disconnect_def Client_Connect_def)
  moreover have "snd (Client_Ping cdc net (?c, n')) = Blocked" "snd (Client_Exec cdc net query args (?c, n')) = Blocked"
    "snd (Client_Query cdc net query args (?c, n')) = Blocked" for n'
    by (simp_all add: request_locked Client_Ping_def Client_Exec_def ExecWithIdempotency_def Client_Query_def
        QueryWithIdempotency_def)
  moreover have "Client_IsConnected ?c = Blocked" by (simp add: Client_IsConnected_def)
  ultimately show ?thesis by metis
next
  case False
  with assms show ?thesis by (simp add: Client_Disconnect_def)
qed

section \<open>Witnesses\<close>

definition sample_client :: TCPClient where
  "sample_client = (NewTCPClient \<lparr>cc_Address = ''localhost:9090'', cc_Timeout = 0\<rparr>)\<lparr>c_conn := Some 0, connected := True\<rparr>"

theorem disconnect_deadlocks_witness:
  "\<exists>c1. Client_Disconnect sample_codec
     (server_network sample_codec (sample_driver (Inr 9)) (sample_clock, [], SelSlot) ''1.2.3.4'')
     (sample_client, ((sample_server, 3), [])) = ((c1, ((sample_server, 3), [])), Blocked)"
proof -
  have "connected sample_client" by (simp add: sample_client_def)
  from disconnect_deadlocks [OF this, of sample_codec
      "server_network sample_codec (sample_driver (Inr 9)) (sample_clock, [], SelSlot) ''1.2.3.4''"
      "((sample_server, 3), [])" "[]" "[]"]
  show ?thesis by blast
qed

lemma sample_ids: "next_id sample_client = ''1''" "next_id (sample_client\<lparr>messageID := messageID sample_client + 1\<rparr>) = ''2''"
proof -
  have "show_int 1 = ''1''" "show_int 2 = ''2''" by code_simp+
  then show "next_id sample_client = ''1''" "next_id (sample_client\<lparr>messageID := messageID sample_client + 1\<rparr>) = ''2''"
    by (simp_all add: next_id_def sample_client_def NewTCPClient_def)
qed

lemma sample_query_message:
  "query_message MessageTypeExec ''INSERT'' ''k'' [VString ''a''] i = sample_message\<lparr>msg_ID := i\<rparr>"
  by (simp add: query_message_def plain_message_def sample_message_def MessageTypeExec_def)

lemma sample_exec_response:
  "exec_response sample_codec (sample_driver (Inr 9)) ''1'' 4 (Inr 9) = Inr sample_response"
  by (simp add: exec_response_def NewSuccessResponse_def sample_codec_def table_defs sample_driver_def
      sample_exec_result_def sample_response_def)

lemma sample_frames:
  "EncodeTCPMessage sample_codec (sample_message\<lparr>msg_ID := ''1''\<rparr>) = Inr (''{1}'' @ [newline])"
  "EncodeTCPMessage sample_codec (sample_message\<lparr>msg_ID := ''2''\<rparr>) = Inr (''{2}'' @ [newline])"
  "EncodeTCPResponse sample_codec sample_response = Inr (''{r}'' @ [newline])"
  by (simp_all add: EncodeTCPMessage_def EncodeTCPResponse_def sample_codec_def table_defs sample_message_def sample_response_def)

lemma sample_response_native: "response_native sample_codec sample_response"
proof -
  have "marshal_data sample_codec (DExec sample_exec_result) = Inr (resp_Data sample_response)"
    by (simp add: sample_codec_def table_defs sample_response_def)
  then show ?thesis by (auto simp: response_native_def sample_response_def ascii_def)
qed

theorem idempotent_retry_rejected_witness:
  "\<exists>s1 s2 c2. ExecWithIdempotency sample_codec
       (server_network sample_codec (sample_driver (Inr 9)) (sample_clock, [], SelSlot) ''1.2.3.4'')
       ''INSERT'' ''k'' [VString ''a''] (sample_client, ((sample_server, 3), [])) =
      ((c2, ((s1, 4), [])), Ret (Inr sample_exec_result)) \<and>
    snd (ExecWithIdempotency sample_codec
       (server_network sample_codec (sample_driver (Inr 9)) (sample_clock, [], SelSlot) ''1.2.3.4'')
       ''INSERT'' ''k'' [VString ''a''] (c2, ((s1, 100), []))) = Ret (Inl (id_mismatch ''2'' ''1''))"
proof -
  let ?drv = "sample_driver (Inr 9)" let ?env = "(sample_clock, [], SelSlot)"
  let ?c1 = "sample_client\<lparr>messageID := messageID sample_client + 1\<rparr>"
  have rt0: "srv_runtime sample_server = Some sample_runtime" by (simp add: sample_server_def NewTCPServer_def)
  obtain rt where rt: "Runtime_Exec ?drv ?env None ''INSERT'' [VString ''a''] (sample_runtime, 3) = ((rt, 4), Ret (Inr 9))"
    using sample_Exec by auto
  have srv: "\<not> shutdown_closed sample_server" "\<not> EnableDDoSProtection (srv_config sample_server)"
    "EnableIdempotency (srv_config sample_server)"
    "idempotencyCache sample_server = Some (NewInMemoryCache 10000 (300 * Second))"
    by (simp_all add: sample_server_def NewTCPServer_def sample_server_config_def)
  have none: "cache_lookup (drv_Now ?drv 3) ''k'' (NewInMemoryCache 10000 (300 * Second)) = None"
    by (simp add: cache_lookup_def NewInMemoryCache_def)
  have cl: "idle_client sample_client 0" by (simp add: idle_client_def sample_client_def NewTCPClient_def)
  have fits: "length (''{1}'' @ [newline]) \<le> max_line" "length (''{2}'' @ [newline]) \<le> max_line"
    "length (''{r}'' @ [newline]) \<le> max_line" by (simp_all add: max_line_def)
  have time: "drv_Now ?drv 100 \<le> time_Add (drv_Now ?drv 4) (300 * Second)"
    by (simp add: sample_driver_def time_Add_def Second_def)
  have res: "\<lparr>RowsAffected = drv_RowsAffected ?drv 9 4, LastInsertID = drv_LastInsertId ?drv 9 4\<rparr> = sample_exec_result"
    by (simp add: sample_driver_def sample_exec_result_def)
  have texts: "ascii ''INSERT''" "ascii ''k''" "list_all json_native [VString ''a'']" by (simp_all add: ascii_def)
  note ids = sample_ids sample_query_message
  from idempotent_retry_rejected [OF sample_codec_ok cl texts _ _ fits(1) refl _ fits(2) srv cache_inv_new none rt0 rt _
      sample_frames(3) fits(3) sample_response_native time, of "''1.2.3.4''", unfolded ids res]
    sample_frames(1,2) sample_exec_response
  show ?thesis by (metis list.distinct(1) snd_conv)
qed

definition plain_codec :: json_codec where
  "plain_codec = table_codec [(sample_message\<lparr>IdempotencyKey := []\<rparr>, ''{1}'')] [(sample_response, ''{r}'')]
     [(sample_exec_result, ''{x}'')]"

lemma plain_codec_ok: "codec_ok plain_codec"
  by (auto simp: codec_ok_def plain_codec_def table_defs one_line_def newline_def carriage_return_def
      split: option.splits if_splits)

theorem exec_end_to_end_witness:
  "snd (Client_Exec plain_codec
     (server_network plain_codec (sample_driver (Inr 9)) (sample_clock, [], SelSlot) ''1.2.3.4'')
     ''INSERT'' [VString ''a''] (sample_client, ((sample_server, 3), []))) = Ret (Inr sample_exec_result)"
proof -
  let ?drv = "sample_driver (Inr 9)" let ?env = "(sample_clock, [], SelSlot)"
  have rt0: "srv_runtime sample_server = Some sample_runtime" by (simp add: sample_server_def NewTCPServer_def)
  obtain rt where rt: "Runtime_Exec ?drv ?env None ''INSERT'' [VString ''a''] (sample_runtime, 3) = ((rt, 4), Ret (Inr 9))"
    using sample_Exec by auto
  have srv: "\<not> shutdown_closed sample_server" "\<not> EnableDDoSProtection (srv_config sample_server)"
    by (simp_all add: sample_server_def NewTCPServer_def sample_server_config_def)
  have cl: "idle_client sample_client 0" by (simp add: idle_client_def sample_client_def NewTCPClient_def)
  have fits: "length (''{1}'' @ [newline]) \<le> max_line" "length (''{r}'' @ [newline]) \<le> max_line"
    by (simp_all add: max_line_def)
  have texts: "ascii ''INSERT''" "list_all json_native [VString ''a'']" by (simp_all add: ascii_def)
  have msg: "EncodeTCPMessage plain_codec (query_message MessageTypeExec ''INSERT'' [] [VString ''a''] (next_id sample_client)) =
      Inr (''{1}'' @ [newline])"
    by (simp add: sample_ids EncodeTCPMessage_def plain_codec_def table_defs query_message_def plain_message_def
        sample_message_def MessageTypeExec_def)
  have resp: "EncodeTCPResponse plain_codec sample_response = Inr (''{r}'' @ [newline])"
    "exec_response plain_codec ?drv (next_id sample_client) 4 (Inr 9) = Inr sample_response"
    by (simp_all add: EncodeTCPResponse_def exec_response_def NewSuccessResponse_def plain_codec_def table_defs
        sample_driver_def sample_exec_result_def sample_response_def sample_ids)
  have "marshal_data plain_codec (DExec sample_exec_result) = Inr (resp_Data sample_response)"
    by (simp add: plain_codec_def table_defs sample_response_def)
  then have native: "response_native plain_codec sample_response"
    by (auto simp: response_native_def sample_response_def ascii_def)
  show ?thesis
    by (simp only: exec_end_to_end [OF plain_codec_ok cl texts msg fits(1) srv rt0 rt resp(2,1) fits(2) native] snd_conv
        sum.case) (simp add: sample_driver_def sample_exec_result_def)
qed

end
