(* ===== verification/Utils.thy ===== *)
theory Utils
  imports Runtime
begin

text \<open>
  The helpers of \<open>utils.go\<close> on top of the runtime (queries with a scan function, transactions as
  functions, health and diagnostics, retries) and the recovery strategies of \<open>errors.go\<close>. Functions that
  callers pass in are arguments that act on the state.
\<close>

section \<open>Queries\<close>

text \<open>
  The loop of \<open>Select\<close>; a result set need not end. The scan function changes the variables \<open>'u\<close> that it
  captures.
\<close>

type_synonym ('w, 'u) scan_function = "handle \<Rightarrow> 'w \<times> 'u \<Rightarrow> ('w \<times> 'u) \<times> go_error option"

partial_function (option) select_loop ::
    "'w sql_driver \<Rightarrow> handle \<Rightarrow> ('w, 'u) scan_function \<Rightarrow> 'w \<times> 'u \<Rightarrow> (('w \<times> 'u) \<times> go_error option) option" where
  "select_loop drv rows scanFunc v =
     (let (w1, more) = drv_Next drv rows (fst v)
      in if \<not> more then (case drv_RowsErr drv rows w1 of (w2, r) \<Rightarrow> Some ((w2, snd v), r))
         else (case scanFunc rows (w1, snd v) of
                 (v2, Some err) \<Rightarrow> Some (v2, Some (ErrorfW ''scan failed: '' err []))
               | (v2, None) \<Rightarrow> select_loop drv rows scanFunc v2))"

definition Select ::
    "'w sql_driver \<Rightarrow> gate_env \<Rightarrow> go_context \<Rightarrow> string \<Rightarrow> go_value list \<Rightarrow> ('w, 'u) scan_function \<Rightarrow>
     'w rt_state \<times> 'u \<Rightarrow> ('w rt_state \<times> 'u) \<times> go_error option outcome" where
  "Select drv env ctx query args scanFunc = (\<lambda>(st, u).
     (case Runtime_Query drv env ctx query args st of
        (st1, Panic m) \<Rightarrow> ((st1, u), Panic m)
      | (st1, Blocked) \<Rightarrow> ((st1, u), Blocked)
      | (st1, Ret (Inl err)) \<Rightarrow> ((st1, u), Ret (Some (ErrorfW ''query failed: '' err [])))
      | ((rt, w), Ret (Inr rows)) \<Rightarrow>
          (case select_loop drv rows scanFunc (w, u) of
             None \<Rightarrow> (((rt, w), u), Blocked)
           | Some ((w1, u1), r) \<Rightarrow> (((rt, drv_RowsClose drv rows w1), u1), Ret r))))"

text \<open>The scan function gets what \<open>QueryRow\<close> returns, which is nil when there is no connection.\<close>

definition SelectOne ::
    "'w sql_driver \<Rightarrow> go_context \<Rightarrow> string \<Rightarrow> go_value list \<Rightarrow>
     (handle option \<Rightarrow> 'w rt_state \<Rightarrow> 'w rt_state \<times> go_error option outcome) \<Rightarrow>
     'w rt_state \<Rightarrow> 'w rt_state \<times> go_error option outcome" where
  "SelectOne drv ctx query args scanFunc st =
     (case Runtime_QueryRow drv ctx query args st of
        (st1, Panic m) \<Rightarrow> (st1, Panic m)
      | (st1, Blocked) \<Rightarrow> (st1, Blocked)
      | (st1, Ret row) \<Rightarrow> scanFunc row st1)"

definition Execute ::
    "'w sql_driver \<Rightarrow> gate_env \<Rightarrow> go_context \<Rightarrow> string \<Rightarrow> go_value list \<Rightarrow>
     'w rt_state \<Rightarrow> 'w rt_state \<times> (go_error + handle) outcome" where
  "Execute drv env ctx query args = Runtime_Exec drv env ctx query args"

section \<open>Transactions\<close>

text \<open>\<open>tx.Commit()\<close> and \<open>tx.Rollback()\<close> on the state of the runtime.\<close>

definition tx_commit :: "'w sql_driver \<Rightarrow> handle \<Rightarrow> 'w rt_state \<Rightarrow> 'w rt_state \<times> go_error option outcome" where
  "tx_commit drv tx = on_advancedDB (\<lambda>s. map_prod id Ret (AdvancedTx_Commit drv tx s))"

definition tx_rollback :: "'w sql_driver \<Rightarrow> handle \<Rightarrow> 'w rt_state \<Rightarrow> 'w rt_state \<times> go_error option outcome" where
  "tx_rollback drv tx = on_advancedDB (\<lambda>s. map_prod id Ret (AdvancedTx_Rollback drv tx s))"

text \<open>
  The deferred function assigns the error of \<open>Commit\<close> to a local variable after the result has been
  set: the caller gets what \<open>fn\<close> returned.
\<close>

definition Transaction ::
    "'w sql_driver \<Rightarrow> gate_env \<Rightarrow> go_context \<Rightarrow> (handle \<Rightarrow> 'w rt_state \<Rightarrow> 'w rt_state \<times> go_error option outcome) \<Rightarrow>
     'w rt_state \<Rightarrow> 'w rt_state \<times> go_error option outcome" where
  "Transaction drv env ctx fn st =
     (case Runtime_Begin drv env ctx st of
        (st1, Panic m) \<Rightarrow> (st1, Panic m)
      | (st1, Blocked) \<Rightarrow> (st1, Blocked)
      | (st1, Ret (Inl err)) \<Rightarrow> (st1, Ret (Some (ErrorfW ''failed to begin transaction: '' err [])))
      | (st1, Ret (Inr tx)) \<Rightarrow>
          (case fn tx st1 of
             (st2, Panic m) \<Rightarrow> (fst (tx_rollback drv tx st2), Panic m)
           | (st2, Blocked) \<Rightarrow> (st2, Blocked)
           | (st2, Ret (Some err)) \<Rightarrow> (fst (tx_rollback drv tx st2), Ret (Some err))
           | (st2, Ret None) \<Rightarrow> (fst (tx_commit drv tx st2), Ret None)))"

section \<open>Diagnostics and health\<close>

text \<open>The pointer to the runtime itself is left out of \<open>Diagnostics\<close>.\<close>

record Diagnostics =
  ConnectionStats :: DBStats
  d_Metrics :: MetricsStats
  d_CircuitBreaker :: string
  d_Timestamp :: time

definition GetDiagnostics :: "'w sql_driver \<Rightarrow> 'w rt_state \<Rightarrow> Diagnostics outcome" where
  "GetDiagnostics drv = (\<lambda>(rt, w).
     bind_outcome (Runtime_Stats drv (rt, w)) (\<lambda>stats.
       bind_outcome (Runtime_Metrics rt) (\<lambda>m.
         Ret \<lparr>ConnectionStats = stats, d_Metrics = m, d_CircuitBreaker = CircuitBreakerState rt,
              d_Timestamp = drv_Now drv w\<rparr>)))"

record HealthStatus =
  Healthy :: bool
  hs_Message :: string
  LastCheck :: time
  ConnectionOK :: bool
  CircuitBreakerOK :: bool

definition CheckHealth :: "'w sql_driver \<Rightarrow> go_context \<Rightarrow> 'w rt_state \<Rightarrow> 'w rt_state \<times> HealthStatus outcome" where
  "CheckHealth drv ctx = (\<lambda>(rt, w).
     (let status = \<lparr>Healthy = False, hs_Message = [], LastCheck = drv_Now drv w, ConnectionOK = False,
                    CircuitBreakerOK = False\<rparr>
      in case Runtime_HealthCheck drv ctx (rt, w) of
           (st1, Panic m) \<Rightarrow> (st1, Panic m)
         | (st1, Blocked) \<Rightarrow> (st1, Blocked)
         | (st1, Ret (Some err)) \<Rightarrow>
             (st1, Ret (status\<lparr>hs_Message := ''Connection check failed: '' @ error_text err\<rparr>))
         | (st1, Ret None) \<Rightarrow>
             (let status = status\<lparr>ConnectionOK := True\<rparr>
              in if CircuitBreakerState (fst st1) = CircuitStateOpen
                 then (st1, Ret (status\<lparr>hs_Message := ''Circuit breaker is open''\<rparr>))
                 else
                   (let status = status\<lparr>CircuitBreakerOK := True\<rparr>
                    in (st1, bind_outcome (Runtime_Stats drv st1) (\<lambda>stats.
                         if OpenConnections stats \<ge> MaxOpenConnections stats
                         then Ret (status\<lparr>hs_Message := ''Connection pool is at capacity''\<rparr>)
                         else Ret (status\<lparr>Healthy := True, hs_Message := ''All systems operational''\<rparr>)))))))"

definition DisconnectWithLog :: "'w sql_driver \<Rightarrow> 'w rt_state \<Rightarrow> 'w rt_state \<times> unit outcome" where
  "DisconnectWithLog drv st =
     (case Runtime_Disconnect drv st of (st1, r) \<Rightarrow> (st1, bind_outcome r (\<lambda>_. Ret ())))"

definition WithTimeout :: "time \<Rightarrow> go_context \<Rightarrow> duration \<Rightarrow> go_context" where
  "WithTimeout now ctx timeout = context_WithTimeout now timeout ctx"

section \<open>Retries\<close>

text \<open>
  The loop of \<open>WithRetry\<close> from attempt \<open>attempt\<close> on. The backoff is an \<open>int64\<close> that doubles after each
  wait, without a limit.
\<close>

function with_retry_loop ::
    "(duration \<Rightarrow> 'w \<Rightarrow> 'w \<times> go_error option) \<Rightarrow> int \<Rightarrow> ('w \<Rightarrow> 'w \<times> (go_error + unit)) \<Rightarrow>
     int \<Rightarrow> duration \<Rightarrow> go_error option \<Rightarrow> 'w \<Rightarrow> 'w \<times> (go_error + unit)" where
  "with_retry_loop wait maxRetries fn attempt currentBackoff lastErr w =
     (if attempt \<le> maxRetries then
        (case (if attempt > 0 then wait currentBackoff w else (w, None)) of
           (w1, Some e) \<Rightarrow> (w1, Inl e)
         | (w1, None) \<Rightarrow>
             (case fn w1 of
                (w2, Inr u) \<Rightarrow> (w2, Inr u)
              | (w2, Inl err) \<Rightarrow>
                  with_retry_loop wait maxRetries fn (attempt + 1)
                    (if attempt > 0 then wrap64 (currentBackoff * 2) else currentBackoff) (Some err) w2))
      else (w, Inl (failed_after [] maxRetries lastErr)))"
  by pat_completeness auto
termination
  by (relation "measure (\<lambda>(wait, maxRetries, fn, attempt, b, e, w). nat (maxRetries + 1 - attempt))") auto

declare with_retry_loop.simps [simp del]

definition WithRetry ::
    "'w sql_driver \<Rightarrow> go_context \<Rightarrow> int \<Rightarrow> duration \<Rightarrow> ('w \<Rightarrow> 'w \<times> (go_error + unit)) \<Rightarrow> 'w \<Rightarrow> 'w \<times> (go_error + unit)" where
  "WithRetry drv ctx maxRetries backoff fn w = with_retry_loop (drv_Wait drv ctx) maxRetries fn 0 backoff None w"

section \<open>Recovery\<close>

definition RecoverConnection ::
    "'w sql_driver \<Rightarrow> go_context \<Rightarrow> 'w rt_state \<Rightarrow> 'w rt_state \<times> go_error option outcome" where
  "RecoverConnection drv ctx st =
     (let (st1, r) = (if IsConnected (fst st) then (st, None) else Runtime_Connect drv st)
      in case r of
           Some err \<Rightarrow> (st1, Ret (WrapError ErrCodeConnectionFailed ''failed to reconnect'' (Some err)))
         | None \<Rightarrow>
             (case Runtime_HealthCheck drv ctx st1 of
                (st2, Panic m) \<Rightarrow> (st2, Panic m)
              | (st2, Blocked) \<Rightarrow> (st2, Blocked)
              | (st2, Ret (Some err)) \<Rightarrow>
                  (st2, Ret (WrapError ErrCodeConnectionFailed ''connection health check failed'' (Some err)))
              | (st2, Ret None) \<Rightarrow> (st2, Ret None)))"

definition HandleError ::
    "'w sql_driver \<Rightarrow> go_context \<Rightarrow> go_error option \<Rightarrow> 'w rt_state \<Rightarrow> 'w rt_state \<times> go_error option outcome" where
  "HandleError drv ctx err = (\<lambda>(rt, w).
     (case err of
        None \<Rightarrow> ((rt, w), Ret None)
      | Some e \<Rightarrow>
          if IsCircuitBreakerError err then
            ((rt, drv_Sleep drv (1 * Second) w),
             Ret (if CircuitBreakerState rt \<noteq> CircuitStateOpen then None else err))
          else if IsRetryableError err then
            (case RecoverConnection drv ctx (rt, w) of
               (st1, Panic m) \<Rightarrow> (st1, Panic m)
             | (st1, Blocked) \<Rightarrow> (st1, Blocked)
             | (st1, Ret (Some recoverErr)) \<Rightarrow>
                 (st1, Ret (Some (ErrorfW ''recovery failed: '' recoverErr ('' (original error: '' @ error_text e @ '')''))))
             | (st1, Ret None) \<Rightarrow> (st1, Ret err))
          else ((rt, w), Ret err)))"

section \<open>The retry loop\<close>

interpretation util_retry: retry_contract
  "with_retry_loop (logged_wait wait) maxRetries (logged_op fn)" maxRetries
  "\<lambda>a b w. if a > 0 then logged_wait wait b w else (w, None)" "\<lambda>a. logged_op fn"
  "\<lambda>e. True" "failed_after [] maxRetries" "\<lambda>a b. if a > 0 then wrap64 (b * 2) else b"
  "\<lambda>e. \<exists>d w w'. wait d w = (w', Some e)" "fst \<circ> snd"
  for wait maxRetries and fn :: "'w \<Rightarrow> 'w \<times> (go_error + unit)"
proof (unfold_locales, goal_cases)
  case (1 a b le w)
  then show ?case by (subst with_retry_loop.simps) simp
next
  case (2 a b le w)
  then show ?case by (subst with_retry_loop.simps) simp
qed (auto simp: logged_op_def logged_wait_def split: prod.splits if_splits)

lemma with_retry_erases:
  "map_prod fst id (with_retry_loop (logged_wait wait) n (logged_op fn) a b le (w, rs, ds)) =
   with_retry_loop wait n fn a b le w"
proof (induction "nat (n + 1 - a)" arbitrary: a b le w rs ds rule: less_induct)
  case less
  obtain w1 c where w: "(if a > 0 then wait b w else (w, None)) = (w1, c)" by (metis surj_pair)
  obtain w2 r where o: "fn w1 = (w2, r)" by (metis surj_pair)
  have lw: "(if a > 0 then logged_wait wait b (w, rs, ds) else ((w, rs, ds), None)) =
      ((w1, rs, if a > 0 then ds @ [b] else ds), c)"
    using w by (auto simp: logged_wait_def)
  have lo: "logged_op fn (w1, rs, ds') = ((w2, rs @ [r], ds'), r)" for ds'
    using o by (simp add: logged_op_def)
  show ?case
    by (subst (1 2) with_retry_loop.simps) (auto simp: w o lw lo less split: option.split sum.split)
qed

definition doublings :: "duration \<Rightarrow> nat \<Rightarrow> duration list" where
  "doublings b n = map (\<lambda>i. wrap64 (b * 2 ^ i)) [0..<n]"

lemma doublings_Suc: "in_int64 b \<Longrightarrow> doublings b (Suc n) = b # doublings (wrap64 (b * 2)) n"
proof -
  assume b: "in_int64 b"
  have "[0..<Suc n] = 0 # map Suc [0..<n]" by (metis map_Suc_upt upt_conv_Cons zero_less_Suc)
  with b show ?thesis by (simp add: doublings_def wrap64_mult o_def mult.assoc del: upt_Suc)
qed

lemma length_doublings [simp]: "length (doublings b n) = n"
  by (simp add: doublings_def)

lemma with_retry_waits_later:
  assumes "0 < a" "in_int64 b"
  shows "\<exists>k. snd (snd (fst (with_retry_loop (logged_wait wait) n (logged_op fn) a b le (w, rs, ds)))) = ds @ doublings b k \<and>
    k \<le> nat (n + 1 - a)"
  using assms
proof (induction "nat (n + 1 - a)" arbitrary: a b le w rs ds rule: less_induct)
  case less
  obtain w1 c where w: "wait b w = (w1, c)" by (metis surj_pair)
  obtain w2 r where o: "fn w1 = (w2, r)" by (metis surj_pair)
  have lw: "logged_wait wait b (w, rs, ds) = ((w1, rs, ds @ [b]), c)" using w by (simp add: logged_wait_def)
  have lo: "logged_op fn (w1, rs, ds') = ((w2, rs @ [r], ds'), r)" for ds' using o by (simp add: logged_op_def)
  have one: "doublings b (Suc 0) = [b]" "doublings b 0 = []" using less.prems by (simp_all add: doublings_def)
  show ?case
  proof (cases "a \<le> n \<and> c = None \<and> (\<exists>err. r = Inl err)")
    case False
    then have "snd (snd (fst (with_retry_loop (logged_wait wait) n (logged_op fn) a b le (w, rs, ds)))) =
        ds @ doublings b (if a \<le> n then 1 else 0)"
      using less.prems by (subst with_retry_loop.simps) (auto simp: lw lo one split: option.split sum.split)
    then show ?thesis by (intro exI [of _ "if a \<le> n then 1 else 0"]) auto
  next
    case True
    then obtain err where err: "a \<le> n" "c = None" "r = Inl err" by blast
    have unf: "with_retry_loop (logged_wait wait) n (logged_op fn) a b le (w, rs, ds) =
        with_retry_loop (logged_wait wait) n (logged_op fn) (a + 1) (wrap64 (b * 2)) (Some err) (w2, rs @ [r], ds @ [b])"
      using err less.prems by (subst with_retry_loop.simps) (simp add: lw lo)
    have "nat (n + 1 - (a + 1)) < nat (n + 1 - a)" "0 < a + 1" using err(1) less.prems by simp_all
    from less.hyps [OF this in_int64_wrap64, of "b * 2" "Some err" w2 "rs @ [r]" "ds @ [b]"]
    obtain k where k: "snd (snd (fst (with_retry_loop (logged_wait wait) n (logged_op fn) (a + 1) (wrap64 (b * 2)) (Some err)
        (w2, rs @ [r], ds @ [b])))) = (ds @ [b]) @ doublings (wrap64 (b * 2)) k" "k \<le> nat (n + 1 - (a + 1))" by blast
    then show ?thesis
      using unf err(1) by (intro exI [of _ "Suc k"]) (auto simp: doublings_Suc [OF less.prems(2)])
  qed
qed

lemma with_retry_waits:
  assumes "0 \<le> n" "in_int64 b"
  shows "\<exists>k. snd (snd (fst (with_retry_loop (logged_wait wait) n (logged_op fn) 0 b le (w, [], [])))) = doublings b k \<and>
    k \<le> nat n"
proof -
  obtain w2 r where o: "fn w = (w2, r)" by (metis surj_pair)
  then have lo: "logged_op fn (w, [], []) = ((w2, [r], []), r)" by (simp add: logged_op_def)
  show ?thesis
  proof (cases r)
    case (Inl err)
    have "with_retry_loop (logged_wait wait) n (logged_op fn) 0 b le (w, [], []) =
        with_retry_loop (logged_wait wait) n (logged_op fn) 1 b (Some err) (w2, [r], [])"
      using assms Inl by (subst with_retry_loop.simps) (simp add: lo)
    with with_retry_waits_later [of 1 b wait n fn "Some err" w2 "[r]" "[]"] assms(2) show ?thesis by simp
  next
    case (Inr u)
    then show ?thesis
      using assms by (subst with_retry_loop.simps) (auto simp: lo doublings_def intro: exI [of _ 0])
  qed
qed

section \<open>Errors without a code\<close>

text \<open>Errors in whose chain there is no \<open>DatabaseError\<close>: all that the runtime and its parts make themselves.\<close>

definition plain_error :: "go_error \<Rightarrow> bool" where
  "plain_error e \<longleftrightarrow> as_DatabaseError e = None"

definition plain_result :: "(go_error + 'a) outcome \<Rightarrow> bool" where
  "plain_result r \<longleftrightarrow> (\<forall>e. r = Ret (Inl e) \<longrightarrow> plain_error e)"

text \<open>A driver and a context that never return a \<open>DatabaseError\<close> of this package.\<close>

definition plain_driver :: "'w sql_driver \<Rightarrow> bool" where
  "plain_driver drv \<longleftrightarrow>
     (\<forall>db ctx q args w w' e. drv_Exec drv db ctx q args w = (w', Inl e) \<longrightarrow> plain_error e) \<and>
     (\<forall>ctx d w w' e. drv_Wait drv ctx d w = (w', Some e) \<longrightarrow> plain_error e)"

definition plain_env :: "gate_env \<Rightarrow> bool" where
  "plain_env env \<longleftrightarrow> (\<forall>e. snd (snd env) = SelDone e \<longrightarrow> plain_error e)"

lemma plain_error_simps [simp]:
  "plain_error (Errorf m)" "plain_error (ErrorfW p e q) = plain_error e" "plain_error ErrCircuitOpen"
  "plain_error ErrRateLimitExceeded" "plain_error ErrConnectionLimit"
  by (simp_all add: plain_error_def)

lemma plain_failed_after [simp]: "plain_error (failed_after what n le) \<longleftrightarrow> (\<forall>e. le = Some e \<longrightarrow> plain_error e)"
  by (cases le) (simp_all add: failed_after_def Let_def)

lemma plain_retry_loop:
  assumes "\<And>d w w' e. wait d w = (w', Some e) \<Longrightarrow> plain_error e" "\<And>w w' e. op w = (w', Inl e) \<Longrightarrow> plain_error e"
    and "\<And>e. le = Some e \<Longrightarrow> plain_error e" "snd (retry_loop rp wait op what a b le w) = Inl e"
  shows "plain_error e"
  using assms(3,4)
proof (induction "nat (MaxRetries rp + 1 - a)" arbitrary: a b le w rule: less_induct)
  case less
  obtain w1 c where w: "(if a > 0 then wait b w else (w, None)) = (w1, c)" by (metis surj_pair)
  obtain w2 r where o: "op w1 = (w2, r)" by (metis surj_pair)
  have c: "plain_error e" if "c = Some e" for e using w that assms(1) by (auto split: if_splits)
  have r: "plain_error e" if "r = Inl e" for e using o that assms(2) by blast
  let ?b = "if a > 0 then next_backoff rp b else b"
  consider (cancelled) e' where "a \<le> MaxRetries rp" "c = Some e'"
    | (again) err where "a \<le> MaxRetries rp" "c = None" "r = Inl err" "ShouldRetry rp (Some err)"
    | (stop) err where "a \<le> MaxRetries rp" "c = None" "r = Inl err" "\<not> ShouldRetry rp (Some err)"
    | (val) v where "a \<le> MaxRetries rp" "c = None" "r = Inr v" | (out) "\<not> a \<le> MaxRetries rp"
    by (cases c; cases r) auto
  then show ?case
  proof cases
    case again
    then have "retry_loop rp wait op what a b le w = retry_loop rp wait op what (a + 1) ?b (Some err) w2"
      using w o by (subst retry_loop.simps) simp
    with less.prems(2) less.hyps [of "a + 1" "Some err" ?b w2] again r show ?thesis by simp
  qed (use w o less.prems c r in \<open>auto simp: retry_loop.simps [of rp wait op what a b le w]\<close>)
qed

lemma plain_gate:
  assumes "plain_env (clk, others, sel)" "ConnectionGate_Allow clk others sel cg = (cg1, Ret (Some e))"
  shows "plain_error e"
  using assms
  by (auto simp: ConnectionGate_Allow_def CircuitBreaker_Allow_def RateLimiter_Allow_def AcquireWithContext_def
      Acquire_def send_slot_def plain_env_def Let_def split: if_splits prod.splits option.splits outcome.splits select_case.splits)

lemma plain_Exec:
  assumes "plain_driver drv" "plain_env env" "Runtime_Exec drv env ctx query args st = (st1, Ret (Inl e))"
  shows "plain_error e"
proof -
  obtain clk others sel where env: "env = (clk, others, sel)" by (metis surj_pair)
  have exec: "plain_error e" if ex: "ExecuteWithGate clk others sel (retryExec drv rp db c q as) s = (s', Ret (Inl e))" for rp db c q as s s'
  proof -
    consider cg cg1 where "ConnectionGate_Allow clk others sel cg = (cg1, Ret (Some e))" | w w' where "retryExec drv rp db c q as w = (w', Inl e)"
      using ex by (cases s) (auto simp: ExecuteWithGate_def split: prod.splits outcome.splits option.splits sum.splits)
    then show ?thesis
    proof cases
      case 1
      with assms(2) env show ?thesis by (blast intro: plain_gate)
    next
      case 2
      then show ?thesis
        using assms(1) plain_retry_loop [of "drv_Wait drv c" "drv_Exec drv db c q as" None rp "''exec ''" 0 "InitialBackoff rp" w e]
        by (simp add: retryExec_def plain_driver_def)
    qed
  qed
  show ?thesis
    using assms(3)
    by (auto simp: Runtime_Exec_def not_connected_def on_advancedDB_def AdvancedDB_Exec_def gated_def env Let_def
        dest: exec split: if_splits option.splits prod.splits outcome.splits)
qed

lemma HandleError_plain: "plain_error e \<Longrightarrow> HandleError drv ctx (Some e) st = (st, Ret (Some e))"
  by (cases st) (simp add: HandleError_def plain_error_def IsCircuitBreakerError_def IsRetryableError_def)

lemma Connect_connects: "Runtime_Connect drv st = (st1, None) \<Longrightarrow> IsConnected (fst st1)"
  by (cases st) (auto simp: Runtime_Connect_def IsConnected_def ConnectionManager_Open_def Let_def
      split: if_splits prod.splits sum.splits option.splits)

lemma HealthCheck_runtime: "Runtime_HealthCheck drv ctx st = (st1, r) \<Longrightarrow> fst st1 = fst st"
  by (cases st) (auto simp: Runtime_HealthCheck_def split: if_splits prod.splits option.splits)

lemma RecoverConnection_connects:
  assumes "RecoverConnection drv ctx st = (st1, Ret None)"
  shows "IsConnected (fst st1)"
proof -
  obtain st0 r where c: "(if IsConnected (fst st) then (st, None) else Runtime_Connect drv st) = (st0, r)" by (metis surj_pair)
  then have "r = None \<Longrightarrow> IsConnected (fst st0)" by (auto dest: Connect_connects split: if_splits)
  with assms c show ?thesis
    using HealthCheck_runtime [of drv ctx st0]
    by (auto simp: RecoverConnection_def WrapError_def split: option.splits prod.splits outcome.splits)
qed

text \<open>\<open>Select\<close> returns on a result set that each call of the scan function brings closer to its end.\<close>

lemma select_loop_returns:
  assumes "\<And>w u w1 w2 u2 r. drv_Next drv rows w = (w1, True) \<Longrightarrow> scanFunc rows (w1, u) = ((w2, u2), r) \<Longrightarrow>
      left w2 < (left w :: nat)"
  shows "\<exists>v' r. select_loop drv rows scanFunc v = Some (v', r)"
proof (induction "left (fst v)" arbitrary: v rule: less_induct)
  case less
  obtain w1 more where n: "drv_Next drv rows (fst v) = (w1, more)" by (metis surj_pair)
  obtain w2 u2 r where s: "scanFunc rows (w1, snd v) = ((w2, u2), r)" by (metis surj_pair)
  show ?case
  proof (cases "more \<and> r = None")
    case True
    with n have "drv_Next drv rows (fst v) = (w1, True)" by simp
    from assms [OF this s] have "left (fst (w2, u2)) < left (fst v)" by simp
    from less [OF this] True n s show ?thesis by (subst select_loop.simps) simp
  next
    case False
    with n s show ?thesis by (subst select_loop.simps) (auto split: prod.split)
  qed
qed

section \<open>Properties\<close>

text \<open>
  The recovery strategies never apply to an error of the runtime itself: as long as the driver and the
  context return no \<open>DatabaseError\<close>, neither does \<open>Exec\<close>, and \<open>HandleError\<close> hands the error back without
  waiting or reconnecting, also when the circuit breaker is open or the connection is gone. Where it does
  recover, from a \<open>DatabaseError\<close>, the runtime is connected afterwards.
\<close>

theorem runtime_errors_not_recovered:
  assumes "plain_driver drv" and "plain_env env"
    and "Runtime_Exec drv env ctx query args st = (st1, Ret (Inl e))"
  shows "HandleError drv ctx (Some e) st1 = (st1, Ret (Some e)) \<and>
    (\<forall>ctx' st2 st3. RecoverConnection drv ctx' st2 = (st3, Ret None) \<longrightarrow> IsConnected (fst st3))"
  using HandleError_plain [OF plain_Exec [OF assms]] RecoverConnection_connects by blast

text \<open>
  \<open>WithRetry\<close> calls the function once and at most \<open>maxRetries\<close> times more, stops at the first success, and
  otherwise returns the last error wrapped, or the error of the context if that ended a wait. The
  waits are the given backoff doubled each time, modulo \<open>2^64\<close>: nothing limits them.
\<close>

theorem with_retry_bounded:
  assumes "0 \<le> maxRetries" and "in_int64 backoff"
  shows "\<exists>w' rs k res.
    with_retry_loop (logged_wait (drv_Wait drv ctx)) maxRetries (logged_op fn) 0 backoff None (w, [], []) =
      ((w', rs, doublings backoff k), res) \<and>
    WithRetry drv ctx maxRetries backoff fn w = (w', res) \<and> k \<le> nat maxRetries \<and>
    retry_result (nat (maxRetries + 1)) (\<lambda>e. True) (failed_after [] maxRetries)
      (\<lambda>e. \<exists>d v v'. drv_Wait drv ctx d v = (v', Some e)) rs res"
proof -
  let ?ob = "with_retry_loop (logged_wait (drv_Wait drv ctx)) maxRetries (logged_op fn) 0 backoff None (w, [], [])"
  obtain k where k: "snd (snd (fst ?ob)) = doublings backoff k" "k \<le> nat maxRetries"
    using with_retry_waits [OF assms, of "drv_Wait drv ctx" fn None w] by (elim exE conjE)
  obtain rs where rs: "fst (snd (fst ?ob)) = rs" by blast
  have "retry_result (nat (maxRetries + 1)) (\<lambda>e. True) (failed_after [] maxRetries)
      (\<lambda>e. \<exists>d v v'. drv_Wait drv ctx d v = (v', Some e)) rs (snd ?ob)"
    using util_retry.loop_result [OF assms(1), of "drv_Wait drv ctx" fn backoff None "(w, [], [])"] rs by simp
  moreover have "WithRetry drv ctx maxRetries backoff fn w = (fst (fst ?ob), snd ?ob)"
    using with_retry_erases [of "drv_Wait drv ctx" maxRetries fn 0 backoff None w "[]" "[]", symmetric]
    by (simp add: WithRetry_def map_prod_def split_beta)
  ultimately show ?thesis
    using k rs by (intro exI [of _ "fst (fst ?ob)"] exI [of _ rs] exI [of _ k] exI [of _ "snd ?ob"])
      (simp add: prod_eq_iff)
qed

text \<open>Statements executed one after the other as the function of a transaction; their errors are ignored.\<close>

definition run_statements ::
    "'w sql_driver \<Rightarrow> (go_context \<times> string \<times> go_value list) list \<Rightarrow> handle \<Rightarrow> 'w rt_state \<Rightarrow> 'w rt_state \<times> go_error option outcome" where
  "run_statements drv stmts tx = on_advancedDB (\<lambda>s. (tx_statements drv tx stmts s, Ret None))"

lemma Runtime_Begin_dead:
  assumes "tx_follows_context drv dead" "Runtime_Begin drv env ctx st = (st1, Ret (Inr tx))"
  shows "dead tx (snd st1) \<and> advancedDB (fst st1) \<noteq> None"
  using assms Begin_dead [OF assms(1), of env ctx]
  by (cases st) (fastforce simp: Runtime_Begin_def on_advancedDB_def split: if_splits option.splits prod.splits)

text \<open>
  C26. \<open>Transaction\<close> reports success for work that was lost: with the documented behaviour of \<open>BeginTx\<close>, whatever
  statements its function executes, the commit at its end fails, and the caller still gets a nil error.
\<close>

theorem transaction_reports_lost_work:
  assumes "tx_follows_context drv dead" and "Runtime_Begin drv env ctx st = (st1, Ret (Inr tx))"
  shows "\<exists>st2 st3 err. run_statements drv stmts tx st1 = (st2, Ret None) \<and>
    tx_commit drv tx st2 = (st3, Ret (Some err)) \<and>
    Transaction drv env ctx (run_statements drv stmts) st = (st3, Ret None)"
proof -
  obtain rt w where st1: "st1 = (rt, w)" by (metis surj_pair)
  have d: "dead tx w" "advancedDB rt \<noteq> None" using Runtime_Begin_dead [OF assms] st1 by simp_all
  then obtain adb where adb: "advancedDB rt = Some adb" by blast
  obtain cg adb1 w1 where s: "tx_statements drv tx stmts (rt_gate rt, adb, w) = (cg, adb1, w1)" by (metis surj_pair)
  let ?st2 = "(rt\<lparr>rt_gate := cg, advancedDB := Some adb1\<rparr>, w1)"
  have run: "run_statements drv stmts tx st1 = (?st2, Ret None)"
    using st1 adb s by (simp add: run_statements_def on_advancedDB_def)
  have "dead tx w1" using tx_statements_dead [OF assms(1), of tx "(rt_gate rt, adb, w)" stmts] d(1) s by simp
  then obtain w2 err where "drv_Commit drv tx w1 = (w2, Some err)"
    using assms(1) unfolding tx_follows_context_def by (metis not_Some_eq prod.collapse)
  then have "\<exists>st3. tx_commit drv tx ?st2 = (st3, Ret (Some err))"
    by (simp add: tx_commit_def on_advancedDB_def AdvancedTx_Commit_def)
  with run assms(2) show ?thesis by (auto simp: Transaction_def)
qed

section \<open>Witnesses\<close>

theorem runtime_errors_not_recovered_witness:
  "HandleError (sample_driver (Inr 9)) None (Some not_connected) (NewDBRuntime (Time 1) None, 3) =
     ((NewDBRuntime (Time 1) None, 3), Ret (Some not_connected))"
proof -
  have "plain_driver (sample_driver (Inr 9))" by (simp add: plain_driver_def sample_driver_def)
  moreover have "plain_env (sample_clock, [], SelSlot)" by (simp add: plain_env_def)
  moreover have "\<not> IsConnected (NewDBRuntime (Time 1) None)"
    by (simp add: IsConnected_def NewDBRuntime_def NewConnectionManager_def Let_def)
  then have "Runtime_Exec (sample_driver (Inr 9)) (sample_clock, [], SelSlot) None ''INSERT'' []
      (NewDBRuntime (Time 1) None, 3) = ((NewDBRuntime (Time 1) None, 3), Ret (Inl not_connected))"
    by (simp add: Runtime_Exec_def)
  ultimately show ?thesis using runtime_errors_not_recovered by blast
qed

theorem with_retry_bounded_witness:
  "\<exists>w' rs k res.
    with_retry_loop (logged_wait (drv_Wait (sample_driver (Inr 9)) None)) 2 (logged_op (\<lambda>w. (w, Inl DeadlineExceeded))) 0 100
      None (3, [], []) = ((w', rs, doublings 100 k), res) \<and> k \<le> 2 \<and> length rs \<le> 3"
proof -
  have "in_int64 100" by (simp add: in_int64_def)
  from with_retry_bounded [OF _ this, of 2 "sample_driver (Inr 9)" None "\<lambda>w. (w, Inl DeadlineExceeded)" 3]
  show ?thesis by (fastforce simp: retry_result_def)
qed

theorem transaction_reports_lost_work_witness:
  "\<exists>st3. Transaction cancelling_driver (sample_clock, [], SelSlot) None
     (run_statements cancelling_driver [(None, ''INSERT'', [])]) (sample_runtime, 0) = (st3, Ret None)"
proof -
  have law: "tx_follows_context cancelling_driver (\<lambda>tx w. odd w)"
    by (simp add: tx_follows_context_def cancelling_driver_def)
  have "\<exists>st1. Runtime_Begin cancelling_driver (sample_clock, [], SelSlot) None (sample_runtime, 0) = (st1, Ret (Inr 4))"
    by (simp add: Runtime_Begin_def IsConnected_def on_advancedDB_def sample_runtime_fields AdvancedDB_Begin_def
        ExecuteWithGate_def sample_allow cancelling_driver_def)
  then obtain st1 where b: "Runtime_Begin cancelling_driver (sample_clock, [], SelSlot) None (sample_runtime, 0) =
      (st1, Ret (Inr 4))" by blast
  from transaction_reports_lost_work [OF law b] show ?thesis by blast
qed

end
