(* ===== verification/Monitor.thy ===== *)
theory Monitor
  imports Utils
begin

text \<open>
  The monitor of \<open>monitor.go\<close>: its life cycle, the loop of its goroutine, and one round of
  checks with the events it delivers. Callbacks are known by handles; what calling one does is an argument.
\<close>

section \<open>State\<close>

record MonitorEvent =
  ev_Type :: string
  ev_Timestamp :: time
  ev_Diagnostics :: Diagnostics
  ev_Health :: "HealthStatus option"
  ev_Message :: string

text \<open>The runtime is not a field: it is the state the operations act on.\<close>

record Monitor =
  interval :: duration
  stopChan_closed :: bool
  callbacks :: "handle list"
  running :: bool

definition NewMonitor :: "duration \<Rightarrow> Monitor" where
  "NewMonitor i = \<lparr>interval = i, stopChan_closed = False, callbacks = [], running = False\<rparr>"

definition AddCallback :: "handle \<Rightarrow> Monitor \<Rightarrow> Monitor" where
  "AddCallback callback m = m\<lparr>callbacks := callbacks m @ [callback]\<rparr>"

text \<open>The result says whether the goroutine of the loop was started.\<close>

definition Monitor_Start :: "Monitor \<Rightarrow> Monitor \<times> bool" where
  "Monitor_Start m = (if running m then (m, False) else (m\<lparr>running := True\<rparr>, True))"

definition Monitor_Stop :: "Monitor \<Rightarrow> Monitor \<times> unit outcome" where
  "Monitor_Stop m =
     (if \<not> running m then (m, Ret ())
      else if stopChan_closed m then (m, Panic ''close of closed channel'')
      else (m\<lparr>stopChan_closed := True, running := False\<rparr>, Ret ()))"

section \<open>One round\<close>

type_synonym 'w callback = "handle \<Rightarrow> MonitorEvent \<Rightarrow> 'w rt_state \<Rightarrow> 'w rt_state"

definition deliver :: "'w callback \<Rightarrow> handle list \<Rightarrow> MonitorEvent \<Rightarrow> 'w rt_state \<Rightarrow> 'w rt_state" where
  "deliver call cbs event = fold (\<lambda>callback. call callback event) cbs"

text \<open>
  An event that is made only if \<open>cond\<close> holds, at the time when the events before it have been delivered. The
  events of a round are collected.
\<close>

definition notify_if ::
    "'w sql_driver \<Rightarrow> 'w callback \<Rightarrow> handle list \<Rightarrow> bool \<Rightarrow> (time \<Rightarrow> MonitorEvent) \<Rightarrow>
     'w rt_state \<times> MonitorEvent list \<Rightarrow> 'w rt_state \<times> MonitorEvent list" where
  "notify_if drv call cbs cond event = (\<lambda>(st, evs).
     (if cond then (let e = event (drv_Now drv (snd st)) in (deliver call cbs e st, evs @ [e])) else (st, evs)))"

definition checkAndNotify ::
    "'w sql_driver \<Rightarrow> 'w callback \<Rightarrow> go_context \<Rightarrow> Monitor \<Rightarrow> 'w rt_state \<Rightarrow> 'w rt_state \<times> MonitorEvent list outcome" where
  "checkAndNotify drv call ctx m st =
     (case GetDiagnostics drv st of
        Panic msg \<Rightarrow> (st, Panic msg)
      | Blocked \<Rightarrow> (st, Blocked)
      | Ret diagnostics \<Rightarrow>
          (case CheckHealth drv ctx st of
             (st1, Panic msg) \<Rightarrow> (st1, Panic msg)
           | (st1, Blocked) \<Rightarrow> (st1, Blocked)
           | (st1, Ret health) \<Rightarrow>
               (let cbs = callbacks m;
                    event = (\<lambda>ty h msg now. \<lparr>ev_Type = ty, ev_Timestamp = now, ev_Diagnostics = diagnostics, ev_Health = h,
                                             ev_Message = msg\<rparr>);
                    slow = ms_SlowQueries (d_Metrics diagnostics);
                    r1 = notify_if drv call cbs True (event ''periodic_check'' (Some health) []) (st1, []);
                    r2 = notify_if drv call cbs (\<not> Healthy health)
                           (event ''health_warning'' (Some health) (hs_Message health)) r1;
                    r3 = notify_if drv call cbs (slow > 0)
                           (event ''slow_queries'' None (''Detected '' @ show_int slow @ '' slow queries'')) r2;
                    r4 = notify_if drv call cbs (d_CircuitBreaker diagnostics = CircuitStateOpen)
                           (event ''circuit_breaker_open'' None ''Circuit breaker is open'') r3
                in (fst r4, Ret (snd r4)))))"

section \<open>The loop\<close>

text \<open>
  The goroutine: a list of the cases its \<open>select\<close> takes, one after the other. A ticker needs a
  positive interval.
\<close>

datatype monitor_select = TickFires | StopClosed | CtxDone

fun monitor_rounds ::
    "'w sql_driver \<Rightarrow> 'w callback \<Rightarrow> go_context \<Rightarrow> Monitor \<Rightarrow> monitor_select list \<Rightarrow> 'w rt_state \<Rightarrow>
     'w rt_state \<times> MonitorEvent list outcome" where
  "monitor_rounds drv call ctx m [] st = (st, Ret [])"
| "monitor_rounds drv call ctx m (StopClosed # sels) st = (st, Ret [])"
| "monitor_rounds drv call ctx m (CtxDone # sels) st = (st, Ret [])"
| "monitor_rounds drv call ctx m (TickFires # sels) st =
     (case checkAndNotify drv call ctx m st of
        (st1, Ret evs) \<Rightarrow>
          map_prod id (\<lambda>r. bind_outcome r (\<lambda>evs'. Ret (evs @ evs'))) (monitor_rounds drv call ctx m sels st1)
      | (st1, Panic msg) \<Rightarrow> (st1, Panic msg)
      | (st1, Blocked) \<Rightarrow> (st1, Blocked))"

definition monitorLoop ::
    "'w sql_driver \<Rightarrow> 'w callback \<Rightarrow> go_context \<Rightarrow> Monitor \<Rightarrow> monitor_select list \<Rightarrow> 'w rt_state \<Rightarrow>
     'w rt_state \<times> MonitorEvent list outcome" where
  "monitorLoop drv call ctx m sels st =
     (if interval m \<le> 0 then (st, Panic ''non-positive interval for NewTicker'')
      else monitor_rounds drv call ctx m sels st)"

section \<open>The life cycle as a machine\<close>

datatype monitor_op = OpStart | OpStop | OpAddCallback handle

datatype monitor_answer = Started bool | Stopped bool | StopPanics | Added

fun monitor_step :: "Monitor \<Rightarrow> monitor_op \<Rightarrow> Monitor \<times> monitor_answer" where
  "monitor_step m OpStart = map_prod id Started (Monitor_Start m)"
| "monitor_step m OpStop =
     (case Monitor_Stop m of
        (m1, Ret u) \<Rightarrow> (m1, Stopped (running m))
      | (m1, _) \<Rightarrow> (m1, StopPanics))"
| "monitor_step m (OpAddCallback c) = (AddCallback c m, Added)"

definition stops_used :: "Monitor \<Rightarrow> nat \<Rightarrow> bool" where
  "stops_used m h \<longleftrightarrow> h = (if stopChan_closed m then 1 else 0)"

lemma monitor_step_used:
  assumes "stops_used m h"
  shows "stops_used (fst (monitor_step m op)) (if snd (monitor_step m op) = Stopped True then Suc h else h)"
  using assms
  by (cases op; cases "running m"; cases "stopChan_closed m")
    (simp_all add: stops_used_def Monitor_Start_def Monitor_Stop_def AddCallback_def)

interpretation stops: counted_machine monitor_step "\<lambda>a. a = Stopped True" stops_used "\<lambda>_. 1"
  by (unfold_locales, erule monitor_step_used) (simp_all add: stops_used_def)

section \<open>Properties\<close>

text \<open>
  A monitor can be stopped once. In any sequence of starts, stops and new callbacks at most one stop ends a
  running loop; once it has, a monitor that was started again cannot be stopped: the next stop panics.
\<close>

theorem monitor_stops_once:
  "length (filter (\<lambda>a. a = Stopped True) (snd (run monitor_step (NewMonitor i) ops))) \<le> 1 \<and>
   (let m = fst (run monitor_step (NewMonitor i) ops)
    in Stopped True \<in> set (snd (run monitor_step (NewMonitor i) ops)) \<longrightarrow>
       snd (Monitor_Stop (fst (Monitor_Start m))) = Panic ''close of closed channel'')"
proof -
  obtain m as where r: "run monitor_step (NewMonitor i) ops = (m, as)" by (metis surj_pair)
  have new: "stops_used (NewMonitor i) 0" by (simp add: stops_used_def NewMonitor_def)
  have bound: "length (filter (\<lambda>a. a = Stopped True) as) \<le> 1" using stops.positive_bound [OF new, of ops] r by simp
  have used: "stops_used m (length (filter (\<lambda>a. a = Stopped True) as))" using stops.run_taken [OF new, of ops] r by simp
  have "snd (Monitor_Stop (fst (Monitor_Start m))) = Panic ''close of closed channel''" if "Stopped True \<in> set as"
  proof -
    have "filter (\<lambda>a. a = Stopped True) as \<noteq> []" using that by (auto simp: filter_empty_conv)
    with used have "stopChan_closed m" unfolding stops_used_def by (metis length_0_conv)
    then show ?thesis by (simp add: Monitor_Stop_def Monitor_Start_def)
  qed
  with bound show ?thesis unfolding r Let_def fst_conv snd_conv by blast
qed

lemma CheckHealth_open:
  assumes "CheckHealth drv ctx st = (st1, Ret h)" "CircuitBreakerState (fst st) = CircuitStateOpen"
  shows "\<not> Healthy h"
proof -
  obtain st2 r where hc: "Runtime_HealthCheck drv ctx st = (st2, r)" by (metis surj_pair)
  with HealthCheck_runtime have "fst st2 = fst st" by blast
  with assms hc show ?thesis
    by (cases st) (auto simp: CheckHealth_def split: outcome.splits option.splits)
qed

lemma GetDiagnostics_breaker:
  "GetDiagnostics drv st = Ret d \<Longrightarrow> d_CircuitBreaker d = CircuitBreakerState (fst st)"
  by (cases st; cases "Runtime_Stats drv st"; cases "Runtime_Metrics (fst st)") (auto simp: GetDiagnostics_def)

lemma notify_if_types [simp]:
  "map ev_Type (snd (notify_if drv call cbs cond event r)) =
     map ev_Type (snd r) @ (if cond then [ev_Type (event (drv_Now drv (snd (fst r))))] else [])"
  by (cases r) (simp add: notify_if_def Let_def)

text \<open>
  A round of checks reports an open circuit breaker whenever there is one: the events start with the periodic
  check, and if the breaker is open a health warning follows and the breaker event comes last, with the slow queries
  between them if there are any.
\<close>

theorem open_breaker_is_reported:
  assumes "checkAndNotify drv call ctx m st = (st1, Ret evs)"
  shows "\<exists>d h. GetDiagnostics drv st = Ret d \<and> snd (CheckHealth drv ctx st) = Ret h \<and>
    map ev_Type evs = [''periodic_check''] @ (if Healthy h then [] else [''health_warning'']) @
      (if ms_SlowQueries (d_Metrics d) > 0 then [''slow_queries''] else []) @
      (if CircuitBreakerState (fst st) = CircuitStateOpen then [''circuit_breaker_open''] else []) \<and>
    (CircuitBreakerState (fst st) = CircuitStateOpen \<longrightarrow> \<not> Healthy h)"
proof -
  obtain d where d: "GetDiagnostics drv st = Ret d"
    using assms by (auto simp: checkAndNotify_def split: outcome.splits)
  obtain st2 h where h: "CheckHealth drv ctx st = (st2, Ret h)"
    using assms d by (auto simp: checkAndNotify_def split: outcome.splits prod.splits)
  have "map ev_Type evs = [''periodic_check''] @ (if Healthy h then [] else [''health_warning'']) @
      (if ms_SlowQueries (d_Metrics d) > 0 then [''slow_queries''] else []) @
      (if d_CircuitBreaker d = CircuitStateOpen then [''circuit_breaker_open''] else [])"
    using assms by (auto simp: checkAndNotify_def d h Let_def)
  with d h GetDiagnostics_breaker [OF d] CheckHealth_open [OF h] show ?thesis by auto
qed

section \<open>Witnesses\<close>

theorem monitor_stops_once_witness:
  "snd (Monitor_Stop (fst (Monitor_Start (fst (run monitor_step (NewMonitor 5) [OpStart, OpStop]))))) =
     Panic ''close of closed channel''"
proof -
  have "Stopped True \<in> set (snd (run monitor_step (NewMonitor 5) [OpStart, OpStop]))"
    by (simp add: NewMonitor_def Monitor_Start_def Monitor_Stop_def)
  then show ?thesis using monitor_stops_once [of 5 "[OpStart, OpStop]"] unfolding Let_def by blast
qed

definition tripped_runtime :: DBRuntime where
  "tripped_runtime = sample_runtime\<lparr>rt_gate := (rt_gate sample_runtime)\<lparr>circuitBreaker :=
     (circuitBreaker (rt_gate sample_runtime))\<lparr>cb_state := circuitOpen\<rparr>\<rparr>\<rparr>"

lemma tripped_runtime_fields:
  "CircuitBreakerState tripped_runtime = CircuitStateOpen" "IsConnected tripped_runtime"
  "advancedDB tripped_runtime = Some (NewAdvancedDB 7 (Some (db_config sample_rc)))"
  by (simp_all add: tripped_runtime_def CircuitBreakerState_def ConnectionGate_State_def CircuitBreaker_State_def
      IsConnected_def sample_runtime_fields circuitOpen_def circuitClosed_def)

lemma tripped_round:
  "\<exists>st1 evs. checkAndNotify (sample_driver (Inr 9)) (\<lambda>c e st. st) None (NewMonitor 5) (tripped_runtime, 3) = (st1, Ret evs)"
  by (simp add: checkAndNotify_def GetDiagnostics_def CheckHealth_def Runtime_HealthCheck_def Runtime_Stats_def
      Runtime_Metrics_def AdvancedDB_HealthCheck_def tripped_runtime_fields Let_def sample_driver_def)

theorem open_breaker_is_reported_witness:
  "\<exists>st1 evs. checkAndNotify (sample_driver (Inr 9)) (\<lambda>c e st. st) None (NewMonitor 5) (tripped_runtime, 3) = (st1, Ret evs) \<and>
     {''periodic_check'', ''health_warning'', ''circuit_breaker_open''} \<subseteq> set (map ev_Type evs)"
proof -
  obtain st1 evs where r: "checkAndNotify (sample_driver (Inr 9)) (\<lambda>c e st. st) None (NewMonitor 5) (tripped_runtime, 3) =
      (st1, Ret evs)" using tripped_round by blast
  from open_breaker_is_reported [OF r] have "set [''periodic_check'', ''health_warning'', ''circuit_breaker_open''] \<subseteq> set (map ev_Type evs)"
    by (elim exE conjE) (simp only: fst_conv tripped_runtime_fields, auto)
  with r show ?thesis by auto
qed

end
