(* ===== verification/Config.thy ===== *)
theory Config
  imports Runtime
begin

text \<open>
  The configuration of \<open>config.go\<close>: defaults from environment variables, the fluent builder, validation. The
  environment is a function; \<open>strconv.Atoi\<close>, \<open>ParseInt\<close>, \<open>ParseBool\<close> and \<open>time.ParseDuration\<close> are
  modelled as in the standard library, with None for their errors, which the program only tests for.
\<close>

section \<open>Numbers and truth values\<close>

definition is_digit :: "char \<Rightarrow> bool" where
  "is_digit c \<longleftrightarrow> 48 \<le> (of_char c :: int) \<and> (of_char c :: int) \<le> 57"

text \<open>An optional sign, at least one digit, nothing else, and the range of \<open>int64\<close>.\<close>

definition ParseInt :: "string \<Rightarrow> int64 option" where
  "ParseInt s =
     (let neg = (s \<noteq> [] \<and> hd s = CHR ''-''); ds = (if s \<noteq> [] \<and> (hd s = CHR ''-'' \<or> hd s = CHR ''+'') then tl s else s)
      in if ds = [] \<or> \<not> list_all is_digit ds then None
         else (let n = (if neg then - read_digits ds else read_digits ds) in if in_int64 n then Some n else None))"

definition ParseBool :: "string \<Rightarrow> bool option" where
  "ParseBool s =
     (if s \<in> {''1'', ''t'', ''T'', ''true'', ''TRUE'', ''True''} then Some True
      else if s \<in> {''0'', ''f'', ''F'', ''false'', ''FALSE'', ''False''} then Some False
      else None)"

section \<open>Durations\<close>

fun leadingInt :: "int \<Rightarrow> string \<Rightarrow> (int \<times> string) option" where
  "leadingInt x [] = Some (x, [])"
| "leadingInt x (c # cs) =
     (if \<not> is_digit c then Some (x, c # cs)
      else if x > 2 ^ 63 div 10 then None
      else (let y = x * 10 + (of_char c - 48) in if y > 2 ^ 63 then None else leadingInt y cs))"

text \<open>Digits after the point that do not fit are skipped.\<close>

fun leadingFraction :: "int \<Rightarrow> float64 \<Rightarrow> bool \<Rightarrow> string \<Rightarrow> int \<times> float64 \<times> string" where
  "leadingFraction x scale overflow [] = (x, scale, [])"
| "leadingFraction x scale overflow (c # cs) =
     (if \<not> is_digit c then (x, scale, c # cs)
      else if overflow then leadingFraction x scale True cs
      else if x > (2 ^ 63 - 1) div 10 then leadingFraction x scale True cs
      else (let y = x * 10 + (of_char c - 48)
            in if y > 2 ^ 63 then leadingFraction x scale True cs
               else leadingFraction y (f64_mul scale (f64_of_int 10)) False cs))"

text \<open>The units; the micro sign and the Greek letter mu are two bytes each.\<close>

definition unitMap :: "string \<Rightarrow> int option" where
  "unitMap u =
     (if u = ''ns'' then Some 1
      else if u \<in> {''us'', [CHR 0xC2, CHR 0xB5, CHR ''s''], [CHR 0xCE, CHR 0xBC, CHR ''s'']} then Some 1000
      else if u = ''ms'' then Some 1000000
      else if u = ''s'' then Some 1000000000
      else if u = ''m'' then Some 60000000000
      else if u = ''h'' then Some 3600000000000
      else None)"

definition unit_char :: "char \<Rightarrow> bool" where
  "unit_char c \<longleftrightarrow> c \<noteq> CHR ''.'' \<and> \<not> is_digit c"

lemma leadingInt_length: "leadingInt x s = Some (v, t) \<Longrightarrow> length t \<le> length s"
  by (induction x s rule: leadingInt.induct) (auto simp: Let_def split: if_splits)

lemma leadingFraction_length: "leadingFraction x sc ov s = (v, sc', t) \<Longrightarrow> length t \<le> length s"
  by (induction x sc ov s rule: leadingFraction.induct) (auto simp: Let_def split: if_splits)

text \<open>One number with its unit: its value in nanoseconds and the rest of the text.\<close>

definition parse_component :: "string \<Rightarrow> (int \<times> string) option" where
  "parse_component s =
     (if s = [] \<or> \<not> (hd s = CHR ''.'' \<or> is_digit (hd s)) then None
      else
        (case leadingInt 0 s of
           None \<Rightarrow> None
         | Some (v, s1) \<Rightarrow>
             (let pre = (length s1 \<noteq> length s);
                  (f, scale, s2, post) =
                    (if s1 \<noteq> [] \<and> hd s1 = CHR ''.''
                     then (case leadingFraction 0 (f64_of_int 1) False (tl s1) of
                             (f, scale, s2) \<Rightarrow> (f, scale, s2, length s2 \<noteq> length (tl s1)))
                     else (0, f64_of_int 1, s1, False));
                  u = takeWhile unit_char s2
              in if \<not> pre \<and> \<not> post then None
                 else if u = [] then None
                 else
                   (case unitMap u of
                      None \<Rightarrow> None
                    | Some unit \<Rightarrow>
                        if v > 2 ^ 63 div unit then None
                        else
                          (let v1 = v * unit;
                               v2 = (if f > 0
                                     then v1 + f64_to_int64 (f64_mul (f64_of_int f) (f64_div (f64_of_int unit) scale))
                                     else v1)
                           in if f > 0 \<and> v2 > 2 ^ 63 then None
                              else Some (v2, dropWhile unit_char s2))))))"

lemma parse_component_length:
  assumes "parse_component s = Some (v, t)"
  shows "length t < length s"
proof -
  obtain s2 where s2: "length s2 \<le> length s" "takeWhile unit_char s2 \<noteq> []" "t = dropWhile unit_char s2"
  proof -
    obtain v1 s1 where s1: "leadingInt 0 s = Some (v1, s1)"
      using assms by (auto simp: parse_component_def split: if_splits option.splits)
    obtain f sc s3 where f: "leadingFraction 0 (f64_of_int 1) False (tl s1) = (f, sc, s3)" by (metis prod_cases3)
    have "length s1 \<le> length s" "length s3 \<le> length s1"
      using leadingInt_length [OF s1] leadingFraction_length [OF f] by simp_all
    with assms s1 f that [of s1] that [of s3] show thesis
      by (auto simp: parse_component_def Let_def split: if_splits option.splits)
  qed
  have "length s2 = length (takeWhile unit_char s2) + length (dropWhile unit_char s2)"
    by (metis length_append takeWhile_dropWhile_id)
  with s2 show ?thesis by (cases "takeWhile unit_char s2") auto
qed

text \<open>The sum is a \<open>uint64\<close>.\<close>

function parse_components :: "string \<Rightarrow> int \<Rightarrow> int option" where
  "parse_components s d =
     (if s = [] then Some d
      else
        (case parse_component s of
           None \<Rightarrow> None
         | Some (v, t) \<Rightarrow> (let d1 = (d + v) mod 2 ^ 64 in if d1 > 2 ^ 63 then None else parse_components t d1)))"
  by pat_completeness auto
termination
  by (relation "measure (\<lambda>(s, d). length s)") (auto dest: parse_component_length)

declare parse_components.simps [simp del]

definition ParseDuration :: "string \<Rightarrow> duration option" where
  "ParseDuration orig =
     (let neg = (orig \<noteq> [] \<and> hd orig = CHR ''-'');
          s = (if orig \<noteq> [] \<and> (hd orig = CHR ''-'' \<or> hd orig = CHR ''+'') then tl orig else orig)
      in if s = ''0'' then Some 0
         else if s = [] then None
         else
           (case parse_components s 0 of
              None \<Rightarrow> None
            | Some d \<Rightarrow> if neg then Some (- d) else if d > 2 ^ 63 - 1 then None else Some d))"

section \<open>Environment variables\<close>

text \<open>\<open>os.Getenv\<close>: the empty string for a variable that is not set.\<close>

type_synonym environment = "string \<Rightarrow> string"

definition getEnv :: "environment \<Rightarrow> string \<Rightarrow> string \<Rightarrow> string" where
  "getEnv env key defaultValue = (if env key \<noteq> [] then env key else defaultValue)"

definition getEnvInt :: "environment \<Rightarrow> string \<Rightarrow> int \<Rightarrow> int" where
  "getEnvInt env key defaultValue =
     (if env key \<noteq> [] then (case ParseInt (env key) of Some v \<Rightarrow> v | None \<Rightarrow> defaultValue) else defaultValue)"

definition getEnvInt64 :: "environment \<Rightarrow> string \<Rightarrow> int64 \<Rightarrow> int64" where
  "getEnvInt64 env key defaultValue =
     (if env key \<noteq> [] then (case ParseInt (env key) of Some v \<Rightarrow> v | None \<Rightarrow> defaultValue) else defaultValue)"

definition getEnvBool :: "environment \<Rightarrow> string \<Rightarrow> bool \<Rightarrow> bool" where
  "getEnvBool env key defaultValue =
     (if env key \<noteq> [] then (case ParseBool (env key) of Some v \<Rightarrow> v | None \<Rightarrow> defaultValue) else defaultValue)"

definition getEnvDuration :: "environment \<Rightarrow> string \<Rightarrow> duration \<Rightarrow> duration" where
  "getEnvDuration env key defaultValue =
     (if env key \<noteq> [] then (case ParseDuration (env key) of Some v \<Rightarrow> v | None \<Rightarrow> defaultValue) else defaultValue)"

section \<open>Defaults\<close>

definition oracle_query :: string where "oracle_query = ''SELECT 1 FROM DUAL''"
definition plain_query :: string where "plain_query = ''SELECT 1''"

definition DefaultConfig :: "environment \<Rightarrow> RuntimeConfig" where
  "DefaultConfig env =
     (let dbType = getEnv env ''DB_TYPE'' DatabaseTypeSQLite;
          validationQuery = (if dbType = DatabaseTypeOracle then oracle_query else plain_query);
          dsn0 = getEnv env ''DB_DSN'' [];
          dsn = (if dsn0 = [] \<and> dbType = DatabaseTypeSQLite then '':memory:'' else dsn0)
      in \<lparr>rc_DatabaseType = dbType, rc_DSN = dsn,
          rc_MaxOpenConns = getEnvInt env ''DB_MAX_OPEN_CONNS'' 50,
          rc_MaxIdleConns = getEnvInt env ''DB_MAX_IDLE_CONNS'' 10,
          rc_ConnMaxLifetime = getEnvDuration env ''DB_CONN_MAX_LIFETIME'' (30 * Minute),
          rc_ConnMaxIdleTime = getEnvDuration env ''DB_CONN_MAX_IDLE_TIME'' (10 * Minute),
          rc_LeakDetectionThreshold = getEnvDuration env ''DB_LEAK_DETECTION_THRESHOLD'' (10 * Minute),
          rc_ValidationQuery = getEnv env ''DB_VALIDATION_QUERY'' validationQuery,
          rc_ValidationTimeout = getEnvDuration env ''DB_VALIDATION_TIMEOUT'' (5 * Second),
          rc_WarmupConnections = getEnvInt env ''DB_WARMUP_CONNECTIONS'' 5,
          rc_WarmupTimeout = getEnvDuration env ''DB_WARMUP_TIMEOUT'' (30 * Second),
          rc_ConnectionTimeout = getEnvDuration env ''DB_CONNECTION_TIMEOUT'' (30 * Second),
          rc_EnableLeakDetection = getEnvBool env ''DB_ENABLE_LEAK_DETECTION'' True,
          rc_CircuitBreakerMaxFailures = getEnvInt env ''DB_CB_MAX_FAILURES'' 5,
          rc_CircuitBreakerResetTimeout = getEnvDuration env ''DB_CB_RESET_TIMEOUT'' (60 * Second),
          rc_CircuitBreakerHalfOpenTimeout = getEnvDuration env ''DB_CB_HALF_OPEN_TIMEOUT'' (10 * Second),
          rc_MaxRequestsPerSecond = getEnvInt64 env ''DB_MAX_REQUESTS_PER_SEC'' 1000,
          rc_MaxConcurrentConnections = getEnvInt64 env ''DB_MAX_CONCURRENT_CONNECTIONS'' 100,
          rc_StmtCacheSize = getEnvInt env ''DB_STMT_CACHE_SIZE'' 200,
          rc_SlowQueryThreshold = getEnvDuration env ''DB_SLOW_QUERY_THRESHOLD'' (1 * Second),
          rc_QueryTimeout = getEnvDuration env ''DB_QUERY_TIMEOUT'' (30 * Second),
          rc_MaxRetries = getEnvInt env ''DB_MAX_RETRIES'' 3,
          rc_RetryBackoff = getEnvDuration env ''DB_RETRY_BACKOFF'' (100 * Millisecond),
          rc_BackpressureMode = getEnv env ''DB_BACKPRESSURE_MODE'' ''drop'',
          rc_BackpressureTimeout = getEnvDuration env ''DB_BACKPRESSURE_TIMEOUT'' 0,
          rc_EnableAggressiveCaching = getEnvBool env ''DB_AGGRESSIVE_CACHING'' False,
          rc_CacheDefaultTTL = getEnvDuration env ''DB_CACHE_DEFAULT_TTL'' (300 * Second),
          rc_CacheCapacity = getEnvInt env ''DB_CACHE_CAPACITY'' 10000,
          rc_InMemoryMode = getEnvBool env ''DB_IN_MEMORY_MODE'' False\<rparr>)"

section \<open>The builder\<close>

text \<open>Each method changes the configuration the builder points to and returns the builder.\<close>

record ConfigBuilder =
  cb_config :: RuntimeConfig

definition NewConfigBuilder :: "environment \<Rightarrow> ConfigBuilder" where
  "NewConfigBuilder env = \<lparr>cb_config = DefaultConfig env\<rparr>"

definition WithDatabaseType :: "DatabaseType \<Rightarrow> ConfigBuilder \<Rightarrow> ConfigBuilder" where
  "WithDatabaseType dbType cb =
     (let c = (cb_config cb)\<lparr>rc_DatabaseType := dbType\<rparr>
      in cb\<lparr>cb_config :=
              (if dbType = DatabaseTypePostgreSQL \<or> dbType = DatabaseTypeMySQL \<or> dbType = DatabaseTypeSQLite
               then (if rc_ValidationQuery c = oracle_query then c\<lparr>rc_ValidationQuery := plain_query\<rparr> else c)
               else if dbType = DatabaseTypeOracle
               then (if rc_ValidationQuery c = plain_query then c\<lparr>rc_ValidationQuery := oracle_query\<rparr> else c)
               else c)\<rparr>)"

definition WithDSN :: "string \<Rightarrow> ConfigBuilder \<Rightarrow> ConfigBuilder" where
  "WithDSN dsn cb = cb\<lparr>cb_config := (cb_config cb)\<lparr>rc_DSN := dsn\<rparr>\<rparr>"

definition WithConnectionPool :: "int \<Rightarrow> int \<Rightarrow> ConfigBuilder \<Rightarrow> ConfigBuilder" where
  "WithConnectionPool maxOpen maxIdle cb =
     cb\<lparr>cb_config := (cb_config cb)\<lparr>rc_MaxOpenConns := maxOpen, rc_MaxIdleConns := maxIdle\<rparr>\<rparr>"

definition WithConnectionLifetime :: "duration \<Rightarrow> duration \<Rightarrow> ConfigBuilder \<Rightarrow> ConfigBuilder" where
  "WithConnectionLifetime maxLifetime maxIdleTime cb =
     cb\<lparr>cb_config := (cb_config cb)\<lparr>rc_ConnMaxLifetime := maxLifetime, rc_ConnMaxIdleTime := maxIdleTime\<rparr>\<rparr>"

definition WithLeakDetection :: "bool \<Rightarrow> duration \<Rightarrow> ConfigBuilder \<Rightarrow> ConfigBuilder" where
  "WithLeakDetection enabled threshold cb =
     cb\<lparr>cb_config := (cb_config cb)\<lparr>rc_EnableLeakDetection := enabled, rc_LeakDetectionThreshold := threshold\<rparr>\<rparr>"

definition WithCircuitBreaker :: "int \<Rightarrow> duration \<Rightarrow> duration \<Rightarrow> ConfigBuilder \<Rightarrow> ConfigBuilder" where
  "WithCircuitBreaker failures reset halfOpen cb =
     cb\<lparr>cb_config := (cb_config cb)\<lparr>rc_CircuitBreakerMaxFailures := failures,
          rc_CircuitBreakerResetTimeout := reset, rc_CircuitBreakerHalfOpenTimeout := halfOpen\<rparr>\<rparr>"

definition WithRateLimit :: "int64 \<Rightarrow> ConfigBuilder \<Rightarrow> ConfigBuilder" where
  "WithRateLimit maxRequestsPerSecond cb =
     cb\<lparr>cb_config := (cb_config cb)\<lparr>rc_MaxRequestsPerSecond := maxRequestsPerSecond\<rparr>\<rparr>"

definition WithBackpressure :: "string \<Rightarrow> duration \<Rightarrow> ConfigBuilder \<Rightarrow> ConfigBuilder" where
  "WithBackpressure m timeout cb =
     cb\<lparr>cb_config := (cb_config cb)\<lparr>rc_BackpressureMode := m, rc_BackpressureTimeout := timeout\<rparr>\<rparr>"

definition WithInMemoryMode :: "bool \<Rightarrow> ConfigBuilder \<Rightarrow> ConfigBuilder" where
  "WithInMemoryMode enabled cb =
     (let c = (cb_config cb)\<lparr>rc_InMemoryMode := enabled\<rparr>;
          c1 = (if enabled
                then c\<lparr>rc_EnableAggressiveCaching := True, rc_CacheDefaultTTL := 600 * Second, rc_CacheCapacity := 50000\<rparr>
                else c);
          c2 = (if enabled \<and> rc_DSN c1 = [] then c1\<lparr>rc_DatabaseType := DatabaseTypeSQLite, rc_DSN := '':memory:''\<rparr>
                else c1)
      in cb\<lparr>cb_config := c2\<rparr>)"

definition WithAggressiveCaching :: "int \<Rightarrow> duration \<Rightarrow> ConfigBuilder \<Rightarrow> ConfigBuilder" where
  "WithAggressiveCaching cap ttl cb =
     cb\<lparr>cb_config := (cb_config cb)\<lparr>rc_EnableAggressiveCaching := True, rc_CacheCapacity := cap,
          rc_CacheDefaultTTL := ttl\<rparr>\<rparr>"

definition WithQuerySettings :: "int \<Rightarrow> duration \<Rightarrow> duration \<Rightarrow> ConfigBuilder \<Rightarrow> ConfigBuilder" where
  "WithQuerySettings stmtCacheSize slowQueryThreshold timeout cb =
     cb\<lparr>cb_config := (cb_config cb)\<lparr>rc_StmtCacheSize := stmtCacheSize, rc_SlowQueryThreshold := slowQueryThreshold,
          rc_QueryTimeout := timeout\<rparr>\<rparr>"

definition WithRetryPolicy :: "int \<Rightarrow> duration \<Rightarrow> ConfigBuilder \<Rightarrow> ConfigBuilder" where
  "WithRetryPolicy maxRetries backoff cb =
     cb\<lparr>cb_config := (cb_config cb)\<lparr>rc_MaxRetries := maxRetries, rc_RetryBackoff := backoff\<rparr>\<rparr>"

definition Build :: "ConfigBuilder \<Rightarrow> RuntimeConfig" where
  "Build cb = cb_config cb"

definition Config_Validate :: "ConfigBuilder \<Rightarrow> go_error option" where
  "Config_Validate cb =
     (let c = cb_config cb
      in if rc_DSN c = [] then Some (Errorf ''DSN is required'')
         else if rc_MaxOpenConns c \<le> 0 then Some (Errorf ''MaxOpenConns must be greater than 0'')
         else if rc_MaxIdleConns c > rc_MaxOpenConns c then Some (Errorf ''MaxIdleConns cannot exceed MaxOpenConns'')
         else if rc_MaxIdleConns c \<le> 0 then Some (Errorf ''MaxIdleConns must be greater than 0'')
         else None)"

section \<open>Reading numbers back\<close>

lemma is_digit_char [simp]: "0 \<le> d \<Longrightarrow> d < 10 \<Longrightarrow> is_digit (char_of (48 + d :: int))"
  by (simp add: is_digit_def)

lemma show_digits_digits: "0 \<le> n \<Longrightarrow> show_digits n \<noteq> [] \<and> list_all is_digit (show_digits n)"
proof (induction n rule: show_digits.induct)
  case (1 n)
  then show ?case by (subst (1 2) show_digits.simps) auto
qed

lemma show_digits_hd: "0 \<le> n \<Longrightarrow> is_digit (hd (show_digits n))"
  using show_digits_digits [of n] by (metis list.pred_set list.set_sel(1))

lemma signs_not_digits [simp]: "\<not> is_digit CHR ''-''" "\<not> is_digit CHR ''+''" "\<not> is_digit CHR ''.''"
  by (simp_all add: is_digit_def)

lemma ParseInt_show_int: "in_int64 n \<Longrightarrow> ParseInt (show_int n) = Some n"
proof -
  assume n: "in_int64 n"
  show ?thesis
  proof (cases "n < 0")
    case True
    with n show_digits_digits [of "- n"] show ?thesis by (simp add: ParseInt_def show_int_def read_show_digits Let_def)
  next
    case False
    then have "hd (show_digits n) \<noteq> CHR ''-''" "hd (show_digits n) \<noteq> CHR ''+''"
      using show_digits_hd [of n] signs_not_digits by (metis linorder_not_le)+
    with n False show_digits_digits [of n] show ?thesis
      by (simp add: ParseInt_def show_int_def read_show_digits Let_def)
  qed
qed

definition digits_value :: "int \<Rightarrow> string \<Rightarrow> int" where
  "digits_value x s = foldl (\<lambda>n c. 10 * n + (of_char c - 48)) x s"

lemma digits_value_ge: "0 \<le> x \<Longrightarrow> list_all is_digit s \<Longrightarrow> x \<le> digits_value x s"
proof (induction s arbitrary: x)
  case (Cons c s)
  let ?y = "10 * x + (of_char c - 48)"
  have "x \<le> ?y" "0 \<le> ?y" using Cons.prems by (simp_all add: is_digit_def)
  with Cons.IH [of ?y] Cons.prems show ?case by (simp add: digits_value_def)
qed (simp add: digits_value_def)

lemma leadingInt_digits:
  assumes "list_all is_digit s" "t = [] \<or> \<not> is_digit (hd t)" "0 \<le> x" "digits_value x s \<le> 2 ^ 63"
  shows "leadingInt x (s @ t) = Some (digits_value x s, t)"
  using assms
proof (induction s arbitrary: x)
  case Nil
  then show ?case by (cases t) (simp_all add: digits_value_def)
next
  case (Cons c s)
  let ?y = "10 * x + (of_char c - 48)"
  have y: "0 \<le> ?y" using Cons.prems by (simp add: is_digit_def)
  have v: "digits_value x (c # s) = digits_value ?y s" by (simp add: digits_value_def)
  have "?y \<le> 2 ^ 63" using digits_value_ge [OF y, of s] Cons.prems v by simp
  moreover have "10 * x \<le> ?y" using Cons.prems by (simp add: is_digit_def)
  ultimately have "\<not> x > 2 ^ 63 div 10" by simp
  with Cons.IH [OF _ Cons.prems(2) y] Cons.prems v \<open>?y \<le> 2 ^ 63\<close> show ?case
    by (simp add: mult.commute Let_def)
qed

lemma unitMap_facts:
  assumes "unitMap u = Some unit"
  shows "0 < unit" "u \<noteq> []" "list_all unit_char u"
  using assms by (auto simp: unitMap_def unit_char_def is_digit_def split: if_splits)

lemma parse_component_literal:
  assumes "0 \<le> n" "unitMap u = Some unit" "n * unit \<le> 2 ^ 63"
  shows "parse_component (show_digits n @ u) = Some (n * unit, [])"
proof -
  note u = unitMap_facts [OF assms(2)]
  note d = show_digits_digits [OF assms(1)]
  have hu: "unit_char (hd u)" using u(2,3) by (cases u) simp_all
  have "n \<le> n * unit" using assms(1) u(1) by (simp add: mult_le_cancel_left1)
  then have "n \<le> 2 ^ 63" using assms(3) by linarith
  then have li: "leadingInt 0 (show_digits n @ u) = Some (n, u)"
    using leadingInt_digits [of "show_digits n" u 0] d hu read_show_digits [OF assms(1)]
    by (simp add: unit_char_def digits_value_def read_digits_def)
  have tw: "takeWhile unit_char u = u" "dropWhile unit_char u = []"
    using u(3) by (simp_all add: list.pred_set takeWhile_eq_all_conv dropWhile_eq_Nil_conv)
  have "n \<le> 2 ^ 63 div unit" using zdiv_mono1 [OF assms(3) u(1)] u(1) by simp
  moreover have "hd u \<noteq> CHR ''.''" using hu by (simp add: unit_char_def)
  ultimately show ?thesis
    using li d u(2) assms(2) show_digits_hd [OF assms(1)] by (simp add: parse_component_def Let_def tw)
qed

lemma ParseDuration_literal:
  assumes "0 \<le> n" "unitMap u = Some unit" "n * unit < 2 ^ 63"
  shows "ParseDuration (show_digits n @ u) = Some (n * unit)"
    and "ParseDuration (CHR ''-'' # show_digits n @ u) = Some (- (n * unit))"
proof -
  note u = unitMap_facts [OF assms(2)]
  have lo: "0 \<le> n * unit" using assms(1) u(1) by simp
  have "parse_components (show_digits n @ u) 0 = parse_components [] (n * unit)"
    using parse_component_literal [OF assms(1,2)] assms(3) lo u(2)
    by (subst parse_components.simps) simp
  then have pc: "parse_components (show_digits n @ u) 0 = Some (n * unit)" by (simp add: parse_components.simps)
  have hd: "hd (show_digits n @ u) \<noteq> CHR ''-''" "hd (show_digits n @ u) \<noteq> CHR ''+''"
    using show_digits_digits [OF assms(1)] show_digits_hd [OF assms(1)] signs_not_digits by (metis hd_append2)+
  have zero: "is_digit CHR ''0''" by (simp add: is_digit_def)
  have "\<not> is_digit (last u)" using u by (metis last_in_set list.pred_set unit_char_def)
  then have "show_digits n @ u \<noteq> ''0''" using u(2) zero by (metis last_ConsL last_appendR)
  with pc hd u(2) assms(3) lo show "ParseDuration (show_digits n @ u) = Some (n * unit)"
    "ParseDuration (CHR ''-'' # show_digits n @ u) = Some (- (n * unit))"
    by (simp_all add: ParseDuration_def Let_def)
qed

section \<open>Builder calls\<close>

datatype builder_op =
    DoType DatabaseType
  | DoDSN string
  | DoPool int int
  | DoLifetime duration duration
  | DoLeak bool duration
  | DoBreaker int duration duration
  | DoRate int64
  | DoBackpressure string duration
  | DoInMemory bool
  | DoCaching int duration
  | DoQuery int duration duration
  | DoRetry int duration

fun builder_step :: "builder_op \<Rightarrow> ConfigBuilder \<Rightarrow> ConfigBuilder" where
  "builder_step (DoType t) = WithDatabaseType t"
| "builder_step (DoDSN d) = WithDSN d"
| "builder_step (DoPool a b) = WithConnectionPool a b"
| "builder_step (DoLifetime a b) = WithConnectionLifetime a b"
| "builder_step (DoLeak a b) = WithLeakDetection a b"
| "builder_step (DoBreaker a b c) = WithCircuitBreaker a b c"
| "builder_step (DoRate a) = WithRateLimit a"
| "builder_step (DoBackpressure a b) = WithBackpressure a b"
| "builder_step (DoInMemory a) = WithInMemoryMode a"
| "builder_step (DoCaching a b) = WithAggressiveCaching a b"
| "builder_step (DoQuery a b c) = WithQuerySettings a b c"
| "builder_step (DoRetry a b) = WithRetryPolicy a b"

lemmas builder_defs = WithDatabaseType_def WithDSN_def WithConnectionPool_def WithConnectionLifetime_def
  WithLeakDetection_def WithCircuitBreaker_def WithRateLimit_def WithBackpressure_def WithInMemoryMode_def
  WithAggressiveCaching_def WithQuerySettings_def WithRetryPolicy_def Let_def

text \<open>The validation query fits the database: Oracle needs a table in it.\<close>

definition query_matches :: "RuntimeConfig \<Rightarrow> bool" where
  "query_matches c \<longleftrightarrow>
     rc_ValidationQuery c = (if rc_DatabaseType c = DatabaseTypeOracle then oracle_query else plain_query)"

text \<open>Calls that keep it so: known database types, and no in-memory mode that switches the database on its own.\<close>

definition safe_op :: "ConfigBuilder \<Rightarrow> builder_op \<Rightarrow> bool" where
  "safe_op cb op \<longleftrightarrow>
     (case op of
        DoType t \<Rightarrow> t \<in> {DatabaseTypeOracle, DatabaseTypePostgreSQL, DatabaseTypeMySQL, DatabaseTypeSQLite}
      | DoInMemory b \<Rightarrow> b \<longrightarrow> rc_DSN (cb_config cb) \<noteq> []
      | _ \<Rightarrow> True)"

fun safe_ops :: "ConfigBuilder \<Rightarrow> builder_op list \<Rightarrow> bool" where
  "safe_ops cb [] \<longleftrightarrow> True"
| "safe_ops cb (op # ops) \<longleftrightarrow> safe_op cb op \<and> safe_ops (builder_step op cb) ops"

lemma queries_differ: "oracle_query \<noteq> plain_query"
  by (simp add: oracle_query_def plain_query_def)

lemma builder_step_matches:
  assumes "query_matches (cb_config cb)" "safe_op cb op"
  shows "query_matches (cb_config (builder_step op cb))"
  using assms queries_differ
  by (cases op) (auto simp: query_matches_def safe_op_def builder_defs db_types)

section \<open>Properties\<close>

text \<open>
  C27. Numbers and durations written into the environment are what the configuration reads: the decimal text of every
  \<open>int64\<close>, and every whole number of nanoseconds up to hours with its unit, with or without a minus
  sign, as far as it fits a duration.
\<close>

theorem environment_round_trip:
  assumes "in_int64 k" and "env i = show_int k"
    and "0 \<le> n" and "unitMap u = Some unit" and "n * unit < 2 ^ 63"
    and "env d = show_digits n @ u" and "env e = CHR ''-'' # show_digits n @ u"
  shows "getEnvInt env i x = k \<and> getEnvInt64 env i x = k \<and> getEnvDuration env d y = n * unit \<and>
    getEnvDuration env e y = - (n * unit)"
proof -
  have "show_int k \<noteq> []" using show_digits_digits [of k] by (simp add: show_int_def)
  moreover have "show_digits n @ u \<noteq> []" using unitMap_facts [OF assms(4)] by simp
  ultimately show ?thesis
    using assms ParseInt_show_int [OF assms(1)] ParseDuration_literal [OF assms(3-5)]
    by (simp add: getEnvInt_def getEnvInt64_def getEnvDuration_def)
qed

text \<open>
  Without a validation query of its own in the environment, a builder keeps the validation query in step
  with the database type through all calls with known types. The one call that breaks it is in-memory mode
  without a DSN, which switches to SQLite and leaves the query of Oracle.
\<close>

theorem builder_query_matches:
  assumes "env ''DB_VALIDATION_QUERY'' = []" and "safe_ops (NewConfigBuilder env) ops"
  shows "query_matches (Build (fold builder_step ops (NewConfigBuilder env))) \<and>
    \<not> query_matches (Build (WithInMemoryMode True (WithDSN [] (WithDatabaseType DatabaseTypeOracle
        (fold builder_step ops (NewConfigBuilder env))))))"
proof -
  have "query_matches (cb_config (fold builder_step ops cb))" if "query_matches (cb_config cb)" "safe_ops cb ops" for cb
    using that by (induction ops arbitrary: cb) (simp_all add: builder_step_matches)
  moreover have "query_matches (cb_config (NewConfigBuilder env))"
    using assms(1) by (simp add: NewConfigBuilder_def DefaultConfig_def query_matches_def getEnv_def Let_def)
  ultimately have m: "query_matches (cb_config (fold builder_step ops (NewConfigBuilder env)))" using assms(2) by blast
  moreover from m have "\<not> query_matches (cb_config (WithInMemoryMode True (WithDSN [] (WithDatabaseType DatabaseTypeOracle
        (fold builder_step ops (NewConfigBuilder env))))))"
    using queries_differ by (auto simp: query_matches_def builder_defs db_types)
  ultimately show ?thesis by (simp add: Build_def)
qed

lemma default_config_valid: "Config_Validate (NewConfigBuilder (\<lambda>_. [])) = None"
  by (simp add: Config_Validate_def NewConfigBuilder_def DefaultConfig_def getEnv_def getEnvInt_def Let_def)

section \<open>Witnesses\<close>

theorem environment_round_trip_witness:
  "let env = (\<lambda>k. if k = ''N'' then show_int (-7) else if k = ''D'' then show_digits 90 @ ''s'' else CHR ''-'' # show_digits 90 @ ''s'')
   in getEnvInt env ''N'' 0 = -7 \<and> getEnvDuration env ''D'' 0 = 90 * Second"
proof -
  let ?env = "\<lambda>k. if k = ''N'' then show_int (-7) else if k = ''D'' then show_digits 90 @ ''s'' else CHR ''-'' # show_digits 90 @ ''s''"
  from environment_round_trip [of "-7" ?env "''N''" 90 "''s''" "1000000000" "''D''" "''E''" 0 0]
  show ?thesis by (simp add: in_int64_def unitMap_def Second_def Let_def)
qed

theorem builder_query_matches_witness:
  "query_matches (Build (fold builder_step [DoType DatabaseTypeOracle, DoDSN ''user/pw@host'', DoInMemory True]
     (NewConfigBuilder (\<lambda>_. []))))"
proof -
  have "safe_ops (NewConfigBuilder (\<lambda>_. [])) [DoType DatabaseTypeOracle, DoDSN ''user/pw@host'', DoInMemory True]"
    by (simp add: safe_op_def builder_defs)
  from builder_query_matches [OF _ this] show ?thesis by simp
qed

end
