(* ===== verification/Go_Paths.thy ===== *)
theory Go_Paths
  imports Fluxor_Prelude "HOL-Library.Sublist"
begin

text \<open>
  What the blob storages use of \<open>strings\<close> and \<open>path/filepath\<close>, on Unix: splitting, joining and trimming of
  strings, and the lexical cleaning of paths. A cleaned path is a pair: whether it starts with a slash, and its
  elements.
\<close>

section \<open>Strings\<close>

text \<open>\<open>strings.Split\<close> with a separator of one character; \<open>strings.SplitN\<close> with limit two.\<close>

fun split_on :: "char \<Rightarrow> string \<Rightarrow> string list" where
  "split_on c [] = [[]]"
| "split_on c (x # xs) =
     (if x = c then [] # split_on c xs else (case split_on c xs of w # ws \<Rightarrow> (x # w) # ws | [] \<Rightarrow> [[x]]))"

definition SplitN2 :: "char \<Rightarrow> string \<Rightarrow> string list" where
  "SplitN2 c s =
     (if c \<in> set s then [takeWhile (\<lambda>x. x \<noteq> c) s, tl (dropWhile (\<lambda>x. x \<noteq> c) s)] else [s])"

fun join_with :: "string \<Rightarrow> string list \<Rightarrow> string" where
  "join_with sep [] = []"
| "join_with sep [s] = s"
| "join_with sep (s # t # ss) = s @ sep @ join_with sep (t # ss)"

text \<open>\<open>strings.Trim\<close>: the characters of the cutset go from both ends.\<close>

definition Trim :: "string \<Rightarrow> char set \<Rightarrow> string" where
  "Trim s cutset = rev (dropWhile (\<lambda>c. c \<in> cutset) (rev (dropWhile (\<lambda>c. c \<in> cutset) s)))"

definition HasPrefix :: "string \<Rightarrow> string \<Rightarrow> bool" where
  "HasPrefix s p \<longleftrightarrow> prefix p s"

definition HasSuffix :: "string \<Rightarrow> string \<Rightarrow> bool" where
  "HasSuffix s p \<longleftrightarrow> suffix p s"

definition Contains :: "string \<Rightarrow> string \<Rightarrow> bool" where
  "Contains s p \<longleftrightarrow> sublist p s"

lemma split_on_nonempty [simp]: "split_on c s \<noteq> []"
  by (induction s) (auto split: list.split)

lemma split_on_append_sep: "split_on c (s @ c # t) = split_on c s @ split_on c t"
  by (induction s) (auto split: list.split)

lemma split_on_plain: "c \<notin> set s \<Longrightarrow> split_on c s = [s]"
  by (induction s) auto

lemma split_on_no_sep: "w \<in> set (split_on c s) \<Longrightarrow> c \<notin> set w"
  by (induction s arbitrary: w) (auto split: list.splits if_splits)

lemma split_join:
  assumes "\<forall>w \<in> set ws. c \<notin> set w" "ws \<noteq> []"
  shows "split_on c (join_with [c] ws) = ws"
  using assms by (induction "[c]" ws rule: join_with.induct) (simp_all add: split_on_plain split_on_append_sep)

lemma join_split: "join_with [c] (split_on c s) = s"
proof (induction s)
  case (Cons x xs)
  then show ?case by (cases "split_on c xs"; cases "tl (split_on c xs)") auto
qed simp

lemma dropWhile_cutset:
  assumes "set p \<subseteq> cutset" "s = [] \<or> hd s \<notin> cutset"
  shows "dropWhile (\<lambda>c. c \<in> cutset) (p @ s) = s"
  using assms by (induction p) (cases s, simp_all)

text \<open>Text in the middle of cutset characters.\<close>

lemma Trim_wrapped:
  assumes "s = [] \<or> hd s \<notin> cutset \<and> last s \<notin> cutset" "set p \<subseteq> cutset" "set q \<subseteq> cutset"
  shows "Trim (p @ s @ q) cutset = s"
proof (cases "s = []")
  case True
  have "dropWhile (\<lambda>c. c \<in> cutset) ((p @ q) @ []) = []" using assms(2,3) by (intro dropWhile_cutset) simp_all
  with True show ?thesis unfolding Trim_def by (simp only: append_Nil append_Nil2 rev.simps dropWhile.simps)
next
  case False
  have "dropWhile (\<lambda>c. c \<in> cutset) (p @ s @ q) = s @ q"
    using False assms dropWhile_cutset [of p cutset "s @ q"] by simp
  moreover have "dropWhile (\<lambda>c. c \<in> cutset) (rev q @ rev s) = rev s"
    using False assms dropWhile_cutset [of "rev q" cutset "rev s"] by (simp add: hd_rev)
  ultimately show ?thesis by (simp add: Trim_def)
qed

lemma Trim_plain: "s = [] \<or> hd s \<notin> cutset \<and> last s \<notin> cutset \<Longrightarrow> Trim s cutset = s"
  using Trim_wrapped [of s cutset "[]" "[]"] by simp

section \<open>Paths\<close>

type_synonym path = "bool \<times> string list"

text \<open>One element of a path while it is cleaned; the elements so far are in reverse.\<close>

definition clean_step :: "bool \<Rightarrow> string \<Rightarrow> string list \<Rightarrow> string list" where
  "clean_step rooted e acc =
     (if e = [] \<or> e = ''.'' then acc
      else if e = ''..'' then
        (if acc \<noteq> [] \<and> hd acc \<noteq> ''..'' then tl acc else if rooted then acc else ''..'' # acc)
      else e # acc)"

definition clean_elems :: "bool \<Rightarrow> string list \<Rightarrow> string list" where
  "clean_elems rooted es = rev (fold (clean_step rooted) es [])"

definition parse_path :: "string \<Rightarrow> path" where
  "parse_path s =
     (let rooted = (s \<noteq> [] \<and> hd s = CHR ''/'') in (rooted, clean_elems rooted (split_on (CHR ''/'') s)))"

definition path_text :: "path \<Rightarrow> string" where
  "path_text p =
     (case p of (rooted, es) \<Rightarrow>
        if rooted then ''/'' @ join_with ''/'' es else if es = [] then ''.'' else join_with ''/'' es)"

text \<open>\<open>filepath.Clean\<close>, and \<open>filepath.Join\<close> of two elements as a cleaned path.\<close>

definition Clean :: "string \<Rightarrow> string" where
  "Clean s = path_text (parse_path s)"

definition Join :: "string \<Rightarrow> string \<Rightarrow> path" where
  "Join a b = (if a = [] then parse_path b else parse_path (a @ ''/'' @ b))"

definition path_Dir :: "path \<Rightarrow> path" where
  "path_Dir = (\<lambda>(rooted, es). (rooted, butlast es))"

text \<open>\<open>filePath + ".meta"\<close>: the text of the last element grows; of an empty path, that of its text.\<close>

definition add_suffix :: "string \<Rightarrow> path \<Rightarrow> path" where
  "add_suffix suf = (\<lambda>(rooted, es).
     (if es = [] then (rooted, [if rooted then suf else ''.'' @ suf]) else (rooted, butlast es @ [last es @ suf])))"

text \<open>\<open>filepath.Rel\<close> for a path below the base.\<close>

definition Rel :: "path \<Rightarrow> path \<Rightarrow> string" where
  "Rel base p = path_text (False, drop (length (snd base)) (snd p))"

definition inside :: "path \<Rightarrow> path \<Rightarrow> bool" where
  "inside root p \<longleftrightarrow>
     fst root = fst p \<and> prefix (snd root) (snd p) \<and> ''..'' \<notin> set (drop (length (snd root)) (snd p))"

section \<open>Cleaning\<close>

text \<open>An element that leads up from the start of a relative path stays.\<close>

lemma dotdot_stays: "''..'' \<in> set acc \<Longrightarrow> ''..'' \<in> set (fold (clean_step r) es acc)"
proof (induction es arbitrary: acc)
  case (Cons e es)
  have "''..'' \<in> set (clean_step r e acc)"
    using Cons.prems by (cases acc) (auto simp: clean_step_def)
  with Cons.IH show ?case by simp
qed simp

text \<open>If a relative path does not lead up, cleaning it below other elements leaves these alone.\<close>

lemma clean_below:
  assumes "''..'' \<notin> set (fold (clean_step False) es acc)"
  shows "fold (clean_step r) es (acc @ base) = fold (clean_step False) es acc @ base"
  using assms
proof (induction es arbitrary: acc)
  case (Cons e es)
  let ?acc = "clean_step False e acc"
  have stays: "''..'' \<notin> set acc" "''..'' \<notin> set ?acc"
    using Cons.prems dotdot_stays [of acc False "e # es"] dotdot_stays [of ?acc False es] by auto
  have "clean_step r e (acc @ base) = ?acc @ base"
  proof (cases "e = ''..''")
    case True
    then have "acc \<noteq> []" using stays(2) by (auto simp: clean_step_def)
    then have "hd acc \<noteq> ''..''" using stays(1) by (metis list.set_sel(1))
    with True \<open>acc \<noteq> []\<close> show ?thesis by (simp add: clean_step_def)
  next
    case False
    then show ?thesis by (simp add: clean_step_def)
  qed
  with Cons.IH [of ?acc] Cons.prems show ?case by simp
qed simp

text \<open>The elements that cleaning leaves.\<close>

definition clean_elem :: "string \<Rightarrow> bool" where
  "clean_elem e \<longleftrightarrow> e \<noteq> [] \<and> e \<noteq> ''.''"

lemma clean_step_elems: "\<forall>x \<in> set acc. clean_elem x \<Longrightarrow> \<forall>x \<in> set (clean_step r e acc). clean_elem x"
  by (cases acc) (simp_all add: clean_step_def clean_elem_def)

lemma fold_clean_elems: "\<forall>x \<in> set acc. clean_elem x \<Longrightarrow> \<forall>x \<in> set (fold (clean_step r) es acc). clean_elem x"
proof (induction es arbitrary: acc)
  case (Cons e es)
  from Cons.IH [OF clean_step_elems [OF Cons.prems]] show ?case by simp
qed simp

lemma clean_step_subset: "set (clean_step r e acc) \<subseteq> insert e (set acc)"
  by (cases acc) (auto simp: clean_step_def)

lemma fold_clean_subset: "set (fold (clean_step r) es acc) \<subseteq> set es \<union> set acc"
proof (induction es arbitrary: acc)
  case (Cons e es)
  with clean_step_subset [of r e acc] show ?case by fastforce
qed simp

lemma fold_clean_True: "''..'' \<notin> set acc \<Longrightarrow> ''..'' \<notin> set (fold (clean_step True) es acc)"
proof (induction es arbitrary: acc)
  case (Cons e es)
  have "''..'' \<notin> set (clean_step True e acc)"
    using Cons.prems list.set_sel [of acc] by (simp add: clean_step_def) metis
  with Cons.IH show ?case by simp
qed simp

lemma fold_clean_id: "\<forall>e \<in> set es. clean_elem e \<and> e \<noteq> ''..'' \<Longrightarrow> fold (clean_step r) es acc = rev es @ acc"
  by (induction es arbitrary: acc) (simp_all add: clean_step_def clean_elem_def)

text \<open>Cleaning a relative path first changes nothing when it is cleaned again below others.\<close>

lemma clean_once:
  assumes "\<forall>x \<in> set acc. clean_elem x"
  shows "fold (clean_step r) (rev (clean_step False e acc)) base = clean_step r e (fold (clean_step r) (rev acc) base)"
proof (cases "e = ''..'' \<and> acc \<noteq> [] \<and> hd acc \<noteq> ''..''")
  case True
  then obtain a acc' where acc: "acc = a # acc'" "a \<noteq> ''..''" by (cases acc) auto
  have "clean_elem a" using assms acc(1) by simp
  with True acc show ?thesis by (simp add: clean_step_def clean_elem_def)
next
  case False
  then show ?thesis by (auto simp: clean_step_def)
qed

lemma clean_twice:
  assumes "\<forall>x \<in> set acc. clean_elem x"
  shows "fold (clean_step r) (rev (fold (clean_step False) es acc)) base =
    fold (clean_step r) es (fold (clean_step r) (rev acc) base)"
  using assms
proof (induction es arbitrary: acc)
  case (Cons e es)
  from Cons.IH [OF clean_step_elems [OF Cons.prems]] clean_once [OF Cons.prems] show ?case by simp
qed simp

lemma clean_elems_twice:
  "fold (clean_step r) (clean_elems False es) base = fold (clean_step r) es base"
  using clean_twice [of "[]" r es base] by (simp add: clean_elems_def)

section \<open>Joining\<close>

definition rooted :: "string \<Rightarrow> bool" where
  "rooted s \<longleftrightarrow> s \<noteq> [] \<and> hd s = CHR ''/''"

lemma parse_path_alt: "parse_path s = (rooted s, clean_elems (rooted s) (split_on (CHR ''/'') s))"
  by (simp add: parse_path_def rooted_def Let_def)

lemma Join_fold:
  assumes "root \<noteq> []"
  shows "Join root key = (rooted root, rev (fold (clean_step (rooted root)) (split_on (CHR ''/'') key)
    (rev (snd (parse_path root)))))"
  using assms
  by (simp add: Join_def parse_path_alt rooted_def clean_elems_def split_on_append_sep)

text \<open>A key that does not lead up from where it starts.\<close>

definition safe_key :: "string \<Rightarrow> bool" where
  "safe_key key \<longleftrightarrow> ''..'' \<notin> set (clean_elems False (split_on (CHR ''/'') key))"

lemma Join_safe:
  assumes "root \<noteq> []" "safe_key key"
  shows "Join root key = (rooted root, snd (parse_path root) @ clean_elems False (split_on (CHR ''/'') key))"
proof -
  have "''..'' \<notin> set (fold (clean_step False) (split_on (CHR ''/'') key) [])"
    using assms(2) by (simp add: safe_key_def clean_elems_def)
  from clean_below [OF this, of "rooted root" "rev (snd (parse_path root))"] show ?thesis
    by (simp add: Join_fold [OF assms(1)] clean_elems_def)
qed

lemma Join_safe_inside: "root \<noteq> [] \<Longrightarrow> safe_key key \<Longrightarrow> inside (parse_path root) (Join root key)"
  by (simp add: Join_safe inside_def parse_path_alt safe_key_def)

text \<open>The elements of the text of a cleaned path.\<close>

lemma split_join_slash:
  "\<forall>e \<in> set es. CHR ''/'' \<notin> set e \<Longrightarrow> es \<noteq> [] \<Longrightarrow> split_on (CHR ''/'') (join_with ''/'' es) = es"
  by (rule split_join) simp_all

lemma clean_elems_no_slash: "e \<in> set (clean_elems r (split_on (CHR ''/'') s)) \<Longrightarrow> CHR ''/'' \<notin> set e"
  using fold_clean_subset [of r "split_on (CHR ''/'') s" "[]"] split_on_no_sep
  by (auto simp: clean_elems_def)

lemma Join_Clean_relative:
  assumes "root \<noteq> []" "\<not> rooted key"
  shows "Join root (Clean key) = Join root key"
proof -
  let ?es = "clean_elems False (split_on (CHR ''/'') key)"
  have "fold (clean_step r) (split_on (CHR ''/'') (Clean key)) base = fold (clean_step r) ?es base" for r base
  proof (cases "?es = []")
    case True
    then show ?thesis using assms(2) by (simp add: Clean_def parse_path_alt path_text_def clean_step_def)
  next
    case False
    then show ?thesis
      using assms(2) clean_elems_no_slash by (simp add: Clean_def parse_path_alt path_text_def split_join_slash)
  qed
  then show ?thesis by (simp add: Join_fold [OF assms(1)] clean_elems_twice)
qed

lemma Join_Clean_rooted:
  assumes "root \<noteq> []" "rooted key"
  shows "Join root (Clean key) = (rooted root, snd (parse_path root) @ clean_elems True (split_on (CHR ''/'') key))"
proof -
  let ?es = "clean_elems True (split_on (CHR ''/'') key)"
  have es: "\<forall>e \<in> set ?es. clean_elem e \<and> e \<noteq> ''..''"
    using fold_clean_elems [of "[]" True] fold_clean_True [of "[]"] by (auto simp: clean_elems_def)
  have "fold (clean_step r) (split_on (CHR ''/'') (Clean key)) base = fold (clean_step r) ?es base" for r base
    using assms(2) clean_elems_no_slash
    by (cases "?es = []") (simp_all add: Clean_def parse_path_alt path_text_def split_join_slash clean_step_def)
  with fold_clean_id [OF es] show ?thesis by (simp add: Join_fold [OF assms(1)])
qed

lemma Join_Clean_rooted_inside:
  assumes "root \<noteq> []" "rooted key"
  shows "inside (parse_path root) (Join root (Clean key))"
  using fold_clean_True [of "[]" "split_on (CHR ''/'') key"]
  by (simp add: Join_Clean_rooted [OF assms] inside_def parse_path_alt clean_elems_def)

end
