(* ===== verification/Blob_Files.thy ===== *)
theory Blob_Files
  imports Db_Errors Go_Paths "HOL-Library.AList" "HOL-Library.List_Lexorder" "HOL-Library.Char_ord"
begin

text \<open>
  Blob storage in files: the storage of \<open>blob.go\<close> with its file backend. The file system is a
  table of nodes under cleaned paths with the calls of \<open>os\<close> that the program uses; links and
  several names for one file are left out, permissions and device errors are the faults of a path, each kind of call with its own. The checksum
  (\<open>md5\<close> in hexadecimal) and the text of a time are arguments of which nothing is assumed.
\<close>

section \<open>Blobs\<close>

record BlobMetadata =
  bm_ContentType :: string
  bm_Filename :: string
  bm_Size :: int64
  bm_Checksum :: string
  bm_Tags :: "(string \<times> string) list"
  bm_CreatedAt :: time
  bm_UpdatedAt :: time

definition zero_BlobMetadata :: BlobMetadata where
  "zero_BlobMetadata =
     \<lparr>bm_ContentType = [], bm_Filename = [], bm_Size = 0, bm_Checksum = [], bm_Tags = [], bm_CreatedAt = zero_time,
      bm_UpdatedAt = zero_time\<rparr>"

record BlobData =
  bd_Key :: string
  bd_Data :: string
  bd_Metadata :: BlobMetadata

record BlobInfo =
  bi_Key :: string
  bi_Metadata :: BlobMetadata

record BlobStats =
  TotalBlobs :: int64
  TotalSize :: int64
  UsedSpace :: int64

record BlobStorageConfig =
  Backend :: string
  RootPath :: string
  TableName :: string
  bsc_MaxSize :: int64
  Compression :: bool

section \<open>The file system\<close>

datatype fs_node = Directory | File string time

text \<open>
  \<open>fault\<close>: a path cannot be opened, made, removed or, for a directory, read. \<open>write_fault\<close>: a write to the opened file fails
  after some bytes. \<open>stat_fault\<close>: the path cannot be examined, as in a directory without the permission to search it.
\<close>

record file_system =
  nodes :: "(path \<times> fs_node) list"
  fault :: "path \<Rightarrow> go_error option"
  write_fault :: "path \<Rightarrow> (nat \<times> go_error) option"
  stat_fault :: "path \<Rightarrow> go_error option"

text \<open>The root, the working directory and what is above it are there.\<close>

definition fs_lookup :: "file_system \<Rightarrow> path \<Rightarrow> fs_node option" where
  "fs_lookup fs p = (if list_all (\<lambda>e. e = ''..'') (snd p) then Some Directory else map_of (nodes fs) p)"

definition path_error :: "string \<Rightarrow> path \<Rightarrow> string \<Rightarrow> go_error" where
  "path_error op p msg = ErrExt 7 (op @ '' '' @ path_text p @ '': '' @ msg)"

definition os_ReadFile :: "path \<Rightarrow> file_system \<Rightarrow> go_error + string" where
  "os_ReadFile p fs =
     (case fault fs p of
        Some e \<Rightarrow> Inl e
      | None \<Rightarrow>
          (case fs_lookup fs p of
             None \<Rightarrow> Inl (path_error ''open'' p ''no such file or directory'')
           | Some Directory \<Rightarrow> Inl (path_error ''read'' p ''is a directory'')
           | Some (File d t) \<Rightarrow> Inr d))"

text \<open>\<open>os.WriteFile\<close> truncates the file before it writes, so that a write that fails leaves a part of the data.\<close>

definition os_WriteFile :: "time \<Rightarrow> path \<Rightarrow> string \<Rightarrow> file_system \<Rightarrow> file_system \<times> go_error option" where
  "os_WriteFile now p data fs =
     (case fault fs p of
        Some e \<Rightarrow> (fs, Some e)
      | None \<Rightarrow>
          if fs_lookup fs p = Some Directory then (fs, Some (path_error ''open'' p ''is a directory''))
          else
            (case fs_lookup fs (path_Dir p) of
               Some Directory \<Rightarrow>
                 (case write_fault fs p of
                    None \<Rightarrow> (fs\<lparr>nodes := AList.update p (File data now) (nodes fs)\<rparr>, None)
                  | Some (n, e) \<Rightarrow> (fs\<lparr>nodes := AList.update p (File (take n data) now) (nodes fs)\<rparr>, Some e))
             | Some (File d t) \<Rightarrow> (fs, Some (path_error ''open'' p ''not a directory''))
             | None \<Rightarrow> (fs, Some (path_error ''open'' p ''no such file or directory''))))"

text \<open>\<open>os.MkdirAll\<close> makes the missing directories, the outer ones first.\<close>

fun mkdirs :: "path list \<Rightarrow> file_system \<Rightarrow> file_system \<times> go_error option" where
  "mkdirs [] fs = (fs, None)"
| "mkdirs (p # ps) fs =
     (case fs_lookup fs p of
        Some Directory \<Rightarrow> mkdirs ps fs
      | Some (File d t) \<Rightarrow> (fs, Some (path_error ''mkdir'' p ''not a directory''))
      | None \<Rightarrow>
          (case fault fs p of
             Some e \<Rightarrow> (fs, Some e)
           | None \<Rightarrow> mkdirs ps (fs\<lparr>nodes := AList.update p Directory (nodes fs)\<rparr>)))"

definition os_MkdirAll :: "path \<Rightarrow> file_system \<Rightarrow> file_system \<times> go_error option" where
  "os_MkdirAll p = mkdirs (map (\<lambda>k. (fst p, take k (snd p))) [1..<Suc (length (snd p))])"

text \<open>\<open>os.Remove\<close> removes a file or an empty directory.\<close>

definition os_Remove :: "path \<Rightarrow> file_system \<Rightarrow> file_system \<times> go_error option" where
  "os_Remove p fs =
     (case fault fs p of
        Some e \<Rightarrow> (fs, Some e)
      | None \<Rightarrow>
          if fs_lookup fs p = None then (fs, Some (path_error ''remove'' p ''no such file or directory''))
          else if map_of (nodes fs) p = None then (fs, Some (path_error ''remove'' p ''invalid argument''))
          else if fs_lookup fs p = Some Directory \<and> list_ex (\<lambda>(q, n). snd q \<noteq> [] \<and> path_Dir q = p) (nodes fs)
          then (fs, Some (path_error ''remove'' p ''directory not empty''))
          else (fs\<lparr>nodes := AList.delete p (nodes fs)\<rparr>, None))"

definition os_Stat :: "path \<Rightarrow> file_system \<Rightarrow> go_error + fs_node" where
  "os_Stat p fs =
     (case stat_fault fs p of
        Some e \<Rightarrow> Inl e
      | None \<Rightarrow>
          (case fs_lookup fs p of
             None \<Rightarrow> Inl (path_error ''stat'' p ''no such file or directory'')
           | Some n \<Rightarrow> Inr n))"

text \<open>
  The nodes below a root, each directory before what it holds and the names of a directory in order. \<open>filepath.Walk\<close> examines every
  node and reads every directory it comes to; \<open>filepath.WalkDir\<close> examines the root only and has the kind of the others
  from their directories. What fails is passed over, as the functions that the storages give them ignore errors.
\<close>

definition readable_below :: "file_system \<Rightarrow> path \<Rightarrow> path \<Rightarrow> bool" where
  "readable_below fs root p \<longleftrightarrow>
     list_all (\<lambda>k. fault fs (fst p, take k (snd p)) = None) [length (snd root)..<length (snd p)]"

definition examined_below :: "file_system \<Rightarrow> path \<Rightarrow> path \<Rightarrow> bool" where
  "examined_below fs root p \<longleftrightarrow>
     list_all (\<lambda>k. stat_fault fs (fst p, take k (snd p)) = None) [length (snd root)..<Suc (length (snd p))]"

definition walk :: "path \<Rightarrow> file_system \<Rightarrow> (path \<times> fs_node) list" where
  "walk root fs =
     sort_key (\<lambda>(p, n). snd p)
       (filter (\<lambda>(p, n). inside root p \<and> readable_below fs root p \<and> examined_below fs root p) (nodes fs))"

definition walk_dir :: "path \<Rightarrow> file_system \<Rightarrow> (path \<times> fs_node) list" where
  "walk_dir root fs =
     sort_key (\<lambda>(p, n). snd p)
       (filter (\<lambda>(p, n). inside root p \<and> readable_below fs root p \<and> stat_fault fs root = None) (nodes fs))"

section \<open>Storage in files\<close>

record FilesystemBlobStorage =
  rootPath :: string
  maxSize_fs :: int64

definition default_max_size :: int64 where "default_max_size = 100 * 1024 * 1024"

definition NewFilesystemBlobStorage ::
    "BlobStorageConfig \<Rightarrow> file_system \<Rightarrow> file_system \<times> (go_error + FilesystemBlobStorage)" where
  "NewFilesystemBlobStorage config fs =
     (if RootPath config = [] then (fs, Inl (Errorf ''root path is required for filesystem blob storage''))
      else
        (case os_MkdirAll (parse_path (RootPath config)) fs of
           (fs1, Some err) \<Rightarrow> (fs1, Inl (ErrorfW ''failed to create root directory: '' err []))
         | (fs1, None) \<Rightarrow>
             (fs1, Inr \<lparr>rootPath = RootPath config,
                        maxSize_fs = (if bsc_MaxSize config > 0 then bsc_MaxSize config else default_max_size)\<rparr>)))"

definition too_large :: "string \<Rightarrow> int64 \<Rightarrow> go_error" where
  "too_large data m =
     Errorf (''blob size '' @ show_int (int (length data)) @ '' exceeds maximum '' @ show_int m)"

text \<open>The metadata file: a text made with \<open>fmt.Sprintf\<close>.\<close>

definition tab :: char where "tab = CHR 0x09"
definition nl :: char where "nl = CHR 0x0A"
definition quote :: char where "quote = CHR 0x22"

definition quoted :: "string \<Rightarrow> string" where
  "quoted s = quote # s @ [quote]"

definition metadata_text :: "string \<Rightarrow> string \<Rightarrow> string \<Rightarrow> string \<Rightarrow> string \<Rightarrow> string \<Rightarrow> string" where
  "metadata_text contentType filename sz checksum created updated =
     CHR ''{'' # nl # tab # tab # quoted ''content_type'' @ '': '' @ quoted contentType @ '','' @
     nl # tab # tab # quoted ''filename'' @ '': '' @ quoted filename @ '','' @
     nl # tab # tab # quoted ''size'' @ '': '' @ sz @ '','' @
     nl # tab # tab # quoted ''checksum'' @ '': '' @ quoted checksum @ '','' @
     nl # tab # tab # quoted ''created_at'' @ '': '' @ quoted created @ '','' @
     nl # tab # tab # quoted ''updated_at'' @ '': '' @ quoted updated @ nl # tab # ''}''"

text \<open>
  \<open>Store\<close> reads the clock four times: for the two files as they are written and for the two times in the metadata.
\<close>

definition Fs_Store ::
    "(string \<Rightarrow> string) \<Rightarrow> (time \<Rightarrow> string) \<Rightarrow> time \<times> time \<times> time \<times> time \<Rightarrow> FilesystemBlobStorage \<Rightarrow> string \<Rightarrow> string \<Rightarrow>
     BlobMetadata \<Rightarrow> file_system \<Rightarrow> file_system \<times> go_error option" where
  "Fs_Store md5hex rfc3339 clk fbs key data metadata fs =
     (case clk of (t1, t2, created, updated) \<Rightarrow>
        if int (length data) > maxSize_fs fbs then (fs, Some (too_large data (maxSize_fs fbs)))
        else
          (let filePath = Join (rootPath fbs) key
           in case os_MkdirAll (path_Dir filePath) fs of
                (fs1, Some err) \<Rightarrow> (fs1, Some (ErrorfW ''failed to create directory: '' err []))
              | (fs1, None) \<Rightarrow>
                  (case os_WriteFile t1 filePath data fs1 of
                     (fs2, Some err) \<Rightarrow> (fs2, Some (ErrorfW ''failed to write blob: '' err []))
                   | (fs2, None) \<Rightarrow>
                       os_WriteFile t2 (add_suffix ''.meta'' filePath)
                         (metadata_text (bm_ContentType metadata) (bm_Filename metadata) (show_int (int (length data)))
                            (md5hex data) (rfc3339 created) (rfc3339 updated)) fs2)))"

text \<open>The content type that \<open>Retrieve\<close> guesses from the text of the metadata.\<close>

definition guess_type :: "string \<Rightarrow> string" where
  "guess_type metaStr =
     (if Contains metaStr ''image/''
      then (if Contains metaStr ''png'' then ''image/png''
            else if Contains metaStr ''gif'' then ''image/gif''
            else ''image/jpeg'')
      else [])"

definition Fs_Retrieve ::
    "(string \<Rightarrow> string) \<Rightarrow> time \<times> time \<Rightarrow> FilesystemBlobStorage \<Rightarrow> string \<Rightarrow> file_system \<Rightarrow> go_error + BlobData" where
  "Fs_Retrieve md5hex clk fbs key fs =
     (let filePath = Join (rootPath fbs) key
      in case os_ReadFile filePath fs of
           Inl err \<Rightarrow> Inl (ErrorfW ''blob not found: '' err [])
         | Inr data \<Rightarrow>
             (let metadata = zero_BlobMetadata\<lparr>bm_Size := int (length data), bm_Checksum := md5hex data,
                               bm_CreatedAt := fst clk, bm_UpdatedAt := snd clk\<rparr>
              in Inr \<lparr>bd_Key = key, bd_Data = data,
                      bd_Metadata =
                        (case os_ReadFile (add_suffix ''.meta'' filePath) fs of
                           Inl err \<Rightarrow> metadata
                         | Inr metaStr \<Rightarrow> metadata\<lparr>bm_ContentType := guess_type metaStr\<rparr>)\<rparr>))"

definition Fs_Delete :: "FilesystemBlobStorage \<Rightarrow> string \<Rightarrow> file_system \<Rightarrow> file_system \<times> go_error option" where
  "Fs_Delete fbs key fs =
     (let filePath = Join (rootPath fbs) key
      in os_Remove filePath (fst (os_Remove (add_suffix ''.meta'' filePath) fs)))"

definition Fs_Exists :: "FilesystemBlobStorage \<Rightarrow> string \<Rightarrow> file_system \<Rightarrow> bool" where
  "Fs_Exists fbs key fs = (case os_Stat (Join (rootPath fbs) key) fs of Inl err \<Rightarrow> False | Inr n \<Rightarrow> True)"

text \<open>The nodes that \<open>List\<close> and \<open>Stats\<close> count: files whose path does not end in \<open>.meta\<close>.\<close>

definition blob_files :: "string \<Rightarrow> file_system \<Rightarrow> (path \<times> string \<times> time) list" where
  "blob_files root fs =
     concat (map (\<lambda>(p, n). case n of
         Directory \<Rightarrow> []
       | File d t \<Rightarrow> if HasSuffix (path_text p) ''.meta'' then [] else [(p, d, t)]) (walk (parse_path root) fs))"

definition Fs_List :: "FilesystemBlobStorage \<Rightarrow> string \<Rightarrow> file_system \<Rightarrow> BlobInfo list" where
  "Fs_List fbs pre fs =
     concat (map (\<lambda>(p, d, t).
         let relPath = Rel (parse_path (rootPath fbs)) p
         in if pre = [] \<or> HasPrefix relPath pre
            then [\<lparr>bi_Key = relPath,
                   bi_Metadata = zero_BlobMetadata\<lparr>bm_Size := int (length d), bm_CreatedAt := t, bm_UpdatedAt := t\<rparr>\<rparr>]
            else []) (blob_files (rootPath fbs) fs))"

definition Fs_Stats :: "FilesystemBlobStorage \<Rightarrow> file_system \<Rightarrow> BlobStats" where
  "Fs_Stats fbs fs =
     (let (n, sz) = fold (\<lambda>(p, d, t) (n, sz). (wrap64 (n + 1), wrap64 (sz + int (length d))))
                        (blob_files (rootPath fbs) fs) (0, 0)
      in \<lparr>TotalBlobs = n, TotalSize = sz, UsedSpace = sz\<rparr>)"

section \<open>Laws of the file system\<close>

abbreviation meta_path :: "path \<Rightarrow> path" where
  "meta_path p \<equiv> add_suffix ''.meta'' p"

lemma add_suffix_neq: "suf \<noteq> [] \<Longrightarrow> add_suffix suf p \<noteq> p"
proof -
  assume suf: "suf \<noteq> []"
  obtain r es where p: "p = (r, es)" by (metis surj_pair)
  show ?thesis
  proof (cases "es = []")
    case False
    then have "butlast es @ [last es @ suf] \<noteq> es" using suf by (metis append_butlast_last_id append_self_conv last_snoc)
    with p False show ?thesis by (simp add: add_suffix_def)
  qed (simp add: p add_suffix_def)
qed

lemma meta_path_neq [simp]: "meta_path p \<noteq> p" "p \<noteq> meta_path p"
  using add_suffix_neq [of "''.meta''" p] by (metis list.distinct(1))+

lemma fs_lookup_update:
  "fs_lookup (fs\<lparr>nodes := AList.update p n (nodes fs)\<rparr>) q =
     (if q = p \<and> \<not> list_all (\<lambda>e. e = ''..'') (snd p) then Some n else fs_lookup fs q)"
  by (simp add: fs_lookup_def update_conv')

lemma WriteFile_cases:
  assumes "os_WriteFile now p data fs = (fs', r)"
  obtains (fails) err where "fs' = fs" "r = Some err"
  | (breaks) n err where "r = Some err" "fs' = fs\<lparr>nodes := AList.update p (File (take n data) now) (nodes fs)\<rparr>"
      "\<not> list_all (\<lambda>e. e = ''..'') (snd p)" "fs_lookup fs p \<noteq> Some Directory"
  | (writes) "r = None" "fs' = fs\<lparr>nodes := AList.update p (File data now) (nodes fs)\<rparr>" "fault fs p = None"
      "\<not> list_all (\<lambda>e. e = ''..'') (snd p)" "fs_lookup fs p \<noteq> Some Directory" "fs_lookup fs (path_Dir p) = Some Directory"
proof (cases "fault fs p = None \<and> fs_lookup fs p \<noteq> Some Directory \<and> fs_lookup fs (path_Dir p) = Some Directory")
  case True
  then have up: "\<not> list_all (\<lambda>e. e = ''..'') (snd p)" by (auto simp: fs_lookup_def)
  show ?thesis
  proof (cases "write_fault fs p")
    case None
    with assms True up show ?thesis by (intro writes) (simp_all add: os_WriteFile_def)
  next
    case (Some x)
    with assms True up show ?thesis by (cases x) (intro breaks [of "snd x" "fst x"], simp_all add: os_WriteFile_def)
  qed
next
  case False
  have "fs' = fs \<and> r \<noteq> None"
  proof (cases "fault fs p")
    case None
    with assms False show ?thesis
      by (cases "fs_lookup fs (path_Dir p)") (auto simp: os_WriteFile_def split: fs_node.splits if_splits)
  next
    case (Some e)
    with assms have "(fs, Some e) = (fs', r)" by (simp add: os_WriteFile_def)
    then show ?thesis by auto
  qed
  with fails show ?thesis by blast
qed

lemma WriteFile_other: "q \<noteq> p \<Longrightarrow> fs_lookup (fst (os_WriteFile now p data fs)) q = fs_lookup fs q"
  by (rule WriteFile_cases [of now p data fs "fst (os_WriteFile now p data fs)" "snd (os_WriteFile now p data fs)"])
    (simp_all add: fs_lookup_update)

lemma WriteFile_fault [simp]: "fault (fst (os_WriteFile now p data fs)) = fault fs"
  by (rule WriteFile_cases [of now p data fs "fst (os_WriteFile now p data fs)" "snd (os_WriteFile now p data fs)"]) simp_all

lemma mkdirs_fault [simp]: "fault (fst (mkdirs ps fs)) = fault fs"
  by (induction ps fs rule: mkdirs.induct) (auto split: option.splits fs_node.splits)

text \<open>Making directories changes only what was not there.\<close>

lemma mkdirs_lookup:
  "fs_lookup (fst (mkdirs ps fs)) q = fs_lookup fs q \<or>
   fs_lookup fs q = None \<and> q \<in> set ps \<and> fs_lookup (fst (mkdirs ps fs)) q = Some Directory"
proof (induction ps fs rule: mkdirs.induct)
  case (2 p ps fs)
  show ?case
  proof (cases "fs_lookup fs p")
    case None
    then have "\<not> list_all (\<lambda>e. e = ''..'') (snd p)" by (auto simp: fs_lookup_def)
    then have look: "fs_lookup (fs\<lparr>nodes := AList.update p Directory (nodes fs)\<rparr>) q = (if q = p then Some Directory else fs_lookup fs q)"
      by (simp add: fs_lookup_update)
    show ?thesis
    proof (cases "fault fs p")
      case f: None
      from 2(1) [OF None f] look None f show ?thesis by (cases "q = p") simp_all
    qed (simp add: None)
  next
    case (Some n)
    with 2(2) show ?thesis by (cases n) auto
  qed
qed simp

lemma MkdirAll_lookup:
  "fs_lookup (fst (os_MkdirAll p fs)) q = fs_lookup fs q \<or>
   fs_lookup fs q = None \<and> prefix (snd q) (snd p) \<and> fst q = fst p \<and> fs_lookup (fst (os_MkdirAll p fs)) q = Some Directory"
  using mkdirs_lookup [of "map (\<lambda>k. (fst p, take k (snd p))) [1..<Suc (length (snd p))]" fs q]
  by (auto simp: os_MkdirAll_def take_is_prefix simp del: upt_Suc)

lemma MkdirAll_fault [simp]: "fault (fst (os_MkdirAll p fs)) = fault fs"
  by (simp add: os_MkdirAll_def)

lemma ReadFile_cong:
  "fault fs' p = fault fs p \<Longrightarrow> fs_lookup fs' p = fs_lookup fs p \<Longrightarrow> os_ReadFile p fs' = os_ReadFile p fs"
  by (simp add: os_ReadFile_def split: option.split)

lemma Remove_cases:
  assumes "os_Remove p fs = (fs', r)"
  obtains (fails) err where "fs' = fs" "r = Some err"
  | (removes) "r = None" "fs' = fs\<lparr>nodes := AList.delete p (nodes fs)\<rparr>" "map_of (nodes fs) p \<noteq> None"
      "\<not> list_all (\<lambda>e. e = ''..'') (snd p) \<or> fs_lookup fs p = Some Directory"
proof (cases "fault fs p")
  case None
  with assms that show ?thesis by (auto simp: os_Remove_def fs_lookup_def split: option.splits if_splits)
next
  case (Some e)
  with assms show ?thesis by (intro fails [of e]) (simp_all add: os_Remove_def)
qed

lemma Remove_other: "q \<noteq> p \<Longrightarrow> fs_lookup (fst (os_Remove p fs)) q = fs_lookup fs q"
  by (rule Remove_cases [of p fs "fst (os_Remove p fs)" "snd (os_Remove p fs)"])
    (simp_all add: fs_lookup_def delete_conv')

lemma Remove_fault [simp]: "fault (fst (os_Remove p fs)) = fault fs"
  by (rule Remove_cases [of p fs "fst (os_Remove p fs)" "snd (os_Remove p fs)"]) simp_all

text \<open>What a reader gets from a path.\<close>

definition read_data :: "path \<Rightarrow> file_system \<Rightarrow> string option" where
  "read_data p fs = (case os_ReadFile p fs of Inl err \<Rightarrow> None | Inr d \<Rightarrow> Some d)"

lemma read_data_alt:
  "read_data p fs = (if fault fs p \<noteq> None then None
     else case fs_lookup fs p of Some (File d t) \<Rightarrow> Some d | _ \<Rightarrow> None)"
  by (auto simp: read_data_def os_ReadFile_def split: option.splits fs_node.splits)

lemma read_data_MkdirAll [simp]: "read_data q (fst (os_MkdirAll p fs)) = read_data q fs"
  using MkdirAll_lookup [of p fs q] by (auto simp: read_data_alt)

lemma read_data_WriteFile_other: "q \<noteq> p \<Longrightarrow> read_data q (fst (os_WriteFile now p d fs)) = read_data q fs"
  by (simp add: read_data_alt WriteFile_other)

lemma read_data_WriteFile:
  assumes "os_WriteFile now p d fs = (fs', None)"
  shows "read_data p fs' = Some d"
  using assms by (rule WriteFile_cases) (simp_all add: read_data_alt fs_lookup_update)

lemma read_data_Remove_other: "q \<noteq> p \<Longrightarrow> read_data q (fst (os_Remove p fs)) = read_data q fs"
  by (simp add: read_data_alt Remove_other)

lemma read_data_Remove:
  assumes "os_Remove p fs = (fs', None)"
  shows "read_data p fs' = None"
  using assms by (rule Remove_cases) (auto simp: read_data_alt fs_lookup_def delete_conv')

section \<open>The interface of a blob storage\<close>

text \<open>
  What the interface \<open>BlobStorage\<close> promises about data: a blob that was stored is found, a deleted one is not, and
  blobs whose keys are apart do not disturb each other. The flag says whether the call succeeded. The first argument of a store is
  what comes with it: its metadata and the readings of the clock.
\<close>

datatype 'x blob_op = Put 'x string string | Del string

fun op_key :: "'x blob_op \<Rightarrow> string" where
  "op_key (Put x k d) = k"
| "op_key (Del k) = k"

text \<open>The abstract storage: a map from keys to data.\<close>

fun map_step :: "'x blob_op \<Rightarrow> (string \<rightharpoonup> string) \<Rightarrow> (string \<rightharpoonup> string)" where
  "map_step (Put x k d) m = m(k \<mapsto> d)"
| "map_step (Del k) m = m(k := None)"

locale blob_store =
  fixes put :: "'x \<Rightarrow> string \<Rightarrow> string \<Rightarrow> 's \<Rightarrow> 's \<times> bool"
    and get :: "string \<Rightarrow> 's \<Rightarrow> string option"
    and del :: "string \<Rightarrow> 's \<Rightarrow> 's \<times> bool"
    and apart :: "string \<Rightarrow> string \<Rightarrow> bool"
  assumes put_get: "put x k d s = (s', True) \<Longrightarrow> get k s' = Some d"
    and put_other: "apart k k' \<Longrightarrow> get k' (fst (put x k d s)) = get k' s"
    and del_get: "del k s = (s', True) \<Longrightarrow> get k s' = None"
    and del_other: "apart k k' \<Longrightarrow> get k' (fst (del k s)) = get k' s"
begin

fun store_step :: "'s \<Rightarrow> 'x blob_op \<Rightarrow> 's \<times> bool" where
  "store_step s (Put x k d) = put x k d s"
| "store_step s (Del k) = del k s"

lemma store_step_get:
  assumes "snd (store_step s op)" "op_key op \<noteq> k \<longrightarrow> apart (op_key op) k"
  shows "get k (fst (store_step s op)) = map_step op (\<lambda>k. get k s) k"
proof (cases op)
  case (Put x k' d)
  with assms put_get [of x k' d s "fst (put x k' d s)"] put_other [of k' k x d s] show ?thesis
    by (cases "k = k'") (auto simp: prod_eq_iff)
next
  case (Del k')
  with assms del_get [of k' s "fst (del k' s)"] del_other [of k' k s] show ?thesis
    by (cases "k = k'") (auto simp: prod_eq_iff)
qed

lemma map_step_cong: "m k = m' k \<Longrightarrow> map_step op m k = map_step op m' k"
  by (cases op) simp_all

lemma fold_map_cong: "m k = m' k \<Longrightarrow> fold map_step ops m k = fold map_step ops m' k"
proof (induction ops arbitrary: m m')
  case (Cons op ops)
  from Cons.IH [of "map_step op m" "map_step op m'"] map_step_cong [of m k m' op] Cons.prems show ?case by simp
qed simp

text \<open>A run in which every call succeeded, seen from a key that is apart from all others used.\<close>

lemma run_get:
  assumes "False \<notin> set (snd (run store_step s ops))" "\<forall>op \<in> set ops. op_key op \<noteq> k \<longrightarrow> apart (op_key op) k"
  shows "get k (fst (run store_step s ops)) = fold map_step ops (\<lambda>k. get k s) k"
  using assms
proof (induction ops arbitrary: s)
  case (Cons op ops)
  let ?s = "fst (store_step s op)"
  have "get k (fst (run store_step ?s ops)) = fold map_step ops (\<lambda>k. get k ?s) k"
    using Cons.prems by (intro Cons.IH) (simp_all add: run_Cons del: run.simps(2))
  moreover have "get k ?s = map_step op (\<lambda>k. get k s) k"
    using Cons.prems by (intro store_step_get) (simp_all add: run_Cons del: run.simps(2))
  ultimately show ?case
    using fold_map_cong [of "\<lambda>k. get k ?s" k "map_step op (\<lambda>k. get k s)" ops] by (simp add: run_Cons del: run.simps(2))
qed simp

end

section \<open>The file backend as a blob storage\<close>

definition fs_put ::
    "(string \<Rightarrow> string) \<Rightarrow> (time \<Rightarrow> string) \<Rightarrow> FilesystemBlobStorage \<Rightarrow> BlobMetadata \<times> time \<times> time \<times> time \<times> time \<Rightarrow>
     string \<Rightarrow> string \<Rightarrow> file_system \<Rightarrow> file_system \<times> bool" where
  "fs_put md5hex rfc3339 fbs x key data fs =
     (case Fs_Store md5hex rfc3339 (snd x) fbs key data (fst x) fs of (fs1, r) \<Rightarrow> (fs1, r = None))"

definition fs_del :: "FilesystemBlobStorage \<Rightarrow> string \<Rightarrow> file_system \<Rightarrow> file_system \<times> bool" where
  "fs_del fbs key fs = (case Fs_Delete fbs key fs of (fs1, r) \<Rightarrow> (fs1, r = None))"

definition fs_get :: "FilesystemBlobStorage \<Rightarrow> string \<Rightarrow> file_system \<Rightarrow> string option" where
  "fs_get fbs key fs = read_data (Join (rootPath fbs) key) fs"

text \<open>Two keys are apart if the second names neither the file nor the metadata of the first.\<close>

definition keys_apart :: "(string \<Rightarrow> path) \<Rightarrow> string \<Rightarrow> string \<Rightarrow> bool" where
  "keys_apart path_of k k' \<longleftrightarrow> path_of k' \<noteq> path_of k \<and> path_of k' \<noteq> meta_path (path_of k)"

lemma Fs_Retrieve_data:
  "fs_get fbs key fs = (case Fs_Retrieve md5hex clk fbs key fs of Inl err \<Rightarrow> None | Inr b \<Rightarrow> Some (bd_Data b))"
  by (simp add: fs_get_def read_data_def Fs_Retrieve_def Let_def split: sum.split)

text \<open>
  Writing a blob and then its metadata, if there is a text for it: all that the two file storages do.
\<close>

definition write_pair :: "time \<Rightarrow> time \<Rightarrow> path \<Rightarrow> string \<Rightarrow> string option \<Rightarrow> file_system \<Rightarrow> file_system \<times> bool" where
  "write_pair t1 t2 p data meta fs =
     (case os_MkdirAll (path_Dir p) fs of
        (fs1, Some err) \<Rightarrow> (fs1, False)
      | (fs1, None) \<Rightarrow>
          (case os_WriteFile t1 p data fs1 of
             (fs2, Some err) \<Rightarrow> (fs2, False)
           | (fs2, None) \<Rightarrow>
               (case meta of
                  None \<Rightarrow> (fs2, False)
                | Some m \<Rightarrow> (case os_WriteFile t2 (meta_path p) m fs2 of (fs3, r) \<Rightarrow> (fs3, r = None)))))"

definition remove_pair :: "path \<Rightarrow> file_system \<Rightarrow> file_system \<times> bool" where
  "remove_pair p fs = (case os_Remove p (fst (os_Remove (meta_path p) fs)) of (fs1, r) \<Rightarrow> (fs1, r = None))"

lemma write_pair_read:
  assumes "write_pair t1 t2 p data meta fs = (fs', True)"
  shows "read_data p fs' = Some data"
proof -
  obtain fs1 where 1: "os_MkdirAll (path_Dir p) fs = (fs1, None)"
    using assms by (auto simp: write_pair_def split: prod.splits option.splits)
  obtain fs2 where 2: "os_WriteFile t1 p data fs1 = (fs2, None)"
    using assms 1 by (auto simp: write_pair_def split: prod.splits option.splits)
  obtain m where 3: "os_WriteFile t2 (meta_path p) m fs2 = (fs', None)"
    using assms 1 2 by (auto simp: write_pair_def split: prod.splits option.splits)
  have "read_data p fs' = read_data p fs2"
    using read_data_WriteFile_other [of p "meta_path p" t2 m fs2] 3 by simp
  with read_data_WriteFile [OF 2] show ?thesis by simp
qed

lemma write_pair_other:
  assumes "q \<noteq> p" "q \<noteq> meta_path p"
  shows "read_data q (fst (write_pair t1 t2 p data meta fs)) = read_data q fs"
proof -
  obtain fs1 r1 where 1: "os_MkdirAll (path_Dir p) fs = (fs1, r1)" by (metis surj_pair)
  obtain fs2 r2 where 2: "os_WriteFile t1 p data fs1 = (fs2, r2)" by (metis surj_pair)
  obtain fs3 r3 where 3: "os_WriteFile t2 (meta_path p) (the meta) fs2 = (fs3, r3)" by (metis surj_pair)
  have "read_data q fs1 = read_data q fs" "read_data q fs2 = read_data q fs1" "read_data q fs3 = read_data q fs2"
    using read_data_MkdirAll [of q "path_Dir p" fs] read_data_WriteFile_other [OF assms(1), of t1 data fs1]
      read_data_WriteFile_other [OF assms(2), of t2 "the meta" fs2] 1 2 3 by simp_all
  with 1 2 3 show ?thesis by (auto simp: write_pair_def split: option.split)
qed

lemma remove_pair_read: "remove_pair p fs = (fs', True) \<Longrightarrow> read_data p fs' = None"
  by (auto simp: remove_pair_def dest: read_data_Remove split: prod.splits)

lemma remove_pair_other:
  assumes "q \<noteq> p" "q \<noteq> meta_path p"
  shows "read_data q (fst (remove_pair p fs)) = read_data q fs"
proof -
  obtain fs1 r where 1: "os_Remove p (fst (os_Remove (meta_path p) fs)) = (fs1, r)" by (metis surj_pair)
  have "read_data q fs1 = read_data q (fst (os_Remove (meta_path p) fs))"
    using read_data_Remove_other [OF assms(1), of "fst (os_Remove (meta_path p) fs)"] 1 by simp
  with 1 read_data_Remove_other [OF assms(2), of fs] show ?thesis by (simp add: remove_pair_def)
qed

lemma fs_put_pair:
  "\<exists>meta t1 t2. fs_put md5hex rfc3339 fbs x key data fs =
     (if int (length data) > maxSize_fs fbs then (fs, False) else write_pair t1 t2 (Join (rootPath fbs) key) data (Some meta) fs)"
proof -
  obtain metadata t1 t2 t3 t4 where clk: "x = (metadata, t1, t2, t3, t4)" by (metis prod_cases5)
  show ?thesis
    by (intro exI [of _ "metadata_text (bm_ContentType metadata) (bm_Filename metadata) (show_int (int (length data)))
                            (md5hex data) (rfc3339 t3) (rfc3339 t4)"] exI [of _ t1] exI [of _ t2])
      (simp add: fs_put_def Fs_Store_def write_pair_def clk Let_def split: prod.split option.split)
qed

lemma fs_del_pair: "fs_del fbs key fs = remove_pair (Join (rootPath fbs) key) fs"
  by (simp add: fs_del_def Fs_Delete_def remove_pair_def Let_def)

interpretation file_store: blob_store "fs_put md5hex rfc3339 fbs" "fs_get fbs" "fs_del fbs"
  "keys_apart (Join (rootPath fbs))" for md5hex rfc3339 fbs
proof (unfold_locales, goal_cases)
  case (1 x k d s s')
  obtain meta t1 t2 where "fs_put md5hex rfc3339 fbs x k d s =
      (if int (length d) > maxSize_fs fbs then (s, False) else write_pair t1 t2 (Join (rootPath fbs) k) d (Some meta) s)"
    using fs_put_pair by blast
  with 1 have "write_pair t1 t2 (Join (rootPath fbs) k) d (Some meta) s = (s', True)" by (simp split: if_splits)
  from write_pair_read [OF this] show ?case by (simp add: fs_get_def)
next
  case (2 k k' x d s)
  obtain meta t1 t2 where "fs_put md5hex rfc3339 fbs x k d s =
      (if int (length d) > maxSize_fs fbs then (s, False) else write_pair t1 t2 (Join (rootPath fbs) k) d (Some meta) s)"
    using fs_put_pair by blast
  with 2 show ?case by (simp add: fs_get_def keys_apart_def write_pair_other)
next
  case (3 k s s')
  then show ?case by (auto simp: fs_del_pair fs_get_def dest: remove_pair_read)
next
  case (4 k k' s)
  then show ?case by (simp add: fs_del_pair fs_get_def keys_apart_def remove_pair_other)
qed

section \<open>Confinement\<close>

definition proper_key :: "string \<Rightarrow> bool" where
  "proper_key key \<longleftrightarrow> safe_key key \<and> clean_elems False (split_on (CHR ''/'') key) \<noteq> []"

text \<open>The file of a proper key is strictly below the root, and so is its metadata.\<close>

definition strictly_inside :: "path \<Rightarrow> path \<Rightarrow> bool" where
  "strictly_inside root p \<longleftrightarrow> inside root p \<and> snd p \<noteq> snd root"

lemma meta_inside:
  assumes "strictly_inside root p"
  shows "inside root (meta_path p)"
proof -
  obtain r es where p: "p = (r, es)" by (metis surj_pair)
  then have pre: "prefix (snd root) es" "fst root = r" "''..'' \<notin> set (drop (length (snd root)) es)" "es \<noteq> snd root"
    using assms by (simp_all add: strictly_inside_def inside_def)
  from pre(1) obtain ds where "es = snd root @ ds" by (auto simp: prefix_def)
  with pre have ds: "es = snd root @ ds" "fst root = r" "''..'' \<notin> set ds" "ds \<noteq> []" by simp_all
  have "meta_path p = (r, snd root @ butlast ds @ [last ds @ ''.meta''])"
    using p ds by (simp add: add_suffix_def butlast_append)
  moreover have "last ds @ ''.meta'' \<noteq> ''..''" by (cases "last ds"; cases "tl (last ds)") auto
  moreover have "''..'' \<notin> set (butlast ds)" using ds(3) in_set_butlastD by metis
  ultimately show ?thesis using ds(2) by (auto simp: inside_def)
qed

lemma proper_key_inside:
  assumes "root \<noteq> []" "proper_key key"
  shows "strictly_inside (parse_path root) (Join root key)"
  using assms Join_safe_inside [of root key] Join_safe [of root key]
  by (simp add: strictly_inside_def proper_key_def)

lemma write_pair_confined:
  assumes "strictly_inside root p" "\<not> inside root q" "fs_lookup fs q \<noteq> None"
  shows "fs_lookup (fst (write_pair t1 t2 p data meta fs)) q = fs_lookup fs q"
proof -
  have q: "q \<noteq> p" "q \<noteq> meta_path p" using assms(1,2) meta_inside [OF assms(1)] by (auto simp: strictly_inside_def)
  obtain fs1 r1 where 1: "os_MkdirAll (path_Dir p) fs = (fs1, r1)" by (metis surj_pair)
  obtain fs2 r2 where 2: "os_WriteFile t1 p data fs1 = (fs2, r2)" by (metis surj_pair)
  obtain fs3 r3 where 3: "os_WriteFile t2 (meta_path p) (the meta) fs2 = (fs3, r3)" by (metis surj_pair)
  have "fs_lookup fs1 q = fs_lookup fs q" "fs_lookup fs2 q = fs_lookup fs1 q" "fs_lookup fs3 q = fs_lookup fs2 q"
    using MkdirAll_lookup [of "path_Dir p" fs q] assms(3) WriteFile_other [OF q(1), of t1 data fs1]
      WriteFile_other [OF q(2), of t2 "the meta" fs2] 1 2 3 by auto
  with 1 2 3 show ?thesis by (auto simp: write_pair_def split: option.split)
qed

lemma remove_pair_confined:
  assumes "strictly_inside root p" "\<not> inside root q"
  shows "fs_lookup (fst (remove_pair p fs)) q = fs_lookup fs q"
proof -
  have q: "q \<noteq> p" "q \<noteq> meta_path p" using assms meta_inside [OF assms(1)] by (auto simp: strictly_inside_def)
  obtain fs1 r where 1: "os_Remove p (fst (os_Remove (meta_path p) fs)) = (fs1, r)" by (metis surj_pair)
  with Remove_other [OF q(1), of "fst (os_Remove (meta_path p) fs)"] Remove_other [OF q(2), of fs] show ?thesis
    by (simp add: remove_pair_def)
qed

section \<open>Properties\<close>

text \<open>
  C28. The file storage is a map: after any sequence of stores, each with its own metadata and at its own times, and deletes that
  all succeeded, \<open>Retrieve\<close> gives for a key what a map would hold, provided every other key in use is apart from it: their
  paths, joined to the root and cleaned, are different (\<open>a\<close> and \<open>./a\<close> are not), and the path of the key is not that of
  the other with \<open>.meta\<close> added, where the metadata of the other would overwrite it.
\<close>

theorem file_storage_is_a_map:
  assumes "False \<notin> set (snd (run (file_store.store_step md5hex rfc3339 fbs) fs ops))"
    and "\<forall>op \<in> set ops. op_key op \<noteq> k \<longrightarrow> keys_apart (Join (rootPath fbs)) (op_key op) k"
  shows "(case Fs_Retrieve md5hex clk' fbs k (fst (run (file_store.store_step md5hex rfc3339 fbs) fs ops)) of
      Inl err \<Rightarrow> None | Inr b \<Rightarrow> Some (bd_Data b)) = fold map_step ops (\<lambda>k. fs_get fbs k fs) k"
  using file_store.run_get [OF assms] by (simp add: Fs_Retrieve_data [symmetric])

text \<open>
  C29. With a key that names something below where it starts, \<open>Store\<close> and \<open>Delete\<close> leave every node outside the root
  as it was. The storage does not check keys: one that leads up leaves the root.
\<close>

theorem proper_keys_stay_inside:
  assumes "rootPath fbs \<noteq> []" and "proper_key key" and "\<not> inside (parse_path (rootPath fbs)) q"
    and "fs_lookup fs q \<noteq> None"
  shows "fs_lookup (fst (Fs_Store md5hex rfc3339 clk fbs key data metadata fs)) q = fs_lookup fs q \<and>
    fs_lookup (fst (Fs_Delete fbs key fs)) q = fs_lookup fs q \<and>
    Join ''/data'' ''../etc/x'' = parse_path ''/etc/x'' \<and> \<not> inside (parse_path ''/data'') (parse_path ''/etc/x'')"
proof (intro conjI)
  note inside = proper_key_inside [OF assms(1,2)]
  obtain meta t1 t2 where "fs_put md5hex rfc3339 fbs (metadata, clk) key data fs =
      (if int (length data) > maxSize_fs fbs then (fs, False) else write_pair t1 t2 (Join (rootPath fbs) key) data (Some meta) fs)"
    using fs_put_pair by blast
  then have "fs_lookup (fst (fs_put md5hex rfc3339 fbs (metadata, clk) key data fs)) q = fs_lookup fs q"
    using write_pair_confined [OF inside assms(3,4)] by simp
  then show "fs_lookup (fst (Fs_Store md5hex rfc3339 clk fbs key data metadata fs)) q = fs_lookup fs q"
    by (simp add: fs_put_def split_beta)
  show "fs_lookup (fst (Fs_Delete fbs key fs)) q = fs_lookup fs q"
    using remove_pair_confined [OF inside assms(3), of fs] fs_del_pair [of fbs key fs]
    by (metis (no_types, lifting) fs_del_def fst_conv split_beta)
  show "Join ''/data'' ''../etc/x'' = parse_path ''/etc/x''" "\<not> inside (parse_path ''/data'') (parse_path ''/etc/x'')"
    by code_simp+
qed

text \<open>
  What \<open>Store\<close> reports as done is what \<open>Retrieve\<close> returns, except for the content type, the file name and the tags: the
  content type is one of four guesses, the rest is lost.
\<close>

lemma retrieved_metadata:
  assumes "Fs_Retrieve md5hex clk fbs key fs = Inr b"
  shows "bm_Size (bd_Metadata b) = int (length (bd_Data b)) \<and> bm_Checksum (bd_Metadata b) = md5hex (bd_Data b) \<and>
    bm_ContentType (bd_Metadata b) \<in> {[], ''image/jpeg'', ''image/png'', ''image/gif''} \<and>
    bm_Filename (bd_Metadata b) = [] \<and> bm_Tags (bd_Metadata b) = []"
  using assms by (auto simp: Fs_Retrieve_def guess_type_def zero_BlobMetadata_def Let_def split: sum.splits if_splits)

section \<open>Listing\<close>

lemma Stats_fold:
  "fold (\<lambda>(p, d, t) (n, sz). (wrap64 (n + 1), wrap64 (sz + int (length d)))) xs (wrap64 n, wrap64 sz) =
     (wrap64 (n + int (length xs)), wrap64 (sz + sum_list (map (\<lambda>(p, d, t). int (length d)) xs)))"
proof (induction xs arbitrary: n sz)
  case (Cons x xs)
  obtain p d t where x: "x = (p, d, t)" by (metis prod_cases3)
  from Cons.IH [of "n + 1" "sz + int (length d)"] show ?case by (simp add: x wrap64_add add.assoc)
qed simp

lemma concat_singletons: "concat (map (\<lambda>(p, d, t). [f p d t]) xs) = map (\<lambda>(p, d, t). f p d t) xs"
  by (induction xs) auto

lemma in_map_triples: "i \<in> set (map (\<lambda>(p, d, t). f p d t) xs) \<longleftrightarrow> (\<exists>p d t. (p, d, t) \<in> set xs \<and> i = f p d t)"
  by (induction xs) auto

lemma Fs_List_all:
  "Fs_List fbs [] fs =
     map (\<lambda>(p, d, t). \<lparr>bi_Key = Rel (parse_path (rootPath fbs)) p,
        bi_Metadata = zero_BlobMetadata\<lparr>bm_Size := int (length d), bm_CreatedAt := t, bm_UpdatedAt := t\<rparr>\<rparr>)
       (blob_files (rootPath fbs) fs)"
  by (simp add: Fs_List_def Let_def concat_singletons)

lemma file_entries:
  "(p, d, t) \<in> set (concat (map (\<lambda>(p, n). case n of Directory \<Rightarrow> [] | File d t \<Rightarrow> if Q p then [] else [(p, d, t)]) w)) \<longleftrightarrow>
     (p, File d t) \<in> set w \<and> \<not> Q p"
  by (induction w) (auto split: fs_node.splits if_splits)

lemma blob_files_iff:
  "(p, d, t) \<in> set (blob_files root fs) \<longleftrightarrow>
     (p, File d t) \<in> set (nodes fs) \<and> inside (parse_path root) p \<and> readable_below fs (parse_path root) p \<and>
     examined_below fs (parse_path root) p \<and> \<not> HasSuffix (path_text p) ''.meta''"
  unfolding blob_files_def file_entries by (auto simp: walk_def)

text \<open>
  \<open>Stats\<close> counts what \<open>List\<close> shows: the number of blobs and the sum of their sizes, each modulo \<open>2^64\<close>. A blob is
  listed exactly if it is a file below the root that can be examined, with readable directories above it and a name that does not
  end in \<open>.meta\<close>.
\<close>

theorem stats_count_the_list:
  "TotalBlobs (Fs_Stats fbs fs) = wrap64 (int (length (Fs_List fbs [] fs))) \<and>
   TotalSize (Fs_Stats fbs fs) = wrap64 (sum_list (map (\<lambda>i. bm_Size (bi_Metadata i)) (Fs_List fbs [] fs))) \<and>
   (i \<in> set (Fs_List fbs [] fs) \<longleftrightarrow>
     (\<exists>p d t. (p, File d t) \<in> set (nodes fs) \<and> inside (parse_path (rootPath fbs)) p \<and>
        readable_below fs (parse_path (rootPath fbs)) p \<and> examined_below fs (parse_path (rootPath fbs)) p \<and>
        \<not> HasSuffix (path_text p) ''.meta'' \<and>
        i = \<lparr>bi_Key = Rel (parse_path (rootPath fbs)) p,
             bi_Metadata = zero_BlobMetadata\<lparr>bm_Size := int (length d), bm_CreatedAt := t, bm_UpdatedAt := t\<rparr>\<rparr>))"
proof -
  let ?xs = "blob_files (rootPath fbs) fs"
  have z: "wrap64 0 = 0" by (simp add: wrap64_def)
  have "fold (\<lambda>(p, d, t) (n, sz). (wrap64 (n + 1), wrap64 (sz + int (length d)))) ?xs (0, 0) =
      (wrap64 (int (length ?xs)), wrap64 (sum_list (map (\<lambda>(p, d, t). int (length d)) ?xs)))"
    using Stats_fold [of ?xs 0 0] z by simp
  then have stats: "Fs_Stats fbs fs = \<lparr>TotalBlobs = wrap64 (int (length ?xs)),
      TotalSize = wrap64 (sum_list (map (\<lambda>(p, d, t). int (length d)) ?xs)),
      UsedSpace = wrap64 (sum_list (map (\<lambda>(p, d, t). int (length d)) ?xs))\<rparr>" by (simp add: Fs_Stats_def)
  have sizes: "map (\<lambda>i. bm_Size (bi_Metadata i)) (Fs_List fbs [] fs) = map (\<lambda>(p, d, t). int (length d)) ?xs"
    by (simp add: Fs_List_all split_beta)
  have len: "length (Fs_List fbs [] fs) = length ?xs" by (simp add: Fs_List_all)
  have "TotalBlobs (Fs_Stats fbs fs) = wrap64 (int (length (Fs_List fbs [] fs)))"
    "TotalSize (Fs_Stats fbs fs) = wrap64 (sum_list (map (\<lambda>i. bm_Size (bi_Metadata i)) (Fs_List fbs [] fs)))"
    unfolding stats sizes len by simp_all
  moreover have "i \<in> set (Fs_List fbs [] fs) \<longleftrightarrow> (\<exists>p d t. (p, d, t) \<in> set ?xs \<and>
      i = \<lparr>bi_Key = Rel (parse_path (rootPath fbs)) p,
           bi_Metadata = zero_BlobMetadata\<lparr>bm_Size := int (length d), bm_CreatedAt := t, bm_UpdatedAt := t\<rparr>\<rparr>)"
    unfolding Fs_List_all by (rule in_map_triples)
  ultimately show ?thesis unfolding blob_files_iff by blast
qed

section \<open>Witnesses\<close>

definition empty_fs :: file_system where
  "empty_fs = \<lparr>nodes = [((True, [''data'']), Directory), ((True, [''etc'']), Directory)], fault = (\<lambda>_. None), write_fault = (\<lambda>_. None),
     stat_fault = (\<lambda>_. None)\<rparr>"

definition sample_storage :: FilesystemBlobStorage where
  "sample_storage = \<lparr>rootPath = ''/data'', maxSize_fs = default_max_size\<rparr>"

definition sample_times :: "time \<times> time \<times> time \<times> time" where
  "sample_times = (Time 1, Time 2, Time 3, Time 4)"

lemma sample_paths:
  "Join ''/data'' ''a/b'' = (True, [''data'', ''a'', ''b''])" "Join ''/data'' ''c'' = (True, [''data'', ''c''])"
  by code_simp+

definition sample_ops :: "(BlobMetadata \<times> time \<times> time \<times> time \<times> time) blob_op list" where
  "sample_ops =
     [Put (zero_BlobMetadata, sample_times) ''c'' ''xyz'',
      Put (zero_BlobMetadata\<lparr>bm_Filename := ''f''\<rparr>, Time 7, Time 8, Time 9, Time 10) ''a/b'' ''q'', Del ''a/b'']"

theorem file_storage_is_a_map_witness:
  "(case Fs_Retrieve (\<lambda>d. ''0'') (Time 5, Time 6) sample_storage ''c''
      (fst (run (file_store.store_step (\<lambda>d. ''0'') (\<lambda>t. ''now'') sample_storage) empty_fs sample_ops)) of
     Inl err \<Rightarrow> None | Inr b \<Rightarrow> Some (bd_Data b)) = Some ''xyz''"
proof -
  have ok: "False \<notin> set (snd (run (file_store.store_step (\<lambda>d. ''0'') (\<lambda>t. ''now'') sample_storage) empty_fs sample_ops))"
    by (simp add: sample_ops_def fs_put_def fs_del_def Fs_Store_def Fs_Delete_def sample_times_def sample_storage_def sample_paths
        empty_fs_def default_max_size_def os_MkdirAll_def os_WriteFile_def os_Remove_def fs_lookup_def path_Dir_def add_suffix_def)
  have apart: "\<forall>op \<in> set sample_ops. op_key op \<noteq> ''c'' \<longrightarrow> keys_apart (Join (rootPath sample_storage)) (op_key op) ''c''"
    by (simp add: sample_ops_def keys_apart_def sample_storage_def sample_paths add_suffix_def)
  from file_storage_is_a_map [OF ok apart, of "(Time 5, Time 6)"] show ?thesis by (simp add: sample_ops_def)
qed

theorem proper_keys_stay_inside_witness:
  "fs_lookup (fst (Fs_Store (\<lambda>d. ''0'') (\<lambda>t. ''now'') sample_times sample_storage ''a/b'' ''q'' zero_BlobMetadata empty_fs))
     (True, [''etc'']) = Some Directory"
proof -
  have "proper_key ''a/b''" "\<not> inside (parse_path ''/data'') (True, [''etc''])" unfolding proper_key_def safe_key_def by code_simp+
  with proper_keys_stay_inside [of sample_storage "''a/b''" "(True, [''etc''])" empty_fs] show ?thesis
    by (simp add: sample_storage_def empty_fs_def fs_lookup_def)
qed

end
