(* ===== verification/Blob_Cli.thy ===== *)
theory Blob_Cli
  imports Blob_Files
begin

text \<open>
  The command \<open>blobonly\<close> (\<open>cmd/blobonly/main.go\<close>): its own storage in files, which keeps the metadata as
  JSON and cleans keys, and the commands \<open>put\<close>, \<open>get\<close>, \<open>del\<close>, \<open>list\<close> and \<open>stat\<close>. The structures are
  those of \<open>blob.go\<close>. JSON is a parameter as in \<open>Protocol\<close>.
\<close>

section \<open>Metadata as JSON\<close>

text \<open>
  \<open>json.MarshalIndent\<close> and \<open>json.Unmarshal\<close> into a value that is already there: fields the text does not have keep
  their values, and so does all that follows an error.
\<close>

record meta_codec =
  marshal_meta :: "BlobMetadata \<Rightarrow> go_error + string"
  unmarshal_meta :: "string \<Rightarrow> BlobMetadata \<Rightarrow> BlobMetadata"

definition plain_text :: "string \<Rightarrow> bool" where
  "plain_text s \<longleftrightarrow> (\<forall>c \<in> set s. of_char c < (128 :: int))"

definition meta_native :: "BlobMetadata \<Rightarrow> bool" where
  "meta_native m \<longleftrightarrow> plain_text (bm_ContentType m) \<and> plain_text (bm_Filename m) \<and> plain_text (bm_Checksum m) \<and> bm_Tags m = []"

definition meta_codec_ok :: "meta_codec \<Rightarrow> bool" where
  "meta_codec_ok mc \<longleftrightarrow>
     (\<forall>m s m0. marshal_meta mc m = Inr s \<and> meta_native m \<and> bm_Filename m0 = [] \<and> bm_Tags m0 = [] \<longrightarrow>
        unmarshal_meta mc s m0 = m)"

section \<open>The storage\<close>

definition Cli_NewFilesystemBlobStorage ::
    "string \<Rightarrow> int64 \<Rightarrow> file_system \<Rightarrow> file_system \<times> (go_error + FilesystemBlobStorage)" where
  "Cli_NewFilesystemBlobStorage root maxSize0 fs =
     (if root = [] then (fs, Inl (Errorf ''-root is required''))
      else
        (case os_MkdirAll (parse_path root) fs of
           (fs1, Some err) \<Rightarrow> (fs1, Inl (ErrorfW ''create root: '' err []))
         | (fs1, None) \<Rightarrow>
             (fs1, Inr \<lparr>rootPath = root, maxSize_fs = (if maxSize0 \<le> 0 then default_max_size else maxSize0)\<rparr>)))"

definition cli_path :: "FilesystemBlobStorage \<Rightarrow> string \<Rightarrow> path" where
  "cli_path fbs key = Join (rootPath fbs) (Clean key)"

text \<open>The metadata that \<open>Store\<close> writes.\<close>

definition stored_meta :: "(string \<Rightarrow> string) \<Rightarrow> time \<Rightarrow> time \<Rightarrow> string \<Rightarrow> BlobMetadata \<Rightarrow> BlobMetadata" where
  "stored_meta md5hex created updated data meta =
     meta\<lparr>bm_Size := int (length data), bm_Checksum := md5hex data,
          bm_CreatedAt := (if IsZero (bm_CreatedAt meta) then created else bm_CreatedAt meta), bm_UpdatedAt := updated\<rparr>"

definition Cli_Store ::
    "meta_codec \<Rightarrow> (string \<Rightarrow> string) \<Rightarrow> time \<times> time \<times> time \<times> time \<Rightarrow> FilesystemBlobStorage \<Rightarrow> string \<Rightarrow> string \<Rightarrow> BlobMetadata \<Rightarrow>
     file_system \<Rightarrow> file_system \<times> go_error option" where
  "Cli_Store mc md5hex clk fbs key data meta fs =
     (case clk of (t1, t2, created, updated) \<Rightarrow>
        if int (length data) > maxSize_fs fbs then (fs, Some (too_large data (maxSize_fs fbs)))
        else
          (let filePath = cli_path fbs key
           in case os_MkdirAll (path_Dir filePath) fs of
                (fs1, Some err) \<Rightarrow> (fs1, Some (ErrorfW ''mkdir: '' err []))
              | (fs1, None) \<Rightarrow>
                  (case os_WriteFile t1 filePath data fs1 of
                     (fs2, Some err) \<Rightarrow> (fs2, Some (ErrorfW ''write blob: '' err []))
                   | (fs2, None) \<Rightarrow>
                       (case marshal_meta mc (stored_meta md5hex created updated data meta) of
                          Inl err \<Rightarrow> (fs2, Some (ErrorfW ''marshal metadata: '' err []))
                        | Inr buf \<Rightarrow> os_WriteFile t2 (add_suffix ''.meta'' filePath) buf fs2))))"

definition Cli_Retrieve ::
    "meta_codec \<Rightarrow> (string \<Rightarrow> string) \<Rightarrow> time \<times> time \<Rightarrow> FilesystemBlobStorage \<Rightarrow> string \<Rightarrow> file_system \<Rightarrow> go_error + BlobData" where
  "Cli_Retrieve mc md5hex clk fbs key fs =
     (let filePath = cli_path fbs key
      in case os_ReadFile filePath fs of
           Inl err \<Rightarrow> Inl (ErrorfW ''blob not found: '' err [])
         | Inr data \<Rightarrow>
             (let meta = zero_BlobMetadata\<lparr>bm_Size := int (length data), bm_Checksum := md5hex data,
                           bm_UpdatedAt := fst clk, bm_CreatedAt := snd clk\<rparr>
              in Inr \<lparr>bd_Key = key, bd_Data = data,
                      bd_Metadata =
                        (case os_ReadFile (add_suffix ''.meta'' filePath) fs of
                           Inl err \<Rightarrow> meta
                         | Inr b \<Rightarrow> unmarshal_meta mc b meta)\<rparr>))"

definition Cli_Delete :: "FilesystemBlobStorage \<Rightarrow> string \<Rightarrow> file_system \<Rightarrow> file_system \<times> go_error option" where
  "Cli_Delete fbs key fs =
     (let filePath = cli_path fbs key
      in os_Remove filePath (fst (os_Remove (add_suffix ''.meta'' filePath) fs)))"

definition Cli_Exists :: "FilesystemBlobStorage \<Rightarrow> string \<Rightarrow> file_system \<Rightarrow> bool" where
  "Cli_Exists fbs key fs = (case os_Stat (cli_path fbs key) fs of Inl err \<Rightarrow> False | Inr n \<Rightarrow> True)"

text \<open>
  \<open>List\<close> and \<open>Stats\<close> walk with \<open>filepath.WalkDir\<close> and examine each file themselves; they ignore the error of \<open>os.Stat\<close> and call
  methods of the nil information it comes with.
\<close>

definition dir_files :: "string \<Rightarrow> file_system \<Rightarrow> path list" where
  "dir_files root fs =
     map fst (filter (\<lambda>(p, n). n \<noteq> Directory \<and> \<not> HasSuffix (path_text p) ''.meta'') (walk_dir (parse_path root) fs))"

fun node_size :: "fs_node \<Rightarrow> int64" where
  "node_size (File d t) = int (length d)"
| "node_size Directory = 0"

fun node_time :: "fs_node \<Rightarrow> time" where
  "node_time (File d t) = t"
| "node_time Directory = zero_time"

fun list_walk :: "FilesystemBlobStorage \<Rightarrow> string \<Rightarrow> file_system \<Rightarrow> BlobInfo list \<Rightarrow> path list \<Rightarrow> BlobInfo list outcome" where
  "list_walk fbs pre fs infos [] = Ret infos"
| "list_walk fbs pre fs infos (p # ps) =
     (let rel = Rel (parse_path (rootPath fbs)) p
      in if pre = [] \<or> HasPrefix rel pre
         then (case os_Stat p fs of
                 Inl err \<Rightarrow> Panic nil_dereference
               | Inr fi \<Rightarrow>
                   list_walk fbs pre fs
                     (infos @ [\<lparr>bi_Key = rel,
                        bi_Metadata = zero_BlobMetadata\<lparr>bm_Size := node_size fi, bm_CreatedAt := node_time fi,
                          bm_UpdatedAt := node_time fi\<rparr>\<rparr>]) ps)
         else list_walk fbs pre fs infos ps)"

definition Cli_List :: "FilesystemBlobStorage \<Rightarrow> string \<Rightarrow> file_system \<Rightarrow> BlobInfo list outcome" where
  "Cli_List fbs pre fs = list_walk fbs pre fs [] (dir_files (rootPath fbs) fs)"

fun stats_walk :: "file_system \<Rightarrow> int64 \<times> int64 \<Rightarrow> path list \<Rightarrow> (int64 \<times> int64) outcome" where
  "stats_walk fs acc [] = Ret acc"
| "stats_walk fs (totalBlobs, totalSize) (p # ps) =
     (case os_Stat p fs of
        Inl err \<Rightarrow> Panic nil_dereference
      | Inr fi \<Rightarrow> stats_walk fs (wrap64 (totalBlobs + 1), wrap64 (totalSize + node_size fi)) ps)"

definition Cli_Stats :: "FilesystemBlobStorage \<Rightarrow> file_system \<Rightarrow> BlobStats outcome" where
  "Cli_Stats fbs fs =
     bind_outcome (stats_walk fs (0, 0) (dir_files (rootPath fbs) fs)) (\<lambda>(n, sz).
       Ret \<lparr>TotalBlobs = n, TotalSize = sz, UsedSpace = sz\<rparr>)"

section \<open>The commands\<close>

text \<open>The options of \<open>put\<close>: file, content type and file name. An option without its value is ignored.\<close>

fun put_options :: "string list \<Rightarrow> string \<times> string \<times> string \<Rightarrow> string \<times> string \<times> string" where
  "put_options [] opts = opts"
| "put_options (a # args) (file, ct, fn) =
     (if a = ''-f'' then (case args of [] \<Rightarrow> (file, ct, fn) | v # rest \<Rightarrow> put_options rest (v, ct, fn))
      else if a = ''-ct'' then (case args of [] \<Rightarrow> (file, ct, fn) | v # rest \<Rightarrow> put_options rest (file, v, fn))
      else if a = ''-fn'' then (case args of [] \<Rightarrow> (file, ct, fn) | v # rest \<Rightarrow> put_options rest (file, ct, v))
      else put_options args (file, ct, fn))"

fun get_output :: "string list \<Rightarrow> string \<Rightarrow> string" where
  "get_output [] out = out"
| "get_output (a # args) out =
     (if a = ''-o'' then (case args of [] \<Rightarrow> out | v # rest \<Rightarrow> get_output rest v) else get_output args out)"

definition list_line :: "BlobInfo \<Rightarrow> string" where
  "list_line i = bi_Key i @ tab # show_int (bm_Size (bi_Metadata i)) @ '' bytes'' @ [nl]"

text \<open>
  The outcome of a command: the file system, the exit code and what is written to standard output. Messages on standard
  error are left out; a panic exits with code 2. \<open>stdin\<close> is what reading it gives.
\<close>

type_synonym cli_outcome = "file_system \<times> nat \<times> string"

definition cmd_put ::
    "meta_codec \<Rightarrow> (string \<Rightarrow> string) \<Rightarrow> time \<times> time \<times> time \<times> time \<Rightarrow> go_error + string \<Rightarrow> FilesystemBlobStorage \<Rightarrow> string list \<Rightarrow>
     file_system \<Rightarrow> cli_outcome" where
  "cmd_put mc md5hex clk stdin fbs args fs =
     (case args of
        [] \<Rightarrow> (fs, 2, [])
      | key # rest \<Rightarrow>
          (case put_options rest ([], ''application/octet-stream'', []) of (file, ct, fn) \<Rightarrow>
             (case (if file \<noteq> [] then os_ReadFile (parse_path file) fs else stdin) of
                Inl err \<Rightarrow> (fs, 1, [])
              | Inr data \<Rightarrow>
                  (case Cli_Store mc md5hex clk fbs key data (zero_BlobMetadata\<lparr>bm_ContentType := ct, bm_Filename := fn\<rparr>) fs of
                     (fs1, Some err) \<Rightarrow> (fs1, 1, [])
                   | (fs1, None) \<Rightarrow> (fs1, 0, ''OK'' @ [nl])))))"

definition cmd_get ::
    "meta_codec \<Rightarrow> (string \<Rightarrow> string) \<Rightarrow> time \<times> time \<times> time \<times> time \<Rightarrow> FilesystemBlobStorage \<Rightarrow> string list \<Rightarrow> file_system \<Rightarrow> cli_outcome" where
  "cmd_get mc md5hex clk fbs args fs =
     (case args of
        [] \<Rightarrow> (fs, 2, [])
      | key # rest \<Rightarrow>
          (case clk of (t1, t2, t3, t4) \<Rightarrow>
             (case Cli_Retrieve mc md5hex (t1, t2) fbs key fs of
                Inl err \<Rightarrow> (fs, 1, [])
              | Inr blob \<Rightarrow>
                  (let out = get_output rest []
                   in if out = [] then (fs, 0, bd_Data blob)
                      else (case os_WriteFile t3 (parse_path out) (bd_Data blob) fs of
                              (fs1, Some err) \<Rightarrow> (fs1, 1, [])
                            | (fs1, None) \<Rightarrow> (fs1, 0, []))))))"

definition cmd_del :: "FilesystemBlobStorage \<Rightarrow> string list \<Rightarrow> file_system \<Rightarrow> cli_outcome" where
  "cmd_del fbs args fs =
     (case args of
        [] \<Rightarrow> (fs, 2, [])
      | key # rest \<Rightarrow>
          (case Cli_Delete fbs key fs of
             (fs1, Some err) \<Rightarrow> (fs1, 1, [])
           | (fs1, None) \<Rightarrow> (fs1, 0, ''OK'' @ [nl])))"

definition cmd_list :: "FilesystemBlobStorage \<Rightarrow> string list \<Rightarrow> file_system \<Rightarrow> cli_outcome" where
  "cmd_list fbs args fs =
     (case Cli_List fbs (case args of [] \<Rightarrow> [] | pre # rest \<Rightarrow> pre) fs of
        Ret infos \<Rightarrow> (fs, 0, concat (map list_line infos))
      | _ \<Rightarrow> (fs, 2, []))"

definition cmd_stat :: "FilesystemBlobStorage \<Rightarrow> file_system \<Rightarrow> cli_outcome" where
  "cmd_stat fbs fs =
     (case Cli_Stats fbs fs of
        Ret stats \<Rightarrow> (fs, 0, ''blobs='' @ show_int (TotalBlobs stats) @ '' size='' @ show_int (TotalSize stats) @ '' bytes'' @ [nl])
      | _ \<Rightarrow> (fs, 2, []))"

text \<open>The program, given the value of \<open>-root\<close> and the arguments after the flags.\<close>

definition blobonly_main ::
    "meta_codec \<Rightarrow> (string \<Rightarrow> string) \<Rightarrow> time \<times> time \<times> time \<times> time \<Rightarrow> go_error + string \<Rightarrow> string \<Rightarrow> string list \<Rightarrow> file_system \<Rightarrow>
     cli_outcome" where
  "blobonly_main mc md5hex clk stdin root args fs =
     (if root = [] \<or> args = [] then (fs, 2, [])
      else
        (case Cli_NewFilesystemBlobStorage root 0 fs of
           (fs1, Inl err) \<Rightarrow> (fs1, 1, [])
         | (fs1, Inr store) \<Rightarrow>
             (let cmd = hd args; rest = tl args
              in if cmd = ''put'' then cmd_put mc md5hex clk stdin store rest fs1
                 else if cmd = ''get'' then cmd_get mc md5hex clk store rest fs1
                 else if cmd = ''del'' then cmd_del store rest fs1
                 else if cmd = ''list'' then cmd_list store rest fs1
                 else if cmd = ''stat'' then cmd_stat store fs1
                 else (fs1, 2, []))))"

section \<open>The storage of the command as a blob storage\<close>

definition cli_put ::
    "meta_codec \<Rightarrow> (string \<Rightarrow> string) \<Rightarrow> FilesystemBlobStorage \<Rightarrow> BlobMetadata \<times> time \<times> time \<times> time \<times> time \<Rightarrow>
     string \<Rightarrow> string \<Rightarrow> file_system \<Rightarrow> file_system \<times> bool" where
  "cli_put mc md5hex fbs x key data fs =
     (case Cli_Store mc md5hex (snd x) fbs key data (fst x) fs of (fs1, r) \<Rightarrow> (fs1, r = None))"

definition cli_get :: "FilesystemBlobStorage \<Rightarrow> string \<Rightarrow> file_system \<Rightarrow> string option" where
  "cli_get fbs key fs = read_data (cli_path fbs key) fs"

definition cli_del :: "FilesystemBlobStorage \<Rightarrow> string \<Rightarrow> file_system \<Rightarrow> file_system \<times> bool" where
  "cli_del fbs key fs = (case Cli_Delete fbs key fs of (fs1, r) \<Rightarrow> (fs1, r = None))"

definition meta_text :: "meta_codec \<Rightarrow> BlobMetadata \<Rightarrow> string option" where
  "meta_text mc m = (case marshal_meta mc m of Inl err \<Rightarrow> None | Inr s \<Rightarrow> Some s)"

lemma cli_put_pair:
  "cli_put mc md5hex fbs (meta, t1, t2, t3, t4) key data fs =
     (if int (length data) > maxSize_fs fbs then (fs, False)
      else write_pair t1 t2 (cli_path fbs key) data (meta_text mc (stored_meta md5hex t3 t4 data meta)) fs)"
  by (simp add: cli_put_def Cli_Store_def write_pair_def meta_text_def Let_def split: prod.split option.split sum.split)

lemma cli_del_pair: "cli_del fbs key fs = remove_pair (cli_path fbs key) fs"
  by (simp add: cli_del_def Cli_Delete_def remove_pair_def Let_def)

interpretation cli_store: blob_store "cli_put mc md5hex fbs" "cli_get fbs" "cli_del fbs" "keys_apart (cli_path fbs)"
  for mc md5hex fbs
proof (unfold_locales, goal_cases)
  case (1 x k d s s')
  obtain meta t1 t2 t3 t4 where "x = (meta, t1, t2, t3, t4)" by (metis prod_cases5)
  with 1 have "write_pair t1 t2 (cli_path fbs k) d (meta_text mc (stored_meta md5hex t3 t4 d meta)) s = (s', True)"
    by (simp add: cli_put_pair split: if_splits)
  from write_pair_read [OF this] show ?case by (simp add: cli_get_def)
next
  case (2 k k' x d s)
  obtain meta t1 t2 t3 t4 where "x = (meta, t1, t2, t3, t4)" by (metis prod_cases5)
  with 2 show ?case by (simp add: cli_put_pair cli_get_def keys_apart_def write_pair_other)
next
  case (3 k s s')
  then show ?case by (auto simp: cli_del_pair cli_get_def dest: remove_pair_read)
next
  case (4 k k' s)
  then show ?case by (simp add: cli_del_pair cli_get_def keys_apart_def remove_pair_other)
qed

section \<open>Directories stay\<close>

lemma mkdirs_ok: "mkdirs ps fs = (fs', None) \<Longrightarrow> p \<in> set ps \<Longrightarrow> fs_lookup fs' p = Some Directory"
proof (induction ps fs rule: mkdirs.induct)
  case (2 q ps fs)
  have keep: "fs_lookup fs' q = Some Directory" if "mkdirs ps fs1 = (fs', None)" "fs_lookup fs1 q = Some Directory" for fs1
    using mkdirs_lookup [of ps fs1 q] that by simp
  show ?case
  proof (cases "fs_lookup fs q")
    case None
    then have new: "fs_lookup (fs\<lparr>nodes := AList.update q Directory (nodes fs)\<rparr>) q = Some Directory"
      by (auto simp: fs_lookup_def update_conv' split: if_splits)
    from 2 None keep [OF _ new] show ?thesis by (auto split: option.splits)
  next
    case (Some n)
    with 2 keep [of fs] show ?thesis by (cases n) auto
  qed
qed simp

lemma mkdirs_idem: "\<forall>p \<in> set ps. fs_lookup fs p = Some Directory \<Longrightarrow> mkdirs ps fs = (fs, None)"
  by (induction ps) auto

lemma directory_stays:
  assumes "fs_lookup fs q = Some Directory"
  shows "fs_lookup (fst (write_pair t1 t2 p data meta fs)) q = Some Directory"
proof -
  have w: "fs_lookup (fst (os_WriteFile t p' d fs1)) q = Some Directory" if "fs_lookup fs1 q = Some Directory" for t p' d fs1
    using that WriteFile_other [of q p' t d fs1] by (cases "q = p'") (auto simp: os_WriteFile_def split: option.splits)
  obtain fs1 r1 where 1: "os_MkdirAll (path_Dir p) fs = (fs1, r1)" by (metis surj_pair)
  then have m: "fs_lookup fs1 q = Some Directory" using MkdirAll_lookup [of "path_Dir p" fs q] assms by simp
  obtain fs2 r2 where 2: "os_WriteFile t1 p data fs1 = (fs2, r2)" by (metis surj_pair)
  obtain fs3 r3 where 3: "os_WriteFile t2 (meta_path p) (the meta) fs2 = (fs3, r3)" by (metis surj_pair)
  have "fs_lookup fs2 q = Some Directory" "fs_lookup fs3 q = Some Directory"
    using w [OF m, of t1 p data] 2 w [of fs2 t2 "meta_path p" "the meta"] 3 by simp_all
  with m 1 2 3 show ?thesis by (auto simp: write_pair_def split: option.split)
qed

section \<open>The two storages\<close>

text \<open>A table with one node for a path and none for the directories that are always there.\<close>

definition fs_wf :: "file_system \<Rightarrow> bool" where
  "fs_wf fs \<longleftrightarrow> distinct (map fst (nodes fs)) \<and> list_all (\<lambda>(p, n). \<not> list_all (\<lambda>e. e = ''..'') (snd p)) (nodes fs)"

definition all_examined :: "file_system \<Rightarrow> path \<Rightarrow> bool" where
  "all_examined fs root \<longleftrightarrow> (\<forall>p. inside root p \<longrightarrow> stat_fault fs p = None)"

lemma fs_wf_lookup: "fs_wf fs \<Longrightarrow> (p, n) \<in> set (nodes fs) \<Longrightarrow> fs_lookup fs p = Some n"
  by (fastforce simp: fs_wf_def fs_lookup_def list_all_iff)

lemma inside_take:
  assumes "inside root p" "length (snd root) \<le> k"
  shows "inside root (fst p, take k (snd p))"
proof -
  obtain r es where p: "p = (r, es)" by (metis surj_pair)
  from assms p obtain ds where es: "es = snd root @ ds" "''..'' \<notin> set ds" "fst root = r" by (auto simp: inside_def prefix_def)
  have "''..'' \<notin> set (take (k - length (snd root)) ds)" using es(2) by (meson in_set_takeD)
  with es assms(2) p show ?thesis by (simp add: inside_def)
qed

lemma walk_walk_dir:
  assumes "all_examined fs root"
  shows "walk root fs = walk_dir root fs"
proof -
  have "examined_below fs root p" "stat_fault fs root = None" if "inside root p" for p
  proof -
    show "examined_below fs root p"
      using assms inside_take [OF that] by (auto simp: examined_below_def all_examined_def list_all_iff)
    show "stat_fault fs root = None" using assms by (auto simp: all_examined_def inside_def)
  qed
  then show ?thesis unfolding walk_def walk_dir_def by (intro arg_cong [of _ _ "sort_key (\<lambda>(p, n). snd p)"] filter_cong) auto
qed

lemma list_walk_files:
  assumes "\<forall>(p, n) \<in> set xs. fs_lookup fs p = Some n \<and> stat_fault fs p = None"
  shows "list_walk fbs pre fs infos (map fst (filter (\<lambda>(p, n). n \<noteq> Directory \<and> \<not> Q p) xs)) =
    Ret (infos @ concat (map (\<lambda>(p, d, t).
         let relPath = Rel (parse_path (rootPath fbs)) p
         in if pre = [] \<or> HasPrefix relPath pre
            then [\<lparr>bi_Key = relPath,
                   bi_Metadata = zero_BlobMetadata\<lparr>bm_Size := int (length d), bm_CreatedAt := t, bm_UpdatedAt := t\<rparr>\<rparr>]
            else []) (concat (map (\<lambda>(p, n). case n of Directory \<Rightarrow> [] | File d t \<Rightarrow> if Q p then [] else [(p, d, t)]) xs))))"
  using assms
proof (induction xs arbitrary: infos)
  case (Cons x xs)
  obtain p n where x: "x = (p, n)" by (cases x)
  with Cons show ?case by (cases n) (auto simp: os_Stat_def Let_def)
qed simp

lemma stats_walk_files:
  assumes "\<forall>(p, n) \<in> set xs. fs_lookup fs p = Some n \<and> stat_fault fs p = None"
  shows "stats_walk fs acc (map fst (filter (\<lambda>(p, n). n \<noteq> Directory \<and> \<not> Q p) xs)) =
    Ret (fold (\<lambda>(p, d, t) (n, sz). (wrap64 (n + 1), wrap64 (sz + int (length d))))
      (concat (map (\<lambda>(p, n). case n of Directory \<Rightarrow> [] | File d t \<Rightarrow> if Q p then [] else [(p, d, t)]) xs)) acc)"
  using assms
proof (induction xs arbitrary: acc)
  case (Cons x xs)
  obtain p n where x: "x = (p, n)" by (cases x)
  with Cons show ?case by (cases n; cases acc) (auto simp: os_Stat_def)
qed simp

lemma walks_agree:
  assumes "fs_wf fs" "all_examined fs (parse_path (rootPath fbs))"
  shows "Cli_List fbs pre fs = Ret (Fs_List fbs pre fs) \<and> Cli_Stats fbs fs = Ret (Fs_Stats fbs fs)"
proof -
  let ?xs = "walk_dir (parse_path (rootPath fbs)) fs"
  have w: "walk (parse_path (rootPath fbs)) fs = ?xs" by (rule walk_walk_dir [OF assms(2)])
  have "\<forall>(p, n) \<in> set ?xs. fs_lookup fs p = Some n \<and> stat_fault fs p = None"
    using fs_wf_lookup [OF assms(1)] assms(2) by (auto simp: walk_dir_def all_examined_def)
  from list_walk_files [OF this, of fbs pre "[]" "\<lambda>p. HasSuffix (path_text p) ''.meta''"]
    stats_walk_files [OF this, of "(0, 0)" "\<lambda>p. HasSuffix (path_text p) ''.meta''"] show ?thesis
    unfolding Cli_List_def Cli_Stats_def Fs_List_def Fs_Stats_def dir_files_def blob_files_def w
    by (simp add: split_beta)
qed

text \<open>Writing a blob does not depend on the text of its metadata, but for the file that holds it.\<close>

lemma WriteFile_snd: "snd (os_WriteFile t p d fs) = snd (os_WriteFile t p d' fs)"
  by (simp add: os_WriteFile_def split: option.split fs_node.split)

lemma write_pair_meta_text:
  "snd (write_pair t1 t2 p data (Some m) fs) = snd (write_pair t1 t2 p data (Some m') fs)"
  "q \<noteq> meta_path p \<Longrightarrow>
    fs_lookup (fst (write_pair t1 t2 p data (Some m) fs)) q = fs_lookup (fst (write_pair t1 t2 p data (Some m') fs)) q"
  using WriteFile_snd [of t2 "meta_path p" m _ m'] WriteFile_other [of q "meta_path p" t2]
  by (auto simp: write_pair_def split_beta split: option.split)

lemma stores_agree:
  assumes "cli_path fbs key = Join (rootPath fbs) key"
    and "marshal_meta mc (stored_meta md5hex (fst (snd (snd clk))) (snd (snd (snd clk))) data meta) = Inr buf"
  shows "(snd (Cli_Store mc md5hex clk fbs key data meta fs) = None) =
        (snd (Fs_Store md5hex rfc3339 clk fbs key data meta fs) = None) \<and>
    (q \<noteq> meta_path (Join (rootPath fbs) key) \<longrightarrow>
      fs_lookup (fst (Cli_Store mc md5hex clk fbs key data meta fs)) q =
      fs_lookup (fst (Fs_Store md5hex rfc3339 clk fbs key data meta fs)) q)"
proof -
  obtain t1 t2 t3 t4 where clk: "clk = (t1, t2, t3, t4)" by (metis prod_cases4)
  let ?p = "Join (rootPath fbs) key"
  let ?m = "metadata_text (bm_ContentType meta) (bm_Filename meta) (show_int (int (length data)))
    (md5hex data) (rfc3339 t3) (rfc3339 t4)"
  have c: "cli_put mc md5hex fbs (meta, clk) key data fs =
      (if int (length data) > maxSize_fs fbs then (fs, False) else write_pair t1 t2 ?p data (Some buf) fs)"
    using assms by (simp add: clk cli_put_pair meta_text_def)
  have f: "fs_put md5hex rfc3339 fbs (meta, clk) key data fs =
      (if int (length data) > maxSize_fs fbs then (fs, False) else write_pair t1 t2 ?p data (Some ?m) fs)"
    by (simp add: clk fs_put_def Fs_Store_def write_pair_def Let_def split: prod.split option.split)
  have "snd (cli_put mc md5hex fbs (meta, clk) key data fs) = snd (fs_put md5hex rfc3339 fbs (meta, clk) key data fs)"
    "q \<noteq> meta_path ?p \<Longrightarrow> fs_lookup (fst (cli_put mc md5hex fbs (meta, clk) key data fs)) q =
      fs_lookup (fst (fs_put md5hex rfc3339 fbs (meta, clk) key data fs)) q"
    unfolding c f using write_pair_meta_text(1) [of t1 t2 ?p data buf fs ?m] write_pair_meta_text(2) [of q ?p t1 t2 data buf fs ?m]
    by simp_all
  then show ?thesis by (auto simp: cli_put_def fs_put_def split_beta)
qed

text \<open>Two file systems that are the same at a path, and below a root.\<close>

definition agree_at :: "path \<Rightarrow> file_system \<Rightarrow> file_system \<Rightarrow> bool" where
  "agree_at p fs fs2 \<longleftrightarrow> fs_lookup fs2 p = fs_lookup fs p \<and> fault fs2 p = fault fs p \<and> stat_fault fs2 p = stat_fault fs p"

lemma agree_at_reads:
  assumes "agree_at p fs fs2"
  shows "os_ReadFile p fs2 = os_ReadFile p fs" "os_Stat p fs2 = os_Stat p fs"
  using assms unfolding agree_at_def os_ReadFile_def os_Stat_def by argo+

definition agree_below :: "path \<Rightarrow> file_system \<Rightarrow> file_system \<Rightarrow> bool" where
  "agree_below root fs fs2 \<longleftrightarrow> (\<forall>p. inside root p \<longrightarrow> agree_at p fs fs2)"

lemma cli_path_inside:
  assumes "rootPath fbs \<noteq> []" "rooted key" "Clean key \<noteq> ''/''"
  shows "strictly_inside (parse_path (rootPath fbs)) (cli_path fbs key)"
proof -
  have "clean_elems True (split_on (CHR ''/'') key) \<noteq> []"
    using assms(2,3) by (auto simp: Clean_def parse_path_alt path_text_def)
  then show ?thesis
    using Join_Clean_rooted_inside [OF assms(1,2)] Join_Clean_rooted [OF assms(1,2)]
    by (simp add: strictly_inside_def cli_path_def)
qed

section \<open>Properties\<close>

text \<open>For a relative key both storages use the same path.\<close>

lemma relative_keys_agree:
  assumes "rootPath fbs \<noteq> []" "\<not> rooted key"
    and "marshal_meta mc (stored_meta md5hex (fst (snd (snd clk))) (snd (snd (snd clk))) data meta) = Inr buf"
  shows "(snd (Cli_Store mc md5hex clk fbs key data meta fs) = None) =
        (snd (Fs_Store md5hex rfc3339 clk fbs key data meta fs) = None) \<and>
    (q \<noteq> add_suffix ''.meta'' (Join (rootPath fbs) key) \<longrightarrow>
      fs_lookup (fst (Cli_Store mc md5hex clk fbs key data meta fs)) q =
      fs_lookup (fst (Fs_Store md5hex rfc3339 clk fbs key data meta fs)) q) \<and>
    Cli_Delete fbs key fs = Fs_Delete fbs key fs \<and> Cli_Exists fbs key fs = Fs_Exists fbs key fs \<and>
    map_sum id bd_Data (Cli_Retrieve mc md5hex clk2 fbs key fs) = map_sum id bd_Data (Fs_Retrieve md5hex clk2 fbs key fs)"
proof -
  have path: "cli_path fbs key = Join (rootPath fbs) key"
    using Join_Clean_relative [OF assms(1,2)] by (simp add: cli_path_def)
  have "Cli_Delete fbs key fs = Fs_Delete fbs key fs" "Cli_Exists fbs key fs = Fs_Exists fbs key fs"
    by (simp_all add: Cli_Delete_def Fs_Delete_def Cli_Exists_def Fs_Exists_def path)
  moreover have "map_sum id bd_Data (Cli_Retrieve mc md5hex clk2 fbs key fs) = map_sum id bd_Data (Fs_Retrieve md5hex clk2 fbs key fs)"
    by (simp add: Cli_Retrieve_def Fs_Retrieve_def path Let_def split: sum.split)
  ultimately show ?thesis using stores_agree [OF path assms(3), of fs rfc3339 q] by blast
qed

text \<open>The path of a rooted key is below the root, because the key is cleaned first.\<close>

lemma rooted_keys_confined:
  assumes "rootPath fbs \<noteq> []" "rooted key" "Clean key \<noteq> ''/''"
    and "\<not> inside (parse_path (rootPath fbs)) q" "fs_lookup fs q \<noteq> None"
    and "agree_below (parse_path (rootPath fbs)) fs fs2"
  shows "fs_lookup (fst (Cli_Store mc md5hex clk fbs key data meta fs)) q = fs_lookup fs q \<and>
    fs_lookup (fst (Cli_Delete fbs key fs)) q = fs_lookup fs q \<and>
    Cli_Retrieve mc md5hex clk2 fbs key fs2 = Cli_Retrieve mc md5hex clk2 fbs key fs \<and>
    Cli_Exists fbs key fs2 = Cli_Exists fbs key fs"
proof (intro conjI)
  note inside = cli_path_inside [OF assms(1-3)]
  obtain t1 t2 t3 t4 where clk: "clk = (t1, t2, t3, t4)" by (metis prod_cases4)
  have "fs_lookup (fst (cli_put mc md5hex fbs (meta, clk) key data fs)) q = fs_lookup fs q"
    using write_pair_confined [OF inside assms(4,5)] by (simp add: clk cli_put_pair)
  then show "fs_lookup (fst (Cli_Store mc md5hex clk fbs key data meta fs)) q = fs_lookup fs q"
    by (simp add: cli_put_def split_beta)
  show "fs_lookup (fst (Cli_Delete fbs key fs)) q = fs_lookup fs q"
    using remove_pair_confined [OF inside assms(4), of fs] cli_del_pair [of fbs key fs]
    by (metis (no_types, lifting) cli_del_def fst_conv split_beta)
  have p: "agree_at (cli_path fbs key) fs fs2" "agree_at (meta_path (cli_path fbs key)) fs fs2"
    using assms(6) inside meta_inside [OF inside] unfolding agree_below_def strictly_inside_def by blast+
  show "Cli_Retrieve mc md5hex clk2 fbs key fs2 = Cli_Retrieve mc md5hex clk2 fbs key fs"
    "Cli_Exists fbs key fs2 = Cli_Exists fbs key fs"
    unfolding Cli_Retrieve_def Cli_Exists_def Let_def agree_at_reads [OF p(1)] agree_at_reads [OF p(2)] by (rule refl)+
qed

text \<open>
  C31. The storage of the command against that of the library, with the same clock. For a key that does not start with a slash they
  agree: \<open>Store\<close> succeeds in both or in neither and leaves the same files but for the text of the metadata, \<open>Delete\<close> does the same,
  \<open>Exists\<close> and \<open>Retrieve\<close> give the same answer, data or error. A key that starts with a slash keeps the command below its root,
  because it is cleaned first (only one that is cleaned to a single slash names the root itself): \<open>Store\<close> and \<open>Delete\<close> leave
  every node outside as it was, \<open>Retrieve\<close> and \<open>Exists\<close> do not depend on what is there. And if every file below the root can be
  examined, the command lists and counts exactly what the library lists and counts, although it walks another way.
\<close>

theorem cli_storage_equivalent:
  assumes "rootPath fbs \<noteq> []"
    and "marshal_meta mc (stored_meta md5hex (fst (snd (snd clk))) (snd (snd (snd clk))) data meta) = Inr buf"
  shows "(\<not> rooted key \<longrightarrow>
      (snd (Cli_Store mc md5hex clk fbs key data meta fs) = None) =
        (snd (Fs_Store md5hex rfc3339 clk fbs key data meta fs) = None) \<and>
      (q \<noteq> add_suffix ''.meta'' (Join (rootPath fbs) key) \<longrightarrow>
        fs_lookup (fst (Cli_Store mc md5hex clk fbs key data meta fs)) q =
        fs_lookup (fst (Fs_Store md5hex rfc3339 clk fbs key data meta fs)) q) \<and>
      Cli_Delete fbs key fs = Fs_Delete fbs key fs \<and> Cli_Exists fbs key fs = Fs_Exists fbs key fs \<and>
      map_sum id bd_Data (Cli_Retrieve mc md5hex clk2 fbs key fs) = map_sum id bd_Data (Fs_Retrieve md5hex clk2 fbs key fs)) \<and>
    (rooted key \<and> Clean key \<noteq> ''/'' \<and> \<not> inside (parse_path (rootPath fbs)) q \<and> fs_lookup fs q \<noteq> None \<and>
      agree_below (parse_path (rootPath fbs)) fs fs2 \<longrightarrow>
      fs_lookup (fst (Cli_Store mc md5hex clk fbs key data meta fs)) q = fs_lookup fs q \<and>
      fs_lookup (fst (Cli_Delete fbs key fs)) q = fs_lookup fs q \<and>
      Cli_Retrieve mc md5hex clk2 fbs key fs2 = Cli_Retrieve mc md5hex clk2 fbs key fs \<and>
      Cli_Exists fbs key fs2 = Cli_Exists fbs key fs) \<and>
    (fs_wf fs \<and> all_examined fs (parse_path (rootPath fbs)) \<longrightarrow>
      Cli_List fbs pre fs = Ret (Fs_List fbs pre fs) \<and> Cli_Stats fbs fs = Ret (Fs_Stats fbs fs))"
  using relative_keys_agree [OF assms(1) _ assms(2), of key fs rfc3339 q clk2]
    rooted_keys_confined [OF assms(1), of key q fs fs2 mc md5hex clk data meta clk2] walks_agree [of fs fbs pre]
  by blast

text \<open>
  A file that the walk of the command meets and that cannot be examined makes \<open>List\<close> and \<open>Stats\<close> panic, where those of the library
  pass it over.
\<close>

theorem unexamined_file_panics:
  assumes "p \<in> set (dir_files (rootPath fbs) fs)" and "stat_fault fs p \<noteq> None"
    and "pre = [] \<or> HasPrefix (Rel (parse_path (rootPath fbs)) p) pre"
  shows "Cli_List fbs pre fs = Panic nil_dereference \<and> Cli_Stats fbs fs = Panic nil_dereference"
proof
  have st: "\<exists>e. os_Stat p fs = Inl e" using assms(2) by (auto simp: os_Stat_def)
  have "list_walk fbs pre fs infos ps = Panic nil_dereference" if "p \<in> set ps" for infos ps
    using that by (induction ps arbitrary: infos) (use st assms(3) in \<open>auto simp: Let_def split: sum.split\<close>)
  then show "Cli_List fbs pre fs = Panic nil_dereference" using assms(1) by (simp add: Cli_List_def)
  have "stats_walk fs acc ps = Panic nil_dereference" if "p \<in> set ps" for acc ps
    using that
  proof (induction ps arbitrary: acc)
    case (Cons r ps)
    then show ?case using st by (cases acc) (auto split: sum.split)
  qed simp
  then show "Cli_Stats fbs fs = Panic nil_dereference" using assms(1) by (simp add: Cli_Stats_def)
qed

lemma Cli_Retrieve_data: "cli_get fbs key fs = Some data \<Longrightarrow> \<exists>b. Cli_Retrieve mc md5hex clk fbs key fs = Inr b \<and> bd_Data b = data"
  by (auto simp: cli_get_def read_data_def Cli_Retrieve_def Let_def split: sum.splits)

text \<open>
  C32. What \<open>put\<close> reads from standard input is what \<open>get\<close> prints: if the first exits with code zero, so does the second,
  run on the files the first left, and it writes exactly those bytes and changes nothing.
\<close>

theorem put_then_get:
  assumes "blobonly_main mc md5hex clk (Inr data) root [''put'', key] fs = (fs1, 0, out)"
  shows "blobonly_main mc' md5hex' clk' stdin root [''get'', key] fs1 = (fs1, 0, data)"
proof -
  obtain t1 t2 t3 t4 where clk: "clk = (t1, t2, t3, t4)" by (metis prod_cases4)
  obtain u1 u2 u3 u4 where clk': "clk' = (u1, u2, u3, u4)" by (metis prod_cases4)
  let ?ps = "map (\<lambda>k. (fst (parse_path root), take k (snd (parse_path root)))) [1..<Suc (length (snd (parse_path root)))]"
  let ?store = "\<lparr>rootPath = root, maxSize_fs = default_max_size\<rparr>"
  let ?meta = "zero_BlobMetadata\<lparr>bm_ContentType := ''application/octet-stream'', bm_Filename := []\<rparr>"
  have root: "root \<noteq> []" using assms by (auto simp: blobonly_main_def)
  obtain fs0 where mk: "mkdirs ?ps fs = (fs0, None)"
    using assms root
    by (auto simp: blobonly_main_def Cli_NewFilesystemBlobStorage_def os_MkdirAll_def simp del: upt_Suc split: prod.splits option.splits)
  have "cli_put mc md5hex ?store (?meta, clk) key data fs0 = (fs1, True)"
    using assms root mk
    by (auto simp: blobonly_main_def Cli_NewFilesystemBlobStorage_def os_MkdirAll_def cmd_put_def cli_put_def
        simp del: upt_Suc split: prod.splits option.splits)
  then have wp: "write_pair t1 t2 (cli_path ?store key) data (meta_text mc (stored_meta md5hex t3 t4 data ?meta)) fs0 = (fs1, True)"
    by (simp add: clk cli_put_pair split: if_splits)
  have "cli_get ?store key fs1 = Some data" using write_pair_read [OF wp] by (simp add: cli_get_def)
  from Cli_Retrieve_data [OF this] obtain b where b: "Cli_Retrieve mc' md5hex' (u1, u2) ?store key fs1 = Inr b" "bd_Data b = data"
    by blast
  have "fs_lookup fs1 p = Some Directory" if "p \<in> set ?ps" for p
    using directory_stays [OF mkdirs_ok [OF mk that], of t1 t2] wp by (metis fst_conv)
  then have "mkdirs ?ps fs1 = (fs1, None)" by (intro mkdirs_idem) blast
  with root b show ?thesis
    by (simp add: blobonly_main_def Cli_NewFilesystemBlobStorage_def os_MkdirAll_def cmd_get_def clk' del: upt_Suc)
qed

lemma write_pair_meta:
  assumes "write_pair t1 t2 p data (Some m) fs = (fs', True)"
  shows "read_data (meta_path p) fs' = Some m"
  using assms
  by (auto simp: write_pair_def dest: read_data_WriteFile split: prod.splits option.splits)

text \<open>
  The command keeps the metadata: what it stored is what it retrieves, with the size, the checksum and the times
  filled in, as far as JSON keeps the texts.
\<close>

theorem cli_metadata_round_trip:
  assumes "meta_codec_ok mc" and "Cli_Store mc md5hex (t1, t2, t3, t4) fbs key data meta fs = (fs1, None)"
    and "meta_native (stored_meta md5hex t3 t4 data meta)"
  shows "Cli_Retrieve mc md5hex clk fbs key fs1 =
    Inr \<lparr>bd_Key = key, bd_Data = data, bd_Metadata = stored_meta md5hex t3 t4 data meta\<rparr>"
proof -
  let ?m = "stored_meta md5hex t3 t4 data meta"
  have "cli_put mc md5hex fbs (meta, t1, t2, t3, t4) key data fs = (fs1, True)" using assms(2) by (simp add: cli_put_def)
  then have wp: "write_pair t1 t2 (cli_path fbs key) data (meta_text mc ?m) fs = (fs1, True)"
    by (simp add: cli_put_pair split: if_splits)
  then obtain s where s: "meta_text mc ?m = Some s"
    by (cases "meta_text mc ?m") (auto simp: write_pair_def split: prod.splits option.splits)
  then have mar: "marshal_meta mc ?m = Inr s" by (simp add: meta_text_def split: sum.splits)
  have "os_ReadFile (cli_path fbs key) fs1 = Inr data"
    using write_pair_read [OF wp] by (auto simp: read_data_def split: sum.splits)
  moreover have "os_ReadFile (meta_path (cli_path fbs key)) fs1 = Inr s"
    using write_pair_meta [OF wp [unfolded s]] by (auto simp: read_data_def split: sum.splits)
  ultimately show ?thesis
    using assms(1,3) mar by (simp add: Cli_Retrieve_def meta_codec_ok_def zero_BlobMetadata_def)
qed

section \<open>Witnesses\<close>

definition sample_meta :: BlobMetadata where
  "sample_meta = stored_meta (\<lambda>d. ''0'') (Time 3) (Time 4) ''xyz'' (zero_BlobMetadata\<lparr>bm_ContentType := ''application/octet-stream''\<rparr>)"

definition sample_meta_codec :: meta_codec where
  "sample_meta_codec =
     \<lparr>marshal_meta = (\<lambda>m. if m = sample_meta then Inr ''{m}'' else Inl (ErrExt 8 ''json'')),
      unmarshal_meta = (\<lambda>s m0. if s = ''{m}'' then sample_meta else m0)\<rparr>"

lemma sample_cli_paths:
  "cli_path sample_storage ''c'' = (True, [''data'', ''c''])" "parse_path ''/data'' = (True, [''data''])"
  unfolding cli_path_def sample_storage_def by code_simp+

lemma sample_fs_ok: "fs_wf empty_fs" "all_examined empty_fs root"
  by (simp_all add: fs_wf_def all_examined_def empty_fs_def)

theorem cli_storage_equivalent_witness:
  "map_sum id bd_Data (Cli_Retrieve sample_meta_codec (\<lambda>d. ''0'') (Time 5, Time 6) sample_storage ''a/b'' empty_fs) =
     map_sum id bd_Data (Fs_Retrieve (\<lambda>d. ''0'') (Time 5, Time 6) sample_storage ''a/b'' empty_fs) \<and>
   Cli_List sample_storage [] empty_fs = Ret (Fs_List sample_storage [] empty_fs) \<and>
   fs_lookup (fst (Cli_Store sample_meta_codec (\<lambda>d. ''0'') sample_times sample_storage ''/../etc'' ''xyz''
      (zero_BlobMetadata\<lparr>bm_ContentType := ''application/octet-stream''\<rparr>) empty_fs)) (True, []) = Some Directory"
proof -
  let ?meta = "zero_BlobMetadata\<lparr>bm_ContentType := ''application/octet-stream''\<rparr>"
  have m: "marshal_meta sample_meta_codec (stored_meta (\<lambda>d. ''0'') (fst (snd (snd sample_times))) (snd (snd (snd sample_times)))
      ''xyz'' ?meta) = Inr ''{m}''"
    by (simp add: sample_meta_codec_def sample_meta_def sample_times_def)
  have r: "rootPath sample_storage \<noteq> []" "\<not> rooted ''a/b''" by (simp_all add: sample_storage_def rooted_def)
  have "rooted ''/../etc''" "Clean ''/../etc'' \<noteq> ''/''" "\<not> inside (parse_path ''/data'') (True, [])"
    unfolding rooted_def by code_simp+
  moreover have "agree_below (parse_path ''/data'') empty_fs empty_fs" by (simp add: agree_below_def agree_at_def)
  moreover have "fs_lookup empty_fs (True, []) = Some Directory" by (simp add: empty_fs_def fs_lookup_def)
  ultimately show ?thesis
    using cli_storage_equivalent [OF r(1) m, of "''a/b''" empty_fs "\<lambda>t. ''now''" "(True, [])" "(Time 5, Time 6)" empty_fs "[]"]
      cli_storage_equivalent [OF r(1) m, of "''/../etc''" empty_fs "\<lambda>t. ''now''" "(True, [])" "(Time 5, Time 6)" empty_fs "[]"]
      r(2) sample_fs_ok
    by (simp add: sample_storage_def)
qed

lemma sample_Cli_Store:
  "\<exists>fs1. Cli_Store sample_meta_codec (\<lambda>d. ''0'') sample_times sample_storage ''c'' ''xyz''
     (zero_BlobMetadata\<lparr>bm_ContentType := ''application/octet-stream''\<rparr>) empty_fs = (fs1, None)"
  by (simp add: Cli_Store_def sample_times_def sample_meta_codec_def sample_meta_def sample_cli_paths os_MkdirAll_def
      os_WriteFile_def fs_lookup_def path_Dir_def add_suffix_def empty_fs_def)
    (simp add: sample_storage_def default_max_size_def)

theorem put_then_get_witness:
  "\<exists>fs1. blobonly_main sample_meta_codec (\<lambda>d. ''0'') sample_times (Inr ''xyz'') ''/data'' [''put'', ''c''] empty_fs =
      (fs1, 0, ''OK'' @ [nl]) \<and>
    blobonly_main sample_meta_codec (\<lambda>d. ''0'') sample_times (Inr []) ''/data'' [''get'', ''c''] fs1 = (fs1, 0, ''xyz'')"
proof -
  obtain fs1 where st: "Cli_Store sample_meta_codec (\<lambda>d. ''0'') sample_times sample_storage ''c'' ''xyz''
     (zero_BlobMetadata\<lparr>bm_ContentType := ''application/octet-stream''\<rparr>) empty_fs = (fs1, None)"
    using sample_Cli_Store by blast
  have mk: "os_MkdirAll (True, [''data'']) empty_fs = (empty_fs, None)"
    by (simp add: os_MkdirAll_def fs_lookup_def empty_fs_def)
  have "blobonly_main sample_meta_codec (\<lambda>d. ''0'') sample_times (Inr ''xyz'') ''/data'' [''put'', ''c''] empty_fs =
      (fs1, 0, ''OK'' @ [nl])"
    using st by (simp add: blobonly_main_def Cli_NewFilesystemBlobStorage_def sample_cli_paths mk cmd_put_def sample_storage_def
        zero_BlobMetadata_def)
  with put_then_get [OF this] show ?thesis by blast
qed

theorem cli_metadata_round_trip_witness:
  "\<exists>fs1. Cli_Retrieve sample_meta_codec (\<lambda>d. ''0'') (Time 8, Time 9) sample_storage ''c'' fs1 =
     Inr \<lparr>bd_Key = ''c'', bd_Data = ''xyz'', bd_Metadata = sample_meta\<rparr>"
proof -
  obtain fs1 where st: "Cli_Store sample_meta_codec (\<lambda>d. ''0'') (Time 1, Time 2, Time 3, Time 4) sample_storage ''c'' ''xyz''
     (zero_BlobMetadata\<lparr>bm_ContentType := ''application/octet-stream''\<rparr>) empty_fs = (fs1, None)"
    using sample_Cli_Store by (auto simp: sample_times_def)
  have "meta_codec_ok sample_meta_codec" by (auto simp: meta_codec_ok_def sample_meta_codec_def)
  moreover have "meta_native (stored_meta (\<lambda>d. ''0'') (Time 3) (Time 4) ''xyz''
      (zero_BlobMetadata\<lparr>bm_ContentType := ''application/octet-stream''\<rparr>))"
    by (simp add: meta_native_def stored_meta_def zero_BlobMetadata_def plain_text_def)
  ultimately show ?thesis
    using cli_metadata_round_trip [OF _ st, of "(Time 8, Time 9)"] by (auto simp: sample_meta_def)
qed

end
