(* ===== verification/Blob_Db.thy ===== *)
theory Blob_Db
  imports Runtime Blob_Files
begin

text \<open>
  Blob storage in a database (\<open>blob.go\<close>): the statements it sends through the runtime, and the tags it packs
  into a text that looks like JSON. What \<open>Scan\<close> finds in a row, at the types the code asks for, is a
  record of operations on the driver's world, an argument as the driver itself is.
\<close>

section \<open>Tags\<close>

text \<open>The tags in the order in which the loop over the map meets them.\<close>

definition tags_text :: "(string \<times> string) list \<Rightarrow> string" where
  "tags_text tags =
     (if tags = [] then []
      else ''{'' @ join_with '','' (map (\<lambda>(k, v). quoted k @ '':'' @ quoted v) tags) @ ''}'')"

definition tag_pair :: "string \<Rightarrow> (string \<times> string) list \<Rightarrow> (string \<times> string) list" where
  "tag_pair pair tags =
     (case SplitN2 (CHR '':'') pair of
        [k, v] \<Rightarrow> AList.update (Trim k {quote}) (Trim v {quote}) tags
      | _ \<Rightarrow> tags)"

definition parse_tags :: "string \<Rightarrow> (string \<times> string) list" where
  "parse_tags s =
     (if s = [] then []
      else (let t = Trim s {CHR ''{'', CHR ''}''}
            in if t = [] then [] else fold tag_pair (split_on (CHR '','') t) []))"

section \<open>State\<close>

record DatabaseBlobStorage =
  tableName :: string
  db_maxSize :: int64

record blob_row =
  row_data :: string
  row_content_type :: string
  row_filename :: string
  row_size :: int64
  row_checksum :: string
  row_tags :: string
  row_created_at :: time
  row_updated_at :: time

text \<open>\<open>Scan\<close> of a single row, or of the current row of a result set, into the variables of the code.\<close>

record 'w blob_scan =
  scan_blob :: "handle \<Rightarrow> 'w \<Rightarrow> 'w \<times> (go_error + blob_row)"
  scan_int :: "handle \<Rightarrow> 'w \<Rightarrow> 'w \<times> (go_error + int)"
  scan_stats :: "handle \<Rightarrow> 'w \<Rightarrow> 'w \<times> (go_error + int64 \<times> int64)"
  scan_info :: "handle \<Rightarrow> 'w \<Rightarrow> 'w \<times> (go_error + string \<times> blob_row)"

section \<open>Statements\<close>

text \<open>A line of a statement, indented by tabs.\<close>

definition sql_line :: "nat \<Rightarrow> string \<Rightarrow> string" where
  "sql_line n s = nl # replicate n tab @ s"

definition create_sql :: "DatabaseType \<Rightarrow> string \<Rightarrow> string option" where
  "create_sql ty table =
     (let head = sql_line 3 (''CREATE TABLE IF NOT EXISTS '' @ table @ '' ('')
      in if ty = DatabaseTypeSQLite then
           Some (head @ sql_line 4 ''key TEXT PRIMARY KEY,'' @ sql_line 4 ''data BLOB NOT NULL,'' @
             sql_line 4 ''content_type TEXT NOT NULL,'' @ sql_line 4 ''filename TEXT,'' @
             sql_line 4 ''size INTEGER NOT NULL,'' @ sql_line 4 ''checksum TEXT NOT NULL,'' @
             sql_line 4 ''tags TEXT, -- JSON'' @ sql_line 4 ''created_at DATETIME DEFAULT CURRENT_TIMESTAMP,'' @
             sql_line 4 ''updated_at DATETIME DEFAULT CURRENT_TIMESTAMP'' @ sql_line 3 '')'')
         else if ty = DatabaseTypePostgreSQL then
           Some (head @ sql_line 4 ''key TEXT PRIMARY KEY,'' @ sql_line 4 ''data BYTEA NOT NULL,'' @
             sql_line 4 ''content_type TEXT NOT NULL,'' @ sql_line 4 ''filename TEXT,'' @
             sql_line 4 ''size BIGINT NOT NULL,'' @ sql_line 4 ''checksum TEXT NOT NULL,'' @
             sql_line 4 ''tags JSONB,'' @ sql_line 4 ''created_at TIMESTAMP DEFAULT NOW(),'' @
             sql_line 4 ''updated_at TIMESTAMP DEFAULT NOW()'' @ sql_line 3 '')'')
         else if ty = DatabaseTypeMySQL then
           Some (head @ sql_line 4 ''`key` VARCHAR(255) PRIMARY KEY,'' @ sql_line 4 ''data LONGBLOB NOT NULL,'' @
             sql_line 4 ''content_type VARCHAR(255) NOT NULL,'' @ sql_line 4 ''filename VARCHAR(255),'' @
             sql_line 4 ''size BIGINT NOT NULL,'' @ sql_line 4 ''checksum VARCHAR(64) NOT NULL,'' @
             sql_line 4 ''tags JSON,'' @ sql_line 4 ''created_at TIMESTAMP DEFAULT CURRENT_TIMESTAMP,'' @
             sql_line 4 ''updated_at TIMESTAMP DEFAULT CURRENT_TIMESTAMP ON UPDATE CURRENT_TIMESTAMP'' @ sql_line 3 '')'')
         else None)"

definition store_sql :: "DatabaseType \<Rightarrow> string \<Rightarrow> string" where
  "store_sql ty table =
     (if ty = DatabaseTypeMySQL
      then sql_line 3 (''REPLACE INTO '' @ table @ '' (`key`, data, content_type, filename, size, checksum, tags, created_at, updated_at)'')
      else sql_line 3 (''INSERT OR REPLACE INTO '' @ table @ '' (key, data, content_type, filename, size, checksum, tags, created_at, updated_at)'')) @
     sql_line 3 ''VALUES (?, ?, ?, ?, ?, ?, ?, ?, ?)'' @ sql_line 2 []"

definition retrieve_sql :: "string \<Rightarrow> string" where
  "retrieve_sql table =
     sql_line 2 ''SELECT data, content_type, filename, size, checksum, tags, created_at, updated_at'' @
     sql_line 2 (''FROM '' @ table @ '' WHERE key = ?'') @ sql_line 1 []"

definition list_sql :: "DatabaseType \<Rightarrow> string \<Rightarrow> string \<Rightarrow> string \<times> go_value list" where
  "list_sql ty table pre =
     (let q = ''SELECT key, content_type, filename, size, checksum, tags, created_at, updated_at FROM '' @ table
      in if pre \<noteq> []
         then (q @ (if ty = DatabaseTypePostgreSQL then '' WHERE key LIKE $1'' else '' WHERE key LIKE ?''), [VString (pre @ ''%'')])
         else (q, []))"

section \<open>Operations\<close>

definition db_type :: "DBRuntime \<Rightarrow> DatabaseType" where
  "db_type rt = rc_DatabaseType (rt_config rt)"

definition exec_error :: "'s \<times> (go_error + handle) outcome \<Rightarrow> 's \<times> go_error option outcome" where
  "exec_error = (\<lambda>(s, r). (s, bind_outcome r (\<lambda>x. Ret (case x of Inl err \<Rightarrow> Some err | Inr h \<Rightarrow> None))))"

definition createTable ::
    "'w sql_driver \<Rightarrow> gate_env \<Rightarrow> DatabaseBlobStorage \<Rightarrow> 'w rt_state \<Rightarrow> 'w rt_state \<times> go_error option outcome" where
  "createTable drv env dbs st =
     (case create_sql (db_type (fst st)) (tableName dbs) of
        None \<Rightarrow> (st, Ret (Some (Errorf (''unsupported database type for blob storage: '' @ db_type (fst st)))))
      | Some createSQL \<Rightarrow> exec_error (Runtime_Exec drv env None createSQL [] st))"

definition NewDatabaseBlobStorage ::
    "'w sql_driver \<Rightarrow> gate_env \<Rightarrow> BlobStorageConfig \<Rightarrow> 'w rt_state \<Rightarrow> 'w rt_state \<times> (go_error + DatabaseBlobStorage) outcome" where
  "NewDatabaseBlobStorage drv env config st =
     (let storage = \<lparr>tableName = (if TableName config \<noteq> [] then TableName config else ''blobs''),
                     db_maxSize = (if bsc_MaxSize config > 0 then bsc_MaxSize config else default_max_size)\<rparr>
      in case createTable drv env storage st of
           (st1, r) \<Rightarrow>
             (st1, bind_outcome r (\<lambda>e. Ret (case e of
                None \<Rightarrow> Inr storage
              | Some err \<Rightarrow> Inl (ErrorfW ''failed to create blob table: '' err [])))))"

definition Db_Store ::
    "'w sql_driver \<Rightarrow> gate_env \<Rightarrow> (string \<Rightarrow> string) \<Rightarrow> go_context \<Rightarrow> DatabaseBlobStorage \<Rightarrow> string \<Rightarrow> string \<Rightarrow> BlobMetadata \<Rightarrow>
     'w rt_state \<Rightarrow> 'w rt_state \<times> go_error option outcome" where
  "Db_Store drv env md5hex ctx dbs key data metadata = (\<lambda>(rt, w).
     (if int (length data) > db_maxSize dbs then ((rt, w), Ret (Some (too_large data (db_maxSize dbs))))
      else
        (let checksum = md5hex data
         in if bm_Checksum metadata \<noteq> [] \<and> bm_Checksum metadata \<noteq> checksum
            then ((rt, w), Ret (Some (Errorf (''checksum mismatch: expected '' @ bm_Checksum metadata @ '', got '' @ checksum))))
            else
              (let now = drv_Now drv w;
                   m = metadata\<lparr>bm_Checksum := checksum, bm_Size := int (length data), bm_UpdatedAt := now,
                         bm_CreatedAt := (if IsZero (bm_CreatedAt metadata) then now else bm_CreatedAt metadata)\<rparr>
               in exec_error (Runtime_Exec drv env ctx (store_sql (db_type rt) (tableName dbs))
                    [VString key, VBytes data, VString (bm_ContentType m), VString (bm_Filename m), VInt (bm_Size m),
                     VString (bm_Checksum m), VString (tags_text (bm_Tags m)), VTime (bm_CreatedAt m), VTime (bm_UpdatedAt m)]
                    (rt, w))))))"

text \<open>\<open>row.Scan\<close> on what \<open>QueryRow\<close> returned; a nil row is dereferenced.\<close>

definition scan_row ::
    "(handle \<Rightarrow> 'w \<Rightarrow> 'w \<times> (go_error + 'a)) \<Rightarrow> 'w rt_state \<times> handle option outcome \<Rightarrow> 'w rt_state \<times> (go_error + 'a) outcome" where
  "scan_row scan = (\<lambda>((rt, w), r).
     (case r of
        Panic m \<Rightarrow> ((rt, w), Panic m)
      | Blocked \<Rightarrow> ((rt, w), Blocked)
      | Ret None \<Rightarrow> ((rt, w), Panic nil_dereference)
      | Ret (Some row) \<Rightarrow> (case scan row w of (w1, x) \<Rightarrow> ((rt, w1), Ret x))))"

definition row_metadata :: "blob_row \<Rightarrow> BlobMetadata" where
  "row_metadata r =
     \<lparr>bm_ContentType = row_content_type r, bm_Filename = row_filename r, bm_Size = row_size r, bm_Checksum = row_checksum r,
      bm_Tags = parse_tags (row_tags r), bm_CreatedAt = row_created_at r, bm_UpdatedAt = row_updated_at r\<rparr>"

definition Db_Retrieve ::
    "'w sql_driver \<Rightarrow> 'w blob_scan \<Rightarrow> go_context \<Rightarrow> DatabaseBlobStorage \<Rightarrow> string \<Rightarrow> 'w rt_state \<Rightarrow>
     'w rt_state \<times> (go_error + BlobData) outcome" where
  "Db_Retrieve drv sc ctx dbs key st =
     (case scan_row (scan_blob sc) (Runtime_QueryRow drv ctx (retrieve_sql (tableName dbs)) [VString key] st) of
        (st1, r) \<Rightarrow>
          (st1, bind_outcome r (\<lambda>x. Ret (case x of
             Inl err \<Rightarrow> Inl (ErrorfW ''blob not found: '' err [])
           | Inr b \<Rightarrow> Inr \<lparr>bd_Key = key, bd_Data = row_data b, bd_Metadata = row_metadata b\<rparr>))))"

definition Db_Delete ::
    "'w sql_driver \<Rightarrow> gate_env \<Rightarrow> go_context \<Rightarrow> DatabaseBlobStorage \<Rightarrow> string \<Rightarrow> 'w rt_state \<Rightarrow> 'w rt_state \<times> go_error option outcome" where
  "Db_Delete drv env ctx dbs key st =
     exec_error (Runtime_Exec drv env ctx (''DELETE FROM '' @ tableName dbs @ '' WHERE key = ?'') [VString key] st)"

definition Db_Exists ::
    "'w sql_driver \<Rightarrow> 'w blob_scan \<Rightarrow> go_context \<Rightarrow> DatabaseBlobStorage \<Rightarrow> string \<Rightarrow> 'w rt_state \<Rightarrow> 'w rt_state \<times> bool outcome" where
  "Db_Exists drv sc ctx dbs key st =
     (case scan_row (scan_int sc) (Runtime_QueryRow drv ctx (''SELECT 1 FROM '' @ tableName dbs @ '' WHERE key = ?'') [VString key] st) of
        (st1, r) \<Rightarrow> (st1, bind_outcome r (\<lambda>x. Ret (case x of Inl err \<Rightarrow> False | Inr n \<Rightarrow> True))))"

text \<open>The loop over the rows of a listing; a row that cannot be scanned is passed over.\<close>

partial_function (option) list_rows ::
    "'w sql_driver \<Rightarrow> 'w blob_scan \<Rightarrow> handle \<Rightarrow> BlobInfo list \<Rightarrow> 'w \<Rightarrow> ('w \<times> BlobInfo list) option" where
  "list_rows drv sc rows infos w =
     (let (w1, more) = drv_Next drv rows w
      in if \<not> more then Some (w1, infos)
         else (case scan_info sc rows w1 of
                 (w2, Inl err) \<Rightarrow> list_rows drv sc rows infos w2
               | (w2, Inr (key, r)) \<Rightarrow>
                   list_rows drv sc rows (infos @ [\<lparr>bi_Key = key, bi_Metadata = row_metadata r\<rparr>]) w2))"

definition Db_List ::
    "'w sql_driver \<Rightarrow> gate_env \<Rightarrow> 'w blob_scan \<Rightarrow> go_context \<Rightarrow> DatabaseBlobStorage \<Rightarrow> string \<Rightarrow> 'w rt_state \<Rightarrow>
     'w rt_state \<times> (go_error + BlobInfo list) outcome" where
  "Db_List drv env sc ctx dbs pre st =
     (case list_sql (db_type (fst st)) (tableName dbs) pre of
        (query, args) \<Rightarrow>
          (case Runtime_Query drv env ctx query args st of
             (st1, Panic m) \<Rightarrow> (st1, Panic m)
           | (st1, Blocked) \<Rightarrow> (st1, Blocked)
           | (st1, Ret (Inl err)) \<Rightarrow> (st1, Ret (Inl err))
           | ((rt, w), Ret (Inr rows)) \<Rightarrow>
               (case list_rows drv sc rows [] w of
                  None \<Rightarrow> ((rt, w), Blocked)
                | Some (w1, infos) \<Rightarrow> ((rt, drv_RowsClose drv rows w1), Ret (Inr infos)))))"

definition Db_Stats ::
    "'w sql_driver \<Rightarrow> 'w blob_scan \<Rightarrow> go_context \<Rightarrow> DatabaseBlobStorage \<Rightarrow> 'w rt_state \<Rightarrow> 'w rt_state \<times> (go_error + BlobStats) outcome" where
  "Db_Stats drv sc ctx dbs st =
     (case scan_row (scan_stats sc) (Runtime_QueryRow drv ctx (''SELECT COUNT(*), COALESCE(SUM(size), 0) FROM '' @ tableName dbs) [] st) of
        (st1, r) \<Rightarrow>
          (st1, bind_outcome r (\<lambda>x. Ret (case x of
             Inl err \<Rightarrow> Inl err
           | Inr (n, sz) \<Rightarrow> Inr \<lparr>TotalBlobs = n, TotalSize = sz, UsedSpace = sz\<rparr>))))"

section \<open>Tags survive the text\<close>

text \<open>What the encoding, which escapes nothing, asks of a tag.\<close>

definition plain_tag :: "string \<times> string \<Rightarrow> bool" where
  "plain_tag = (\<lambda>(k, v).
     CHR '','' \<notin> set k \<union> set v \<and> CHR '':'' \<notin> set k \<and>
     (k = [] \<or> hd k \<noteq> quote \<and> last k \<noteq> quote) \<and> (v = [] \<or> hd v \<noteq> quote \<and> last v \<noteq> quote))"

definition tag_text :: "string \<times> string \<Rightarrow> string" where
  "tag_text = (\<lambda>(k, v). quoted k @ '':'' @ quoted v)"

lemma Trim_quoted: "s = [] \<or> hd s \<noteq> quote \<and> last s \<noteq> quote \<Longrightarrow> Trim (quoted s) {quote} = s"
  using Trim_wrapped [of s "{quote}" "[quote]" "[quote]"] by (simp add: quoted_def)

lemma SplitN2_first:
  assumes "c \<notin> set a"
  shows "SplitN2 c (a @ c # b) = [a, b]"
proof -
  have "takeWhile (\<lambda>x. x \<noteq> c) (a @ c # b) = a" "dropWhile (\<lambda>x. x \<noteq> c) (a @ c # b) = c # b"
    using assms by (induction a) auto
  then show ?thesis by (simp add: SplitN2_def)
qed

lemma tag_pair_text:
  assumes "plain_tag (k, v)"
  shows "tag_pair (tag_text (k, v)) tags = AList.update k v tags"
proof -
  have "CHR '':'' \<notin> set (quoted k)" using assms by (simp add: quoted_def quote_def plain_tag_def)
  then have "SplitN2 (CHR '':'') (tag_text (k, v)) = [quoted k, quoted v]"
    by (simp add: tag_text_def SplitN2_first)
  moreover have "Trim (quoted k) {quote} = k" "Trim (quoted v) {quote} = v"
    using assms by (simp_all add: plain_tag_def Trim_quoted)
  ultimately show ?thesis by (simp add: tag_pair_def)
qed

lemma fold_tag_pair:
  assumes "\<forall>t \<in> set ts. plain_tag t"
  shows "fold tag_pair (map tag_text ts) acc = fold (\<lambda>(k, v). AList.update k v) ts acc"
  using assms by (induction ts arbitrary: acc) (auto simp: tag_pair_text)

lemma map_of_fold_update:
  assumes "distinct (map fst ts)"
  shows "map_of (fold (\<lambda>(k, v). AList.update k v) ts acc) = map_of acc ++ map_of ts"
  using assms
proof (induction ts arbitrary: acc)
  case (Cons t ts)
  obtain k v where [simp]: "t = (k, v)" by fastforce
  have "map_of (fold (\<lambda>(k, v). AList.update k v) ts (AList.update k v acc)) = (map_of acc)(k \<mapsto> v) ++ map_of ts"
    using Cons by (simp add: update_conv')
  moreover have "map_of ts k = None" using Cons.prems by (simp add: map_of_eq_None_iff)
  ultimately show ?case by (auto simp: map_add_def split: option.split)
qed simp

lemma join_ends:
  assumes "\<forall>w \<in> set ws. w \<noteq> [] \<and> hd w = q \<and> last w = q" "ws \<noteq> []"
  shows "join_with sep ws \<noteq> [] \<and> hd (join_with sep ws) = q \<and> last (join_with sep ws) = q"
  using assms by (induction sep ws rule: join_with.induct) auto

lemma tag_text_ends: "tag_text t \<noteq> [] \<and> hd (tag_text t) = quote \<and> last (tag_text t) = quote"
  by (simp add: tag_text_def quoted_def split: prod.split)

lemma Trim_braces:
  assumes "ts \<noteq> []"
  shows "Trim (tags_text ts) {CHR ''{'', CHR ''}''} = join_with '','' (map tag_text ts)"
proof -
  have "tags_text ts = ''{'' @ join_with '','' (map tag_text ts) @ ''}''"
    using assms by (simp add: tags_text_def tag_text_def)
  moreover have "join_with '','' (map tag_text ts) \<noteq> [] \<and> hd (join_with '','' (map tag_text ts)) = quote \<and>
      last (join_with '','' (map tag_text ts)) = quote"
    using assms by (intro join_ends) (simp_all add: tag_text_ends)
  moreover have "quote \<notin> {CHR ''{'', CHR ''}''}" by (simp add: quote_def)
  ultimately show ?thesis by (simp only: Trim_wrapped) (rule Trim_wrapped, simp_all)
qed

lemma comma_not_in_text: "plain_tag t \<Longrightarrow> CHR '','' \<notin> set (tag_text t)"
  by (cases t) (simp add: plain_tag_def tag_text_def quoted_def quote_def)

text \<open>C30. Round trip of the tags: what \<open>Retrieve\<close> and \<open>List\<close> read back from the text that \<open>Store\<close> writes is
  the same map, whatever the order in which the loop over the map met the tags, if no key or value holds a comma,
  no key a colon, and none starts or ends with a quote. The text escapes nothing, so these conditions are needed.\<close>

theorem tags_round_trip:
  assumes "\<forall>t \<in> set ts. plain_tag t" and "distinct (map fst ts)"
  shows "map_of (parse_tags (tags_text ts)) = map_of ts"
proof (cases "ts = []")
  case False
  have "split_on (CHR '','') (join_with '','' (map tag_text ts)) = map tag_text ts"
    using assms(1) False by (intro split_join) (simp_all add: comma_not_in_text)
  moreover have "join_with '','' (map tag_text ts) \<noteq> []"
    using False join_ends [of "map tag_text ts" quote] by (simp add: tag_text_ends)
  moreover have "tags_text ts \<noteq> []" using False by (simp add: tags_text_def)
  ultimately have "parse_tags (tags_text ts) = fold (\<lambda>(k, v). AList.update k v) ts []"
    using False assms(1) by (simp add: parse_tags_def Trim_braces fold_tag_pair)
  then show ?thesis using assms(2) by (simp add: map_of_fold_update)
qed (simp add: parse_tags_def tags_text_def)

theorem tags_round_trip_witness:
  "map_of (parse_tags (tags_text [(''owner'', ''ana''), (''url'', ''http:x'')])) = map_of [(''owner'', ''ana''), (''url'', ''http:x'')]"
  by (rule tags_round_trip) (simp_all add: plain_tag_def quote_def)

section \<open>Listing ends\<close>

text \<open>
  A result set of finitely many rows, as \<open>Rows\<close> documents it: \<open>pending\<close> are the rows to come and \<open>current\<close> is what the row
  the cursor is on scans to, its values or an error. \<open>Next\<close> moves to the next row and says whether there is one; \<open>Scan\<close>
  delivers the current row and moves nothing.
\<close>

definition listing_ok ::
    "'w sql_driver \<Rightarrow> 'w blob_scan \<Rightarrow> handle \<Rightarrow> ('w \<Rightarrow> (go_error + string \<times> blob_row) list) \<Rightarrow>
     ('w \<Rightarrow> go_error + string \<times> blob_row) \<Rightarrow> bool" where
  "listing_ok drv sc rows pending current \<longleftrightarrow>
     (\<forall>w. pending w = [] \<longrightarrow> \<not> snd (drv_Next drv rows w)) \<and>
     (\<forall>w r rs. pending w = r # rs \<longrightarrow>
        snd (drv_Next drv rows w) \<and> pending (fst (drv_Next drv rows w)) = rs \<and> current (fst (drv_Next drv rows w)) = r) \<and>
     (\<forall>w. snd (scan_info sc rows w) = current w \<and> pending (fst (scan_info sc rows w)) = pending w)"

fun listed :: "go_error + string \<times> blob_row \<Rightarrow> BlobInfo list" where
  "listed (Inl err) = []"
| "listed (Inr (key, r)) = [\<lparr>bi_Key = key, bi_Metadata = row_metadata r\<rparr>]"

text \<open>On such a result set the loop returns the rows that could be scanned, in order.\<close>

lemma rows_are_listed:
  assumes "listing_ok drv sc rows pending current"
  shows "\<exists>w'. list_rows drv sc rows infos w = Some (w', infos @ concat (map listed (pending w)))"
proof (induction "pending w" arbitrary: infos w)
  case Nil
  then have "\<not> snd (drv_Next drv rows w)" using assms by (simp add: listing_ok_def)
  with Nil show ?case by (subst list_rows.simps) (simp add: split_beta)
next
  case (Cons r rs)
  let ?w1 = "fst (drv_Next drv rows w)" let ?w2 = "fst (scan_info sc rows ?w1)"
  have next': "snd (drv_Next drv rows w)" "pending ?w1 = rs" "current ?w1 = r"
    using assms Cons.hyps(2) [symmetric] by (auto simp: listing_ok_def)
  then have scan: "snd (scan_info sc rows ?w1) = r" "pending ?w2 = rs"
    using assms by (simp_all add: listing_ok_def)
  have "list_rows drv sc rows infos w = list_rows drv sc rows (infos @ listed r) ?w2"
    by (subst list_rows.simps) (simp add: split_beta next'(1) scan(1) split: sum.split)
  with Cons.hyps(1) [of ?w2 "infos @ listed r"] scan(2) Cons.hyps(2) [symmetric] show ?case by simp
qed

section \<open>Without a connection\<close>

lemma disconnected_row:
  "\<not> IsConnected rt \<Longrightarrow> scan_row scan (Runtime_QueryRow drv ctx q args (rt, w)) = ((rt, w), Panic nil_dereference)"
  by (simp add: Runtime_QueryRow_def scan_row_def)

text \<open>On a runtime with no connection, storing and deleting a blob return the error of the runtime, and so does
  listing; reading, testing for existence and counting dereference the nil row that \<open>QueryRow\<close> returns, a panic
  where their signature promises an error. The state is unchanged in every case.\<close>

theorem disconnected_blob_storage_panics:
  assumes "\<not> IsConnected rt" and "int (length data) \<le> db_maxSize dbs"
    and "bm_Checksum m = [] \<or> bm_Checksum m = md5hex data"
  shows "Db_Store drv env md5hex ctx dbs key data m (rt, w) = ((rt, w), Ret (Some not_connected)) \<and>
    Db_Delete drv env ctx dbs key (rt, w) = ((rt, w), Ret (Some not_connected)) \<and>
    Db_List drv env sc ctx dbs pre (rt, w) = ((rt, w), Ret (Inl not_connected)) \<and>
    Db_Retrieve drv sc ctx dbs key (rt, w) = ((rt, w), Panic nil_dereference) \<and>
    Db_Exists drv sc ctx dbs key (rt, w) = ((rt, w), Panic nil_dereference) \<and>
    Db_Stats drv sc ctx dbs (rt, w) = ((rt, w), Panic nil_dereference)"
proof -
  note row = disconnected_row [OF assms(1)]
  have "Db_Store drv env md5hex ctx dbs key data m (rt, w) = ((rt, w), Ret (Some not_connected))"
    using assms by (auto simp: Db_Store_def Runtime_Exec_def exec_error_def Let_def)
  moreover have "Db_Delete drv env ctx dbs key (rt, w) = ((rt, w), Ret (Some not_connected))"
    using assms(1) by (simp add: Db_Delete_def Runtime_Exec_def exec_error_def)
  moreover have "Db_List drv env sc ctx dbs pre (rt, w) = ((rt, w), Ret (Inl not_connected))"
    using assms(1) by (simp add: Db_List_def Runtime_Query_def split: prod.split)
  ultimately show ?thesis by (simp add: Db_Retrieve_def Db_Exists_def Db_Stats_def row)
qed

definition empty_scan :: "nat blob_scan" where
  "empty_scan =
     \<lparr>scan_blob = \<lambda>h w. (w, Inl (ErrExt 7 ''sql: no rows in result set'')), scan_int = \<lambda>h w. (w, Inl (ErrExt 7 ''sql: no rows in result set'')),
      scan_stats = \<lambda>h w. (w, Inr (0, 0)), scan_info = \<lambda>h w. (w, Inl (ErrExt 7 ''sql: no rows in result set''))\<rparr>"

theorem disconnected_blob_storage_panics_witness:
  "Db_Retrieve (sample_driver (Inr 9)) empty_scan None \<lparr>tableName = ''blobs'', db_maxSize = 100\<rparr> ''k'' (NewDBRuntime (Time 1) None, 3) =
     ((NewDBRuntime (Time 1) None, 3), Panic nil_dereference)"
proof -
  let ?m = "\<lparr>bm_ContentType = [], bm_Filename = [], bm_Size = 0, bm_Checksum = [], bm_Tags = [], bm_CreatedAt = Time 0, bm_UpdatedAt = Time 0\<rparr>"
  have "\<not> IsConnected (NewDBRuntime (Time 1) None)"
    by (simp add: IsConnected_def NewDBRuntime_def NewConnectionManager_def Let_def)
  from disconnected_blob_storage_panics [OF this, of "''ab''" "\<lparr>tableName = ''blobs'', db_maxSize = 100\<rparr>" ?m _
      "sample_driver (Inr 9)" _ None "''k''" 3 empty_scan "''k''"]
  show ?thesis by simp
qed

end
