(* ===== verification/Go_Threads.thy ===== *)
theory Go_Threads
  imports Fluxor_Prelude
begin

text \<open>
  Goroutines that share a state. Each is at a point of its code; a step of the program is a step of one of them,
  which may change the shared state. A step between two points is one access to shared memory.
\<close>

section \<open>Interleaving\<close>

type_synonym ('s, 'p) thread_step = "nat \<Rightarrow> 's \<times> 'p \<Rightarrow> 's \<times> 'p \<Rightarrow> bool"

inductive par_step :: "('s, 'p) thread_step \<Rightarrow> 's \<times> 'p list \<Rightarrow> 's \<times> 'p list \<Rightarrow> bool"
  for step where
  par_one: "i < length ps \<Longrightarrow> step i (s, ps ! i) (s', p') \<Longrightarrow> par_step step (s, ps) (s', ps[i := p'])"

inductive_cases par_stepE: "par_step step (s, ps) c"

definition par_reach :: "('s, 'p) thread_step \<Rightarrow> 's \<times> 'p list \<Rightarrow> 's \<times> 'p list \<Rightarrow> bool" where
  "par_reach step = (par_step step)\<^sup>*\<^sup>*"

text \<open>A thread on its own.\<close>

definition solo_reach :: "('s, 'p) thread_step \<Rightarrow> nat \<Rightarrow> 's \<times> 'p \<Rightarrow> 's \<times> 'p \<Rightarrow> bool" where
  "solo_reach step i = (step i)\<^sup>*\<^sup>*"

lemma par_reach_refl: "par_reach step c c"
  by (simp add: par_reach_def)

lemma par_reach_trans: "par_reach step a b \<Longrightarrow> par_reach step b c \<Longrightarrow> par_reach step a c"
  unfolding par_reach_def by (rule rtranclp_trans)

lemma par_reach_one:
  "i < length ps \<Longrightarrow> step i (s, ps ! i) (s', p') \<Longrightarrow> par_reach step (s', ps[i := p']) c \<Longrightarrow> par_reach step (s, ps) c"
  unfolding par_reach_def by (rule converse_rtranclp_into_rtranclp) (rule par_one)

text \<open>What one thread does alone it can do among the others.\<close>

lemma par_reach_solo:
  assumes "solo_reach step i (s, p) (s', p')" "i < length ps" "ps ! i = p"
  shows "par_reach step (s, ps) (s', ps[i := p'])"
  using assms(1) unfolding solo_reach_def
proof (induction "(s', p')" arbitrary: s' p' rule: rtranclp_induct)
  case base
  then show ?case using assms(2,3) by (metis list_update_id par_reach_refl)
next
  case (step b)
  obtain s1 p1 where b: "b = (s1, p1)" by (cases b)
  have "par_step step (s1, ps[i := p1]) (s', ps[i := p1, i := p'])"
    by (rule par_one) (use step.hyps(2) b assms(2) in simp_all)
  with step.hyps(3) [OF b] show ?case
    unfolding par_reach_def by (metis list_update_overwrite rtranclp.rtrancl_into_rtrancl)
qed

lemma solo_reach_stuck:
  assumes "\<And>d. \<not> step i c d"
  shows "solo_reach step i c d \<longleftrightarrow> d = c"
  using assms unfolding solo_reach_def by (metis converse_rtranclpE rtranclp.rtrancl_refl)

lemma solo_reach_unfold:
  assumes "c \<noteq> d"
  shows "solo_reach step i c d \<longleftrightarrow> (\<exists>e. step i c e \<and> solo_reach step i e d)"
  using assms unfolding solo_reach_def
  by (metis converse_rtranclpE converse_rtranclp_into_rtranclp)

section \<open>Counting threads\<close>

definition threads :: "('p \<Rightarrow> bool) \<Rightarrow> 'p list \<Rightarrow> nat" where
  "threads P ps = length (filter P ps)"

lemma threads_update:
  assumes "i < length ps"
  shows "int (threads P (ps[i := p])) = int (threads P ps) - of_bool (P (ps ! i)) + of_bool (P p)"
  using assms
proof (induction ps arbitrary: i)
  case (Cons q ps)
  then show ?case by (cases i) (auto simp: threads_def)
qed simp

lemma threads_replicate [simp]: "threads P (replicate k p) = (if P p then k else 0)"
  by (simp add: threads_def)

lemma threads_le: "threads P ps \<le> length ps"
  by (simp add: threads_def)

lemma threads_pos: "i < length ps \<Longrightarrow> P (ps ! i) \<Longrightarrow> 0 < threads P ps"
  by (auto simp: threads_def filter_empty_conv)

lemma threads_mono: "(\<And>p. P p \<Longrightarrow> Q p) \<Longrightarrow> threads P ps \<le> threads Q ps"
  by (induction ps) (auto simp: threads_def)

section \<open>Invariants of threads\<close>

text \<open>What every step of every thread keeps, whatever the others are at, holds in every reachable state.\<close>

locale thread_invariant =
  fixes step :: "('s, 'p) thread_step"
    and inv :: "'s \<Rightarrow> 'p list \<Rightarrow> bool"
  assumes step_keeps: "inv s ps \<Longrightarrow> i < length ps \<Longrightarrow> step i (s, ps ! i) (s', p') \<Longrightarrow> inv s' (ps[i := p'])"
begin

lemma reach_inv: "par_reach step (s, ps) (s', ps') \<Longrightarrow> inv s ps \<Longrightarrow> inv s' ps'"
  unfolding par_reach_def
  by (induction "(s', ps')" arbitrary: s' ps' rule: rtranclp_induct) (auto elim!: par_step.cases dest: step_keeps)

end

lemma par_reach_length: "par_reach step (s, ps) (s', ps') \<Longrightarrow> length ps' = length ps"
  unfolding par_reach_def
  by (induction "(s', ps')" arbitrary: s' ps' rule: rtranclp_induct) (auto elim!: par_step.cases)

end
