(* ===== verification/Gate_Threads.thy ===== *)
theory Gate_Threads
  imports Gate Go_Threads
begin

text \<open>
  The gate of \<open>gate.go\<close> with any number of goroutines at once. The operations of the circuit breaker and of the
  connection limiter are not critical sections as a whole: \<open>Allow\<close> and \<open>RecordSuccess\<close> look at the
  state first and take the lock later, counters change without the lock. Here each operation is the sequence of its accesses
  to shared memory. A goroutine that runs alone does what the operation as one step does; with others in between, the
  limiter still keeps its limit, and the breaker does not keep its promise.
\<close>

section \<open>The circuit breaker\<close>

text \<open>
  Where a goroutine is in the code: before a call, between two accesses to the breaker with what it has read so far,
  or after the return.
\<close>

datatype cb_point =
    AllowCalled
  | AllowLoaded int
  | AllowLocked
  | AllowStored
  | AllowCleared
  | SuccessCalled
  | SuccessLoaded int
  | SuccessLocked
  | SuccessStored
  | SuccessCleared
  | FailureCalled
  | FailureLocked
  | FailureLoaded int
  | FailureAdded int int64
  | FailureTimed int int64
  | FailureStored string
  | CbReturned "go_error option"

text \<open>The breaker and the holder of the write lock of \<open>cb.mu\<close>.\<close>

type_synonym cb_shared = "CircuitBreaker \<times> nat option"

inductive cb_step :: "nat \<Rightarrow> cb_shared \<times> cb_point \<Rightarrow> cb_shared \<times> cb_point \<Rightarrow> bool" for i where
  allow_load: "cb_step i ((cb, None), AllowCalled) ((cb, None), AllowLoaded (cb_state cb))"
| allow_pass: "s \<noteq> circuitOpen \<Longrightarrow> cb_step i ((cb, l), AllowLoaded s) ((cb, l), CbReturned None)"
| allow_lock: "s = circuitOpen \<Longrightarrow> cb_step i ((cb, None), AllowLoaded s) ((cb, Some i), AllowLocked)"
| allow_refuse:
    "\<not> time_Sub now (lastFailureTime cb) > resetTimeout cb \<Longrightarrow>
     cb_step i ((cb, Some i), AllowLocked) ((cb, None), CbReturned (Some ErrCircuitOpen))"
| allow_store:
    "time_Sub now (lastFailureTime cb) > resetTimeout cb \<Longrightarrow>
     cb_step i ((cb, Some i), AllowLocked) ((cb\<lparr>cb_state := circuitHalfOpen\<rparr>, Some i), AllowStored)"
| allow_clear: "cb_step i ((cb, Some i), AllowStored) ((cb\<lparr>failureCount := 0\<rparr>, Some i), AllowCleared)"
| allow_notify:
    "cb_step i ((cb, Some i), AllowCleared)
       ((notify CircuitStateOpen CircuitStateHalfOpen cb, None), CbReturned None)"
| success_load: "cb_step i ((cb, l), SuccessCalled) ((cb, l), SuccessLoaded (cb_state cb))"
| success_lock: "s = circuitHalfOpen \<Longrightarrow> cb_step i ((cb, None), SuccessLoaded s) ((cb, Some i), SuccessLocked)"
| success_store: "cb_step i ((cb, Some i), SuccessLocked) ((cb\<lparr>cb_state := circuitClosed\<rparr>, Some i), SuccessStored)"
| success_clear: "cb_step i ((cb, Some i), SuccessStored) ((cb\<lparr>failureCount := 0\<rparr>, Some i), SuccessCleared)"
| success_notify:
    "cb_step i ((cb, Some i), SuccessCleared)
       ((notify CircuitStateHalfOpen CircuitStateClosed cb, None), CbReturned None)"
| success_zero: "s = circuitClosed \<Longrightarrow> cb_step i ((cb, l), SuccessLoaded s) ((cb\<lparr>failureCount := 0\<rparr>, l), CbReturned None)"
| success_skip:
    "s \<noteq> circuitHalfOpen \<Longrightarrow> s \<noteq> circuitClosed \<Longrightarrow> cb_step i ((cb, l), SuccessLoaded s) ((cb, l), CbReturned None)"
| failure_lock: "cb_step i ((cb, None), FailureCalled) ((cb, Some i), FailureLocked)"
| failure_load: "cb_step i ((cb, Some i), FailureLocked) ((cb, Some i), FailureLoaded (cb_state cb))"
| failure_add:
    "f = wrap64 (failureCount cb + 1) \<Longrightarrow>
     cb_step i ((cb, Some i), FailureLoaded s) ((cb\<lparr>failureCount := f\<rparr>, Some i), FailureAdded s f)"
| failure_time: "cb_step i ((cb, Some i), FailureAdded s f) ((cb\<lparr>lastFailureTime := now\<rparr>, Some i), FailureTimed s f)"
| failure_half:
    "s = circuitHalfOpen \<Longrightarrow>
     cb_step i ((cb, Some i), FailureTimed s f) ((cb\<lparr>cb_state := circuitOpen\<rparr>, Some i), FailureStored CircuitStateHalfOpen)"
| failure_trip:
    "s \<noteq> circuitHalfOpen \<Longrightarrow> s = circuitClosed \<and> f \<ge> maxFailures cb \<Longrightarrow>
     cb_step i ((cb, Some i), FailureTimed s f) ((cb\<lparr>cb_state := circuitOpen\<rparr>, Some i), FailureStored CircuitStateClosed)"
| failure_keep:
    "s \<noteq> circuitHalfOpen \<Longrightarrow> \<not> (s = circuitClosed \<and> f \<ge> maxFailures cb) \<Longrightarrow>
     cb_step i ((cb, Some i), FailureTimed s f) ((cb, None), CbReturned None)"
| failure_notify:
    "cb_step i ((cb, Some i), FailureStored from) ((notify from CircuitStateOpen cb, None), CbReturned None)"

inductive_simps cb_step_simps:
  "cb_step i (s, AllowCalled) c" "cb_step i (s, AllowLoaded n) c" "cb_step i (s, AllowLocked) c"
  "cb_step i (s, AllowStored) c" "cb_step i (s, AllowCleared) c"
  "cb_step i (s, SuccessCalled) c" "cb_step i (s, SuccessLoaded n) c" "cb_step i (s, SuccessLocked) c"
  "cb_step i (s, SuccessStored) c" "cb_step i (s, SuccessCleared) c"
  "cb_step i (s, FailureCalled) c" "cb_step i (s, FailureLocked) c" "cb_step i (s, FailureLoaded n) c"
  "cb_step i (s, FailureAdded n f) c" "cb_step i (s, FailureTimed n f) c" "cb_step i (s, FailureStored from) c"
  "cb_step i (s, CbReturned r) c"

text \<open>A goroutine on its own.\<close>

lemma solo_returned: "solo_reach cb_step i (s, CbReturned r) c \<longleftrightarrow> c = (s, CbReturned r)"
  by (rule solo_reach_stuck) (simp add: cb_step_simps)

lemma solo_running:
  assumes "\<forall>r. p \<noteq> CbReturned r"
  shows "solo_reach cb_step i (s, p) (s', CbReturned r) \<longleftrightarrow>
    (\<exists>t q. cb_step i (s, p) (t, q) \<and> solo_reach cb_step i (t, q) (s', CbReturned r))"
  using assms by (subst solo_reach_unfold) auto

lemmas solo_simps = solo_returned solo_running cb_step_simps conj_disj_distribR conj_disj_distribL ex_disj_distrib

lemma states_distinct:
  "circuitOpen \<noteq> circuitHalfOpen" "circuitOpen \<noteq> circuitClosed" "circuitHalfOpen \<noteq> circuitClosed"
  "circuitHalfOpen \<noteq> circuitOpen" "circuitClosed \<noteq> circuitOpen" "circuitClosed \<noteq> circuitHalfOpen"
  by (simp_all add: circuit_consts)

lemma solo_Allow:
  "solo_reach cb_step i ((cb, None), AllowCalled) ((cb', l), CbReturned r) \<longleftrightarrow>
     l = None \<and> (\<exists>now. CircuitBreaker_Allow now cb = (cb', r))"
  by (simp add: solo_simps CircuitBreaker_Allow_def) (auto split: if_splits)

lemma solo_RecordSuccess:
  "solo_reach cb_step i ((cb, None), SuccessCalled) ((cb', l), CbReturned r) \<longleftrightarrow>
     l = None \<and> r = None \<and> cb' = CircuitBreaker_RecordSuccess cb"
  by (simp add: solo_simps CircuitBreaker_RecordSuccess_def) (auto simp: states_distinct)

lemma solo_RecordFailure:
  "solo_reach cb_step i ((cb, None), FailureCalled) ((cb', l), CbReturned r) \<longleftrightarrow>
     l = None \<and> r = None \<and> (\<exists>now. cb' = CircuitBreaker_RecordFailure now cb)"
proof -
  let ?f = "wrap64 (failureCount cb + 1)"
  consider "cb_state cb = circuitHalfOpen" | "cb_state cb \<noteq> circuitHalfOpen" "cb_state cb = circuitClosed \<and> ?f \<ge> maxFailures cb"
    | "cb_state cb \<noteq> circuitHalfOpen" "\<not> (cb_state cb = circuitClosed \<and> ?f \<ge> maxFailures cb)" by blast
  then show ?thesis
  proof cases
    case 1
    then show ?thesis by (simp add: solo_simps CircuitBreaker_RecordFailure_def Let_def states_distinct) blast
  next
    case 2
    then show ?thesis by (simp add: solo_simps CircuitBreaker_RecordFailure_def Let_def states_distinct) auto
  next
    case 3
    then show ?thesis by (simp add: solo_simps CircuitBreaker_RecordFailure_def Let_def states_distinct) auto
  qed
qed

section \<open>The connection limiter\<close>

text \<open>
  \<open>ClOut\<close> is outside, with the error of the last call if it was refused; \<open>ClHolding\<close> has a slot. Only holders
  release.
\<close>

datatype cl_point =
    ClOut "go_error option"
  | AcquireCalled
  | AcquireLocked
  | AcquireChecked
  | AcquireWaiting
  | AcquireSent
  | ClHolding
  | ReleaseCalled
  | ReleaseReceived

type_synonym cl_shared = "ConnectionLimiter \<times> nat option"

definition waits_for_slot :: "ConnectionLimiter \<Rightarrow> bool" where
  "waits_for_slot cl \<longleftrightarrow> cl_mode cl = ''block'' \<or> cl_mode cl = ''timeout'' \<and> cl_timeout cl > 0"

inductive cl_step :: "nat \<Rightarrow> cl_shared \<times> cl_point \<Rightarrow> cl_shared \<times> cl_point \<Rightarrow> bool" for i where
  acquire_call: "cl_step i (s, ClOut e) (s, AcquireCalled)"
| acquire_lock: "sem cl = None \<Longrightarrow> cl_step i ((cl, None), AcquireCalled) ((cl, Some i), AcquireLocked)"
| acquire_refuse:
    "currentConnections cl \<ge> maxConnections cl \<Longrightarrow>
     cl_step i ((cl, Some i), AcquireLocked) ((cl, None), ClOut (Some ErrConnectionLimit))"
| acquire_check:
    "\<not> currentConnections cl \<ge> maxConnections cl \<Longrightarrow> cl_step i ((cl, Some i), AcquireLocked) ((cl, Some i), AcquireChecked)"
| acquire_add:
    "cl_step i ((cl, Some i), AcquireChecked)
       ((cl\<lparr>currentConnections := wrap64 (currentConnections cl + 1)\<rparr>, None), ClHolding)"
| acquire_send:
    "sem cl = Some n \<Longrightarrow> n < maxConnections cl \<Longrightarrow>
     cl_step i ((cl, l), AcquireCalled) ((cl\<lparr>sem := Some (n + 1)\<rparr>, l), AcquireSent)"
| acquire_full: "sem cl = Some n \<Longrightarrow> \<not> n < maxConnections cl \<Longrightarrow> cl_step i ((cl, l), AcquireCalled) ((cl, l), AcquireWaiting)"
| wait_send:
    "waits_for_slot cl \<Longrightarrow> sem cl = Some n \<Longrightarrow> n < maxConnections cl \<Longrightarrow>
     cl_step i ((cl, l), AcquireWaiting) ((cl\<lparr>sem := Some (n + 1)\<rparr>, l), AcquireSent)"
| wait_done: "waits_for_slot cl \<Longrightarrow> cl_step i ((cl, l), AcquireWaiting) ((cl, l), ClOut (Some e))"
| wait_timer:
    "cl_mode cl = ''timeout'' \<Longrightarrow> cl_timeout cl > 0 \<Longrightarrow>
     cl_step i ((cl, l), AcquireWaiting) ((cl, l), ClOut (Some ErrConnectionLimit))"
| wait_none: "\<not> waits_for_slot cl \<Longrightarrow> cl_step i ((cl, l), AcquireWaiting) ((cl, l), ClOut (Some ErrConnectionLimit))"
| acquire_count:
    "cl_step i ((cl, l), AcquireSent) ((cl\<lparr>currentConnections := wrap64 (currentConnections cl + 1)\<rparr>, l), ClHolding)"
| release_call: "cl_step i (s, ClHolding) (s, ReleaseCalled)"
| release_none: "sem cl = None \<Longrightarrow> cl_step i ((cl, l), ReleaseCalled) ((cl, l), ReleaseReceived)"
| release_receive:
    "sem cl = Some n \<Longrightarrow> n > 0 \<Longrightarrow> cl_step i ((cl, l), ReleaseCalled) ((cl\<lparr>sem := Some (n - 1)\<rparr>, l), ReleaseReceived)"
| release_empty: "sem cl = Some n \<Longrightarrow> \<not> n > 0 \<Longrightarrow> cl_step i ((cl, l), ReleaseCalled) ((cl, l), ReleaseReceived)"
| release_subtract:
    "cl_step i ((cl, l), ReleaseReceived) ((cl\<lparr>currentConnections := wrap64 (currentConnections cl - 1)\<rparr>, l), ClOut None)"

text \<open>Who is counted in \<open>currentConnections\<close>, who has a value in the semaphore, who holds the lock.\<close>

fun counted :: "cl_point \<Rightarrow> bool" where
  "counted ClHolding = True"
| "counted ReleaseCalled = True"
| "counted ReleaseReceived = True"
| "counted _ = False"

fun sent :: "cl_point \<Rightarrow> bool" where
  "sent AcquireSent = True"
| "sent ClHolding = True"
| "sent ReleaseCalled = True"
| "sent _ = False"

fun locking :: "cl_point \<Rightarrow> bool" where
  "locking AcquireLocked = True"
| "locking AcquireChecked = True"
| "locking _ = False"

text \<open>The counters are right.\<close>

definition cl_counts :: "ConnectionLimiter \<Rightarrow> cl_point list \<Rightarrow> bool" where
  "cl_counts cl ps \<longleftrightarrow>
     0 < maxConnections cl \<and> maxConnections cl < 2 ^ 63 \<and> int (length ps) < 2 ^ 63 \<and>
     currentConnections cl = int (threads counted ps) \<and>
     (case sem cl of None \<Rightarrow> True | Some n \<Rightarrow> n = int (threads sent ps) \<and> n \<le> maxConnections cl)"

text \<open>At most one thread is in the locked section, and one that passed the test there finds it still true.\<close>

definition cl_exclusive :: "cl_shared \<Rightarrow> cl_point list \<Rightarrow> bool" where
  "cl_exclusive s ps \<longleftrightarrow>
     (\<forall>j < length ps. locking (ps ! j) \<longrightarrow> snd s = Some j \<and> sem (fst s) = None) \<and>
     (\<forall>j < length ps. ps ! j = AcquireChecked \<longrightarrow> currentConnections (fst s) < maxConnections (fst s))"

definition cl_path :: "ConnectionLimiter \<Rightarrow> cl_point list \<Rightarrow> bool" where
  "cl_path cl ps \<longleftrightarrow>
     (sem cl = None \<longrightarrow> currentConnections cl \<le> maxConnections cl \<and>
        (\<forall>j < length ps. ps ! j \<noteq> AcquireWaiting \<and> ps ! j \<noteq> AcquireSent))"

definition cl_inv :: "cl_shared \<Rightarrow> cl_point list \<Rightarrow> bool" where
  "cl_inv s ps \<longleftrightarrow> cl_counts (fst s) ps \<and> cl_exclusive s ps \<and> cl_path (fst s) ps"

lemma cl_counts_step:
  assumes "cl_counts (fst s) ps" "i < length ps" "cl_step i (s, ps ! i) (s', p')" "cl_exclusive s ps"
  shows "cl_counts (fst s') (ps[i := p'])"
proof -
  note upd = threads_update [OF assms(2), of counted p'] threads_update [OF assms(2), of sent p']
  have pos: "counted (ps ! i) \<longrightarrow> 0 < threads counted ps" "sent (ps ! i) \<longrightarrow> 0 < threads sent ps"
    using threads_pos [OF assms(2)] by blast+
  have less: "in_int64 (int (threads counted ps) - 1)"
    using threads_le [of counted ps] assms(1) by (simp add: cl_counts_def in_int64_def)
  have excl: "locking (ps ! i) \<longrightarrow> sem (fst s) = None" using assms(2,4) by (simp add: cl_exclusive_def)
  have room: "int (threads counted ps) + 1 < 2 ^ 63" if "\<not> counted (ps ! i)"
  proof -
    have "threads counted (ps[i := ClHolding]) \<le> length ps" using threads_le [of counted "ps[i := ClHolding]"] by simp
    with threads_update [OF assms(2), of counted ClHolding] that assms(1) show ?thesis
      by (simp add: cl_counts_def)
  qed
  from assms(3) show ?thesis
    using assms(1) upd pos room excl less
    by (cases rule: cl_step.cases)
      (simp_all add: cl_counts_def in_int64_def split: option.splits)
qed

text \<open>While another thread has the lock, a thread cannot take it, and can only lower the counter.\<close>

lemma cl_step_unlocked:
  assumes "cl_step i (s, p) (s', p')" "snd s = Some j" "j \<noteq> i" "sem (fst s) = None" "p \<noteq> AcquireSent"
    and "in_int64 (currentConnections (fst s) - 1)"
  shows "snd s' = Some j \<and> sem (fst s') = None \<and> maxConnections (fst s') = maxConnections (fst s) \<and>
    currentConnections (fst s') \<le> currentConnections (fst s) \<and> \<not> locking p'"
  using assms by (cases rule: cl_step.cases) simp_all

lemma cl_step_locking:
  assumes "cl_step i (s, p) (s', p')" "locking p'" "locking p \<longrightarrow> sem (fst s) = None"
  shows "snd s' = Some i \<and> sem (fst s') = None \<and>
    (p' = AcquireChecked \<longrightarrow> currentConnections (fst s') < maxConnections (fst s'))"
  using assms by (cases rule: cl_step.cases) simp_all

lemma cl_exclusive_step:
  assumes "cl_inv s ps" "i < length ps" "cl_step i (s, ps ! i) (s', p')"
  shows "cl_exclusive s' (ps[i := p'])"
proof -
  have inv: "cl_counts (fst s) ps" "cl_exclusive s ps" "cl_path (fst s) ps" using assms(1) by (simp_all add: cl_inv_def)
  have int64: "in_int64 (currentConnections (fst s) - 1)"
    using inv(1) threads_le [of counted ps] by (simp add: cl_counts_def in_int64_def)
  have "snd s' = Some j \<and> sem (fst s') = None \<and>
      (ps[i := p'] ! j = AcquireChecked \<longrightarrow> currentConnections (fst s') < maxConnections (fst s'))"
    if j: "j < length ps" "locking (ps[i := p'] ! j)" for j
  proof (cases "j = i")
    case True
    with j assms(2) cl_step_locking [OF assms(3)] inv(2) show ?thesis by (simp add: cl_exclusive_def)
  next
    case False
    with j have l: "locking (ps ! j)" "ps[i := p'] ! j = ps ! j" by simp_all
    with inv(2) j(1) have s: "snd s = Some j" "sem (fst s) = None"
      "ps ! j = AcquireChecked \<longrightarrow> currentConnections (fst s) < maxConnections (fst s)"
      by (simp_all add: cl_exclusive_def)
    moreover have "ps ! i \<noteq> AcquireSent" using inv(3) s(2) assms(2) by (simp add: cl_path_def)
    ultimately show ?thesis using cl_step_unlocked [OF assms(3) s(1) False s(2) _ int64] l(2) by force
  qed
  then show ?thesis by (auto simp: cl_exclusive_def dest: sym)
qed

lemma cl_path_step:
  assumes "cl_inv s ps" "i < length ps" "cl_step i (s, ps ! i) (s', p')"
  shows "cl_path (fst s') (ps[i := p'])"
proof -
  have inv: "cl_counts (fst s) ps" "cl_exclusive s ps" "cl_path (fst s) ps" using assms(1) by (simp_all add: cl_inv_def)
  have int64: "in_int64 (currentConnections (fst s) - 1)" "0 \<le> currentConnections (fst s)" "maxConnections (fst s) < 2 ^ 63"
    using inv(1) threads_le [of counted ps] by (simp_all add: cl_counts_def in_int64_def)
  have i: "ps ! i = AcquireChecked \<longrightarrow> currentConnections (fst s) < maxConnections (fst s)"
    using inv(2) assms(2) by (simp add: cl_exclusive_def)
  have ps: "sem (fst s) = None \<longrightarrow> currentConnections (fst s) \<le> maxConnections (fst s) \<and> ps ! i \<noteq> AcquireWaiting \<and> ps ! i \<noteq> AcquireSent"
    using inv(3) assms(2) by (simp add: cl_path_def)
  have "sem (fst s') = None \<longrightarrow> sem (fst s) = None \<and> currentConnections (fst s') \<le> maxConnections (fst s') \<and>
      p' \<noteq> AcquireWaiting \<and> p' \<noteq> AcquireSent"
    using assms(3) i ps int64 by (cases rule: cl_step.cases) (auto simp: in_int64_def)
  with inv(3) assms(2) show ?thesis by (auto simp: cl_path_def nth_list_update)
qed

lemma cl_inv_step:
  assumes "cl_inv s ps" "i < length ps" "cl_step i (s, ps ! i) (s', p')"
  shows "cl_inv s' (ps[i := p'])"
proof -
  have "cl_counts (fst s) ps" "cl_exclusive s ps" using assms(1) by (simp_all add: cl_inv_def)
  from cl_counts_step [OF this(1) assms(2,3) this(2)] cl_exclusive_step [OF assms] cl_path_step [OF assms]
  show ?thesis by (simp add: cl_inv_def)
qed

interpretation cl_threads: thread_invariant cl_step cl_inv
  by (unfold_locales) (rule cl_inv_step)

lemma cl_inv_new:
  assumes "limiter_config_ok config" "int k < 2 ^ 63"
  shows "cl_inv (NewConnectionLimiter config, None) (replicate k (ClOut None))"
  using NewConnectionLimiter_inv [OF assms(1)] assms(2)
  by (auto simp: cl_inv_def cl_counts_def cl_exclusive_def cl_path_def limiter_inv_def split: option.split if_splits)

section \<open>Properties\<close>

text \<open>
  C6. A goroutine that is alone with the circuit breaker gets from each operation, access by access, exactly what the
  operation as one step gives: the same state, the same answer, the lock free again.
\<close>

theorem alone_is_atomic:
  "(solo_reach cb_step i ((cb, None), AllowCalled) ((cb', l), CbReturned r) \<longleftrightarrow>
     l = None \<and> (\<exists>now. CircuitBreaker_Allow now cb = (cb', r))) \<and>
   (solo_reach cb_step i ((cb, None), SuccessCalled) ((cb', l), CbReturned r) \<longleftrightarrow>
     l = None \<and> r = None \<and> cb' = CircuitBreaker_RecordSuccess cb) \<and>
   (solo_reach cb_step i ((cb, None), FailureCalled) ((cb', l), CbReturned r) \<longleftrightarrow>
     l = None \<and> r = None \<and> (\<exists>now. cb' = CircuitBreaker_RecordFailure now cb))"
  by (simp only: solo_Allow solo_RecordSuccess solo_RecordFailure simp_thms)

text \<open>
  C7. Two goroutines that are not alone break the promise of the breaker. One has a success to record and reads that the
  breaker is half-open; the other records a failure, which opens the breaker and must make it refuse until the reset timeout
  has passed; the first one then closes it. The last failure is as recent as before, and every request passes.
\<close>

theorem success_closes_opened_breaker:
  assumes "cb_state cb = circuitHalfOpen"
  shows "\<exists>cb1 cb2.
    par_reach cb_step ((cb, None), [SuccessCalled, FailureCalled])
      ((cb1, None), [SuccessLoaded circuitHalfOpen, CbReturned None]) \<and>
    par_reach cb_step ((cb1, None), [SuccessLoaded circuitHalfOpen, CbReturned None])
      ((cb2, None), [CbReturned None, CbReturned None]) \<and>
    lastFailureTime cb1 = now \<and> lastFailureTime cb2 = now \<and>
    (\<forall>t. time_Sub t now \<le> resetTimeout cb \<longrightarrow> CircuitBreaker_Allow t cb1 = (cb1, Some ErrCircuitOpen)) \<and>
    (\<forall>t. CircuitBreaker_Allow t cb2 = (cb2, None))"
proof -
  let ?cb1 = "CircuitBreaker_RecordFailure now cb"
  let ?cb2 = "notify CircuitStateHalfOpen CircuitStateClosed (?cb1\<lparr>cb_state := circuitClosed, failureCount := 0\<rparr>)"
  have load: "cb_step 0 ((cb, None), [SuccessCalled, FailureCalled] ! 0) ((cb, None), SuccessLoaded circuitHalfOpen)"
    using assms by (simp add: cb_step_simps)
  have "solo_reach cb_step 1 ((cb, None), FailureCalled) ((?cb1, None), CbReturned None)" by (simp add: solo_RecordFailure) blast
  from par_reach_solo [OF this, of "[SuccessLoaded circuitHalfOpen, FailureCalled]"]
  have one: "par_reach cb_step ((cb, None), [SuccessCalled, FailureCalled])
      ((?cb1, None), [SuccessLoaded circuitHalfOpen, CbReturned None])"
    using par_reach_one [of 0 "[SuccessCalled, FailureCalled]" cb_step, OF _ load] by simp
  have "solo_reach cb_step 0 ((?cb1, None), SuccessLoaded circuitHalfOpen) ((?cb2, None), CbReturned None)"
    by (simp add: solo_simps states_distinct)
  from par_reach_solo [OF this, of "[SuccessLoaded circuitHalfOpen, CbReturned None]"]
  have two: "par_reach cb_step ((?cb1, None), [SuccessLoaded circuitHalfOpen, CbReturned None])
      ((?cb2, None), [CbReturned None, CbReturned None])" by simp
  have fields: "cb_state ?cb1 = circuitOpen" "lastFailureTime ?cb1 = now" "resetTimeout ?cb1 = resetTimeout cb"
      "cb_state ?cb2 = circuitClosed" "lastFailureTime ?cb2 = now"
    using assms by (simp_all add: CircuitBreaker_RecordFailure_def notify_def Let_def)
  then show ?thesis
    using one two by (intro exI [of _ ?cb1] exI [of _ ?cb2]) (simp add: CircuitBreaker_Allow_def states_distinct)
qed

text \<open>
  C8. The connection limiter keeps its limit however its goroutines interleave: in every reachable state, in all
  backpressure modes, no more of them hold a slot than there are slots, and the counter is the number of those that hold
  one or are giving it back.
\<close>

theorem slots_bounded_in_interleavings:
  assumes "limiter_config_ok config" and "int k < 2 ^ 63"
    and "par_reach cl_step ((NewConnectionLimiter config, None), replicate k (ClOut None)) ((cl, l), ps)"
  shows "int (threads (\<lambda>p. p = ClHolding) ps) \<le> maxConnections cl \<and> CurrentConnections cl = int (threads counted ps)"
proof -
  have inv: "cl_inv (cl, l) ps" by (rule cl_threads.reach_inv [OF assms(3) cl_inv_new [OF assms(1,2)]])
  have "threads (\<lambda>p. p = ClHolding) ps \<le> threads counted ps" "threads (\<lambda>p. p = ClHolding) ps \<le> threads sent ps"
    by (auto intro: threads_mono)
  with inv show ?thesis
    by (cases "sem cl") (auto simp: cl_inv_def cl_counts_def cl_path_def CurrentConnections_def)
qed

section \<open>Witnesses\<close>

theorem success_closes_opened_breaker_witness:
  "\<exists>cb2. par_reach cb_step (((NewCircuitBreaker None)\<lparr>cb_state := circuitHalfOpen\<rparr>, None), [SuccessCalled, FailureCalled])
      ((cb2, None), [CbReturned None, CbReturned None]) \<and> lastFailureTime cb2 = Time 5 \<and>
    (\<forall>t. CircuitBreaker_Allow t cb2 = (cb2, None))"
  using success_closes_opened_breaker [of "(NewCircuitBreaker None)\<lparr>cb_state := circuitHalfOpen\<rparr>" "Time 5"]
  by (auto intro: par_reach_trans)

theorem slots_bounded_in_interleavings_witness:
  "CurrentConnections ((NewConnectionLimiter None)\<lparr>currentConnections := 1\<rparr>) = int (threads counted [ClHolding, ClOut None])"
proof -
  let ?cl = "NewConnectionLimiter None"
  have free: "sem ?cl = None" "currentConnections ?cl = 0" "maxConnections ?cl = 100"
    by (simp_all add: NewConnectionLimiter_def)
  have "solo_reach cl_step 0 ((?cl, None), ClOut None) ((?cl\<lparr>currentConnections := 1\<rparr>, None), ClHolding)"
    unfolding solo_reach_def
    by (rule converse_rtranclp_into_rtranclp, rule acquire_call, rule converse_rtranclp_into_rtranclp, rule acquire_lock,
        simp add: free, rule converse_rtranclp_into_rtranclp, rule acquire_check, simp add: free,
        rule r_into_rtranclp, rule back_subst [of "cl_step 0 _", OF acquire_add], simp add: free in_int64_def)
  from par_reach_solo [OF this, of "[ClOut None, ClOut None]"]
  have "par_reach cl_step ((?cl, None), replicate 2 (ClOut None)) ((?cl\<lparr>currentConnections := 1\<rparr>, None), [ClHolding, ClOut None])"
    by (simp add: numeral_2_eq_2)
  from slots_bounded_in_interleavings [OF _ _ this] show ?thesis by (simp add: limiter_config_ok_def)
qed

end
