(* ===== verification/Runtime_Types.thy ===== *)
theory Runtime_Types
  imports Runtime
begin

text \<open>
  The type of a runtime's state: the ranges its fields keep when the components work
  together. The invariants of the circuit breaker, the rate limiter, the statement cache and the
  cache hold on their own; here the calls of the runtime and of its transactions interleave, other goroutines
  take and release slots during a wait, and every counter wraps where the source's \<open>int64\<close> does.
\<close>

section \<open>Well-typed components\<close>

definition circuit_typed :: "CircuitBreaker \<Rightarrow> bool" where
  "circuit_typed cb \<longleftrightarrow>
     circuit_inv (maxFailures cb) (resetTimeout cb) cb \<and> in_int64 (failureCount cb)"

text \<open>The counter may be wrong after a release too many, the semaphore never overflows.\<close>

definition limiter_typed :: "ConnectionLimiter \<Rightarrow> bool" where
  "limiter_typed cl \<longleftrightarrow>
     0 < maxConnections cl \<and> maxConnections cl < 2 ^ 63 \<and> in_int64 (currentConnections cl) \<and>
     (case sem cl of
        None \<Rightarrow> cl_mode cl \<notin> {''block'', ''timeout''}
      | Some n \<Rightarrow> cl_mode cl \<in> {''block'', ''timeout''} \<and> 0 \<le> n \<and> n \<le> maxConnections cl)"

definition gate_typed :: "ConnectionGate \<Rightarrow> bool" where
  "gate_typed cg \<longleftrightarrow>
     circuit_typed (circuitBreaker cg) \<and>
     rate_inv (refillRate (rateLimiter cg)) (rateLimiter cg) \<and>
     limiter_typed (connectionLimiter cg)"

definition metrics_typed :: "DBMetrics \<Rightarrow> bool" where
  "metrics_typed m \<longleftrightarrow>
     in_int64 (TotalQueries m) \<and> in_int64 (SuccessfulQueries m) \<and> in_int64 (FailedQueries m) \<and>
     in_int64 (TotalQueryTime m) \<and> in_int64 (SlowQueries m) \<and> 0 < SlowQueryThreshold m"

definition adb_typed :: "AdvancedDB \<Rightarrow> bool" where
  "adb_typed adb \<longleftrightarrow>
     psc_inv (stmtCache adb) \<and> metrics_typed (metrics adb) \<and> 0 < queryTimeout adb \<and>
     0 < MaxRetries (retryPolicy adb) \<and> 0 < InitialBackoff (retryPolicy adb)"

text \<open>The table of tracked connections: one entry for a number, which carries it.\<close>

definition table_typed :: "ConnectionManager \<Rightarrow> bool" where
  "table_typed cm \<longleftrightarrow>
     distinct (map fst (activeConnections cm)) \<and> list_all (\<lambda>(i, c). tc_ID c = i) (activeConnections cm)"

definition cache_typed :: "cache_value InMemoryCache \<Rightarrow> bool" where
  "cache_typed c \<longleftrightarrow> cache_inv c \<and> 0 < defaultTTL c"

definition runtime_typed :: "DBRuntime \<Rightarrow> bool" where
  "runtime_typed rt \<longleftrightarrow>
     runtime_inv rt \<and> gate_typed (rt_gate rt) \<and> table_typed (connManager rt) \<and>
     pred_option adb_typed (advancedDB rt) \<and> pred_option cache_typed (rt_cache rt)"

text \<open>
  The calls of a program on a runtime, on the transactions it has begun, and on its connection manager for tracked
  connections.
\<close>

datatype tx_event =
    OnRuntime rt_event
  | TxExec handle go_context string "go_value list"
  | TxQuery handle go_context string "go_value list"
  | TxCommit handle
  | TxRollback handle
  | TrackedAcquire go_context
  | TrackedRelease handle

definition on_manager ::
    "(ConnectionManager \<times> 'w \<Rightarrow> (ConnectionManager \<times> 'w) \<times> 'a) \<Rightarrow> 'w rt_state \<Rightarrow> 'w rt_state \<times> 'a" where
  "on_manager f = (\<lambda>(rt, w). (case f (connManager rt, w) of ((cm, w1), r) \<Rightarrow> ((rt\<lparr>connManager := cm\<rparr>, w1), r)))"

fun tx_step :: "'w sql_driver \<Rightarrow> 'w rt_state \<Rightarrow> tx_event \<Rightarrow> 'w rt_state \<times> rt_answer" where
  "tx_step drv st (OnRuntime e) = rt_step drv st e"
| "tx_step drv st (TxExec tx ctx q args) =
     map_prod id AnsHandle (on_advancedDB (\<lambda>s. map_prod id Ret (AdvancedTx_Exec drv tx ctx q args s)) st)"
| "tx_step drv st (TxQuery tx ctx q args) =
     map_prod id AnsHandle (on_advancedDB (\<lambda>s. map_prod id Ret (AdvancedTx_Query drv tx ctx q args s)) st)"
| "tx_step drv st (TxCommit tx) =
     map_prod id AnsError (on_advancedDB (\<lambda>s. map_prod id Ret (AdvancedTx_Commit drv tx s)) st)"
| "tx_step drv st (TxRollback tx) =
     map_prod id AnsError (on_advancedDB (\<lambda>s. map_prod id Ret (AdvancedTx_Rollback drv tx s)) st)"
| "tx_step drv st (TrackedAcquire ctx) = map_prod id (\<lambda>r. AnsHandle (Ret r)) (on_manager (AcquireConnection drv ctx) st)"
| "tx_step drv st (TrackedRelease conn) =
     map_prod id (\<lambda>_. AnsNothing) (on_manager (\<lambda>s. (ReleaseConnection drv conn s, ())) st)"

text \<open>A cache that a program sets is one that \<open>NewInMemoryCache\<close> made with a lifetime, in whatever state it is by then.\<close>

fun typed_event :: "tx_event \<Rightarrow> bool" where
  "typed_event (OnRuntime (RSetCache c)) \<longleftrightarrow> pred_option cache_typed c"
| "typed_event e \<longleftrightarrow> True"

section \<open>The gate\<close>

lemma in_int64_zero: "in_int64 0"
  by (simp add: in_int64_def)

lemma circuit_typed_step: "circuit_typed cb \<Longrightarrow> circuit_typed (fst (circuit_step cb e))"
  unfolding circuit_typed_def
  by (cases e; rule conjI; (rule circuit_inv_ops)?; simp add: circuit_op_defs in_int64_zero Let_def)

lemma circuit_typed_ops:
  assumes "circuit_typed cb"
  shows "circuit_typed (fst (CircuitBreaker_Allow t cb))" "circuit_typed (CircuitBreaker_RecordSuccess cb)"
    "circuit_typed (CircuitBreaker_RecordFailure t cb)"
  using circuit_typed_step [OF assms, of "EvAllow t"] circuit_typed_step [OF assms, of EvSuccess]
    circuit_typed_step [OF assms, of "EvFailure t"] by simp_all

lemma limiter_typed_Release: "limiter_typed cl \<Longrightarrow> limiter_typed (Release cl)"
  by (auto simp: limiter_typed_def Release_def Let_def split: option.split)

lemma limiter_typed_send: "limiter_typed cl \<Longrightarrow> limiter_typed (fst (send_slot cl))"
  by (auto simp: limiter_typed_def send_slot_def split: option.split)

lemma limiter_typed_Acquire: "limiter_typed cl \<Longrightarrow> limiter_typed (fst (Acquire cl))"
  by (auto simp: limiter_typed_def Acquire_def split: option.splits)

lemma limiter_typed_others: "limiter_typed cl \<Longrightarrow> limiter_typed (limiter_others ops cl)"
  by (induction ops cl rule: limiter_others.induct)
    (simp_all add: limiter_typed_send limiter_typed_Release)

lemma limiter_typed_AcquireWithContext:
  assumes "limiter_typed cl"
  shows "limiter_typed (fst (AcquireWithContext others sel cl))"
proof (cases "sem cl = None")
  case True
  with assms show ?thesis by (simp add: AcquireWithContext_def limiter_typed_Acquire)
next
  case False
  show ?thesis
  proof (cases cl rule: send_slot_cases)
    case (taken cl1)
    with False limiter_typed_send [OF assms] show ?thesis by (auto simp: AcquireWithContext_def)
  next
    case full
    with False assms show ?thesis
      by (auto simp: AcquireWithContext_def Let_def limiter_typed_send limiter_typed_others split: select_case.split)
  qed
qed

lemma NewConnectionGate_typed:
  assumes "gate_config_ok config"
  shows "gate_typed (NewConnectionGate now config)"
proof -
  have "limiter_typed (NewConnectionLimiter config)"
    using assms
    by (cases config) (auto simp: gate_config_ok_def limiter_config_ok_def limiter_typed_def NewConnectionLimiter_def in_int64_def Let_def)
  then show ?thesis
    using NewConnectionGate_inv [OF assms, of now]
    by (simp add: gate_typed_def gate_inv_def circuit_typed_def in_int64_def NewConnectionGate_def)
qed

lemma gate_typed_Allow:
  assumes "gate_typed cg"
  shows "gate_typed (fst (ConnectionGate_Allow clk others sel cg))"
proof -
  obtain cb e1 where cb: "CircuitBreaker_Allow (at_circuit clk) (circuitBreaker cg) = (cb, e1)" by fastforce
  obtain rl e2 where rl: "RateLimiter_Allow (at_rate clk) (rateLimiter cg) = (rl, e2)" by fastforce
  obtain cl e3 where cl: "AcquireWithContext others sel (connectionLimiter cg) = (cl, e3)" by fastforce
  have "circuit_typed cb" "rate_inv (refillRate rl) rl" "limiter_typed cl"
    using assms circuit_typed_ops(1) [of "circuitBreaker cg" "at_circuit clk"] rate_inv_Allow [of "rateLimiter cg" "at_rate clk"]
      limiter_typed_AcquireWithContext [of "connectionLimiter cg" others sel]
    by (simp_all add: gate_typed_def cb rl cl)
  with assms cb rl cl show ?thesis
    by (auto simp: ConnectionGate_Allow_def gate_typed_def circuit_typed_ops
        split: prod.split option.split outcome.split)
qed

lemma gate_typed_Success: "gate_typed cg \<Longrightarrow> gate_typed (ConnectionGate_RecordSuccess cg)"
  by (simp add: gate_typed_def ConnectionGate_RecordSuccess_def circuit_typed_ops)

lemma gate_typed_Failure: "gate_typed cg \<Longrightarrow> gate_typed (ConnectionGate_RecordFailure now cg)"
  by (simp add: gate_typed_def ConnectionGate_RecordFailure_def circuit_typed_ops limiter_typed_Release)

lemma gate_typed_Execute:
  assumes "gate_typed cg" "ExecuteWithGate clk others sel op (cg, s) = ((cg', s'), r)"
  shows "gate_typed cg'"
  using assms(2) gate_typed_Allow [OF assms(1), of clk others sel]
  by (auto simp: ExecuteWithGate_def gate_typed_Success gate_typed_Failure
      split: prod.splits outcome.splits option.splits sum.splits)

section \<open>The operations of the wrapper\<close>

lemma metrics_typed_RecordQuery: "metrics_typed m \<Longrightarrow> metrics_typed (RecordQuery d err m)"
  by (simp add: metrics_typed_def RecordQuery_def Let_def)

lemma adb_typed_elapsed: "adb_typed adb \<Longrightarrow> adb_typed (record_elapsed drv start w adb)"
  by (simp add: adb_typed_def record_elapsed_def metrics_typed_RecordQuery)

lemma adb_typed_New: "adb_typed (NewAdvancedDB db config)"
  by (auto simp: adb_typed_def NewAdvancedDB_def NewPreparedStatementCache_inv NewRetryPolicy_fields
      metrics_typed_def NewDBMetrics_def in_int64_def Second_def Let_def split: option.split)

text \<open>An operation of the wrapper that keeps pool, gate and wrapper well typed keeps the runtime so.\<close>

locale typed_operation =
  fixes f :: "'w db_state \<Rightarrow> 'w db_state \<times> 'a outcome"
  assumes typed: "f (cg, adb, w) = ((cg', adb', w'), r) \<Longrightarrow> gate_typed cg \<Longrightarrow> adb_typed adb \<Longrightarrow>
      gate_typed cg' \<and> adb_typed adb' \<and> adb_db adb' = adb_db adb"
begin

lemma on_runtime:
  assumes "runtime_typed rt"
  shows "runtime_typed (fst (fst (on_advancedDB f (rt, w))))"
proof (cases "advancedDB rt")
  case None
  with assms show ?thesis by (simp add: on_advancedDB_def)
next
  case (Some adb)
  obtain cg1 adb1 w1 r where f: "f (rt_gate rt, adb, w) = ((cg1, adb1, w1), r)" by (metis surj_pair)
  from typed [OF f] assms Some have "gate_typed cg1" "adb_typed adb1" "adb_db adb1 = adb_db adb"
    by (simp_all add: runtime_typed_def)
  with f Some assms show ?thesis
    by (auto simp: runtime_typed_def on_advancedDB_def runtime_inv_def split: option.splits)
qed

end

lemma gated_typed:
  assumes "gated drv env operation ctx (cg, adb, w) = ((cg', adb', w'), r)" "gate_typed cg" "adb_typed adb"
  shows "gate_typed cg' \<and> adb_typed adb' \<and> adb_db adb' = adb_db adb"
proof -
  have "gate_typed cg'"
    using assms by (auto simp: gated_def Let_def split: prod.splits outcome.splits dest: gate_typed_Execute)
  moreover have "adb_typed adb'"
    using assms by (auto simp: gated_def Let_def adb_typed_elapsed split: prod.splits outcome.splits)
  ultimately show ?thesis using gated_db [OF assms(1)] by simp
qed

interpretation exec_typed: typed_operation "AdvancedDB_Exec drv env ctx q args" for drv env ctx q args
  unfolding AdvancedDB_Exec_def by unfold_locales (rule gated_typed)

interpretation query_typed: typed_operation "AdvancedDB_Query drv env ctx q args" for drv env ctx q args
  unfolding AdvancedDB_Query_def by unfold_locales (rule gated_typed)

interpretation row_typed: typed_operation
  "\<lambda>s. map_prod id (\<lambda>h. Ret (Some h)) (AdvancedDB_QueryRow drv ctx q args s)" for drv ctx q args
  by unfold_locales
    (auto simp: AdvancedDB_QueryRow_def Let_def record_elapsed_def adb_typed_def metrics_typed_RecordQuery
      split: prod.splits)

interpretation prepare_typed: typed_operation "\<lambda>s. map_prod id Ret (AdvancedDB_Prepare drv pick ctx q s)"
  for drv pick ctx q
  by unfold_locales
    (auto simp: AdvancedDB_Prepare_def adb_typed_def stmts.store_inv split: option.splits prod.splits sum.splits)

interpretation begin_typed: typed_operation "AdvancedDB_Begin drv env ctx" for drv env ctx
  by unfold_locales (auto simp: AdvancedDB_Begin_def Let_def split: prod.splits outcome.splits dest: gate_typed_Execute)

interpretation tx_exec_typed: typed_operation "\<lambda>s. map_prod id Ret (AdvancedTx_Exec drv tx ctx q args s)"
  for drv tx ctx q args
  by unfold_locales
    (auto simp: AdvancedTx_Exec_def Let_def adb_typed_def metrics_typed_RecordQuery split: prod.splits)

interpretation tx_query_typed: typed_operation "\<lambda>s. map_prod id Ret (AdvancedTx_Query drv tx ctx q args s)"
  for drv tx ctx q args
  by unfold_locales
    (auto simp: AdvancedTx_Query_def Let_def record_elapsed_def adb_typed_def metrics_typed_RecordQuery
      split: prod.splits)

interpretation commit_typed: typed_operation "\<lambda>s. map_prod id Ret (AdvancedTx_Commit drv tx s)" for drv tx
  by unfold_locales
    (auto simp: AdvancedTx_Commit_def gate_typed_Success gate_typed_Failure split: prod.splits option.splits)

interpretation rollback_typed: typed_operation "\<lambda>s. map_prod id Ret (AdvancedTx_Rollback drv tx s)" for drv tx
  by unfold_locales (auto simp: AdvancedTx_Rollback_def gate_typed_Failure split: prod.splits option.splits)

section \<open>The operations of the runtime\<close>

lemma Open_tracking:
  assumes "ConnectionManager_Open drv (cm, w) = ((cm', w'), r)"
  shows "table_typed cm' = table_typed cm"
proof -
  have "activeConnections cm' = activeConnections cm"
    using assms
    by (auto simp: ConnectionManager_Open_def LeakDetector_Start_def Let_def
        split: if_splits prod.splits sum.splits option.splits)
  then show ?thesis by (simp add: table_typed_def)
qed

lemma Close_tracking:
  assumes "ConnectionManager_Close drv (cm, w) = ((cm', w'), r)" "table_typed cm"
  shows "table_typed cm'"
proof -
  have "activeConnections cm' \<in> {[], activeConnections cm}"
    using assms(1)
    by (auto simp: ConnectionManager_Close_def LeakDetector_Stop_def Let_def
        split: outcome.splits option.splits if_splits prod.splits)
  with assms(2) show ?thesis by (auto simp: table_typed_def)
qed

lemma table_typed_update:
  "distinct (map fst xs) \<and> list_all (\<lambda>(i, c). tc_ID c = i) xs \<Longrightarrow> tc_ID x = i \<Longrightarrow>
   distinct (map fst (AList.update i x xs)) \<and> list_all (\<lambda>(i, c). tc_ID c = i) (AList.update i x xs)"
proof (rule conjI)
  assume "distinct (map fst xs) \<and> list_all (\<lambda>(i, c). tc_ID c = i) xs" "tc_ID x = i"
  then show "list_all (\<lambda>(i, c). tc_ID c = i) (AList.update i x xs)" by (induction xs) auto
qed (simp add: distinct_update)

lemma table_typed_track: "table_typed cm \<Longrightarrow> table_typed (trackConnection now cm)"
  by (simp add: table_typed_def trackConnection_def Let_def table_typed_update)

lemma Acquire_typed:
  assumes "AcquireConnection drv ctx (cm, w) = ((cm', w'), r)" "table_typed cm"
  shows "table_typed cm' \<and> cm_db cm' = cm_db cm"
  using assms
  by (auto simp: AcquireConnection_def table_typed_track split: option.splits prod.splits sum.splits)
    (simp_all add: trackConnection_def Let_def)

lemma on_manager_typed:
  assumes "runtime_typed rt" "\<And>cm' w' r. f (connManager rt, w) = ((cm', w'), r) \<Longrightarrow> table_typed cm' \<and> cm_db cm' = cm_db (connManager rt)"
  shows "runtime_typed (fst (fst (on_manager f (rt, w))))"
proof -
  obtain cm1 w1 r where f: "f (connManager rt, w) = ((cm1, w1), r)" by (metis surj_pair)
  from assms(2) [OF f] assms(1) f show ?thesis
    by (auto simp: on_manager_def runtime_typed_def runtime_inv_def split: option.splits)
qed

lemma Connect_typed:
  assumes "runtime_typed rt" "Runtime_Connect drv (rt, w) = ((rt', w'), r)"
  shows "runtime_typed rt'"
proof -
  have "runtime_inv rt'" using Connect_inv [OF _ assms(2)] assms(1) by (simp add: runtime_typed_def)
  with assms show ?thesis
    by (auto simp: Runtime_Connect_def runtime_typed_def adb_typed_New
        split: prod.splits option.splits dest: Open_tracking)
qed

lemma Disconnect_typed:
  assumes "runtime_typed rt" "Runtime_Disconnect drv (rt, w) = ((rt', w'), r)"
  shows "runtime_typed rt'"
proof -
  have "runtime_inv rt'" using Disconnect_inv [OF _ assms(2)] assms(1) by (simp add: runtime_typed_def)
  with assms show ?thesis
    by (auto simp: Runtime_Disconnect_def runtime_typed_def adb_typed_def psc_Clear_def psc_inv_def Let_def
        split: prod.splits option.splits dest!: Close_tracking)
qed

lemma NewInMemoryCache_ttl: "defaultTTL (NewInMemoryCache cap ttl) = ttl"
  by (simp add: NewInMemoryCache_def)

lemma Set_defaultTTL [simp]: "defaultTTL (fst (InMemoryCache_Set now k v ttl c)) = defaultTTL c"
  by (simp add: InMemoryCache_Set_def push_item_def evict_if_full_def Let_def split: option.split)

lemma cache_get_typed:
  assumes "runtime_typed rt"
  shows "runtime_typed (fst (cache_get now key rt))"
proof (cases "rt_cache rt")
  case (Some c)
  obtain c1 v where g: "InMemoryCache_Get now key c = (c1, v)" by fastforce
  have "cache_typed c1"
    using assms Some Get_inv [of c now key] Get_defaultTTL [of now key c]
    by (simp add: runtime_typed_def cache_typed_def g del: Get_defaultTTL)
  with assms Some g show ?thesis by (simp add: runtime_typed_def cache_get_def)
qed (use assms in \<open>simp add: cache_get_def\<close>)

lemma cache_put_typed: "runtime_typed rt \<Longrightarrow> runtime_typed (cache_put now key v ttl rt)"
  by (auto simp: runtime_typed_def cache_typed_def cache_put_def runtime_inv_def Set_inv split: option.splits)

lemma query_uncached_typed:
  assumes "runtime_typed rt"
  shows "runtime_typed (fst (fst (query_uncached drv env ctx key ttl q args (rt, w))))"
proof -
  obtain rt1 w1 r where q: "Runtime_Query drv env ctx q args (rt, w) = ((rt1, w1), r)" by (metis surj_pair)
  have "runtime_typed (fst (fst (Runtime_Query drv env ctx q args (rt, w))))"
    by (simp add: Runtime_Query_def assms query_typed.on_runtime)
  then have "runtime_typed rt1" by (simp add: q)
  with q show ?thesis
    by (auto simp: query_uncached_def cache_put_typed split: outcome.split sum.split option.split prod.split)
qed

lemma QueryCached_typed:
  assumes "runtime_typed rt"
  shows "runtime_typed (fst (fst (QueryCached drv env ctx key ttl q args (rt, w))))"
proof -
  obtain rt1 v where g: "cache_get (drv_Now drv w) key rt = (rt1, v)" by (metis surj_pair)
  then have "runtime_typed rt1" using cache_get_typed [OF assms] by (metis fst_conv)
  with g show ?thesis
    by (auto simp: QueryCached_def query_uncached_typed split: option.split cache_value.split)
qed

lemma SetCache_typed: "runtime_typed rt \<Longrightarrow> pred_option cache_typed c \<Longrightarrow> runtime_typed (SetCache c rt)"
  by (simp add: runtime_typed_def SetCache_def runtime_inv_def split: option.splits)

lemma rt_step_typed:
  assumes "runtime_typed rt" "typed_event (OnRuntime e)"
  shows "runtime_typed (fst (fst (rt_step drv (rt, w) e)))"
proof (cases e)
  case RConnect
  with Connect_typed [OF assms(1)] show ?thesis by (cases "Runtime_Connect drv (rt, w)") (auto split: prod.split)
next
  case RDisconnect
  with Disconnect_typed [OF assms(1)] show ?thesis by (cases "Runtime_Disconnect drv (rt, w)") (auto split: prod.split)
next
  case (RExec env ctx q args)
  then show ?thesis by (simp add: Runtime_Exec_def assms(1) exec_typed.on_runtime)
next
  case (RQuery env ctx q args)
  then show ?thesis by (simp add: Runtime_Query_def assms(1) query_typed.on_runtime)
next
  case (RQueryRow ctx q args)
  then show ?thesis by (simp add: Runtime_QueryRow_def assms(1) row_typed.on_runtime)
next
  case (RPrepare pick ctx q)
  then show ?thesis by (simp add: Runtime_Prepare_def assms(1) prepare_typed.on_runtime)
next
  case (RBegin env ctx)
  then show ?thesis by (simp add: Runtime_Begin_def assms(1) begin_typed.on_runtime)
next
  case (RHealthCheck ctx)
  with assms(1) show ?thesis by (simp add: Runtime_HealthCheck_def split: option.split prod.split)
next
  case (RQueryCached env ctx key ttl q args)
  then show ?thesis by (simp add: QueryCached_typed assms(1))
qed (use assms in \<open>simp_all add: SetCache_typed\<close>)

lemma tx_step_typed:
  assumes "runtime_typed (fst st)" "typed_event e"
  shows "runtime_typed (fst (fst (tx_step drv st e)))"
proof -
  obtain rt w where st: "st = (rt, w)" by (cases st)
  with assms(1) have rt: "runtime_typed rt" by simp
  then have "table_typed (connManager rt)" by (simp add: runtime_typed_def)
  then have "runtime_typed (fst (fst (on_manager (AcquireConnection drv ctx) (rt, w))))" for ctx
    by (intro on_manager_typed [OF rt]) (rule Acquire_typed)
  moreover have "runtime_typed (fst (fst (on_manager (\<lambda>s. (ReleaseConnection drv conn s, ())) (rt, w))))" for conn
    by (intro on_manager_typed [OF rt]) (use rt in \<open>auto simp: ReleaseConnection_def runtime_typed_def\<close>)
  ultimately show ?thesis
    using assms(2) rt
    by (cases e) (simp_all add: st rt_step_typed tx_exec_typed.on_runtime tx_query_typed.on_runtime
        commit_typed.on_runtime rollback_typed.on_runtime)
qed

lemma run_typed:
  "runtime_typed (fst st) \<Longrightarrow> list_all typed_event es \<Longrightarrow> runtime_typed (fst (fst (run (tx_step drv) st es)))"
proof (induction es arbitrary: st)
  case (Cons e es)
  from Cons.IH [OF tx_step_typed [OF Cons.prems(1), of e]] Cons.prems(2) show ?case by (simp add: run_Cons del: run.simps(2))
qed simp

section \<open>Properties\<close>

text \<open>
  C16. The state of a runtime keeps its type: built from any configuration with a rate of at most 900 million requests per
  second (beyond it the size of the bucket may overflow) and limits that fit their integer types, and after any sequence of calls
  on the runtime, on its transactions and on its connection manager, with any driver, any clock and any other goroutines at the
  gate, the breaker, the rate limiter, the semaphore, the metrics, the statement cache, the table of tracked connections and the
  cache are in their ranges, and a connected runtime has a wrapper on the manager's pool. A cache that is set on the way has been made
  by \<open>NewInMemoryCache\<close> with a positive lifetime.
\<close>

theorem runtime_stays_typed:
  assumes "gate_config_ok (Some (gate_config (case config of None \<Rightarrow> zero_RuntimeConfig | Some c \<Rightarrow> c)))"
    and "list_all typed_event es"
  shows "runtime_typed (fst (fst (run (tx_step drv) (NewDBRuntime now config, w) es)))"
proof -
  have "runtime_typed (NewDBRuntime now config)"
    using NewConnectionGate_typed [OF assms(1), of now]
    by (simp add: runtime_typed_def NewDBRuntime_def runtime_inv_def NewConnectionManager_def table_typed_def cache_typed_def
        cache_inv_new NewInMemoryCache_ttl Let_def Second_def)
  then show ?thesis using run_typed [of "(NewDBRuntime now config, w)" es drv] assms(2) by simp
qed

theorem runtime_stays_typed_witness:
  "runtime_typed (fst (fst (run (tx_step (sample_driver (Inr 0)))
     (NewDBRuntime (Time 1) (Some sample_rc), 3)
     [OnRuntime RConnect, TrackedAcquire None, TrackedAcquire None, TxCommit 9, TxCommit 9,
      OnRuntime (RSetCache (Some (NewInMemoryCache 5 Second))), OnRuntime RDisconnect])))"
  by (rule runtime_stays_typed)
    (simp_all add: sample_rc_gate gate_config_ok_def config_ok_def rate_config_ok_def limiter_config_ok_def
      sample_config_def max_rate_def in_int64_def Second_def cache_typed_def cache_inv_new NewInMemoryCache_ttl)

end
