(* ===== verification/Reports.thy ===== *)
theory Reports
  imports Monitor Protocol
begin

text \<open>
  What the program prints. A call of \<open>fmt.Printf\<close> or \<open>log.Printf\<close> is its format and the values of its arguments; \<open>fmt\<close>, which
  turns them into a text, is not unfolded. The texts for people of \<open>utils.go\<close> and \<open>monitor.go\<close> are built with it.
\<close>

section \<open>Printed values\<close>

datatype fmt_arg =
    FInt int
  | FString string
  | FError go_error
  | FDuration duration
  | FFloat float64
  | FBool bool
  | FTime time
  | FStrings "string list"
  | FValue go_value
  | FResult handle
  | FStats DBStats
  | FMetrics MetricsStats
  | FHealth HealthStatus
  | FSprintf string "fmt_arg list"

text \<open>A line on standard output, or of the logger on standard error.\<close>

datatype print_call = Stdout string "fmt_arg list" | Stderr string "fmt_arg list"

text \<open>A format that ends a line.\<close>

definition ln :: "string \<Rightarrow> string" where
  "ln s = s @ [newline]"

definition ln_cat :: "string list \<Rightarrow> string" where
  "ln_cat ls = concat (map ln ls)"

section \<open>Diagnostics\<close>

text \<open>\<open>Timestamp.Format(time.RFC3339)\<close> is an \<open>FTime\<close>.\<close>

definition Diagnostics_String :: "Diagnostics \<Rightarrow> fmt_arg" where
  "Diagnostics_String d =
     FSprintf (ln_cat [''Database Runtime Diagnostics'', ''=========================='',
       ''Timestamp: %s'', ''Circuit Breaker: %s'', '''', ''Connection Pool:'', ''  Open Connections: %d'', ''  In Use: %d'',
       ''  Idle: %d'', ''  Wait Count: %d'', ''  Wait Duration: %v'', ''  Max Idle Closed: %d'', ''  Max Idle Time Closed: %d'',
       ''  Max Lifetime Closed: %d'', '''', ''Performance Metrics:'', ''  Total Queries: %d'', ''  Successful: %d'', ''  Failed: %d'',
       ''  Success Rate: %.2f%%'', ''  Average Query Time: %v'', ''  Slow Queries: %d''])
       [FTime (d_Timestamp d), FString (d_CircuitBreaker d),
        FInt (OpenConnections (ConnectionStats d)), FInt (InUse (ConnectionStats d)), FInt (Idle (ConnectionStats d)),
        FInt (WaitCount (ConnectionStats d)), FDuration (WaitDuration (ConnectionStats d)),
        FInt (MaxIdleClosed (ConnectionStats d)), FInt (MaxIdleTimeClosed (ConnectionStats d)),
        FInt (MaxLifetimeClosed (ConnectionStats d)),
        FInt (ms_TotalQueries (d_Metrics d)), FInt (ms_SuccessfulQueries (d_Metrics d)), FInt (ms_FailedQueries (d_Metrics d)),
        FFloat (SuccessRate (d_Metrics d)), FDuration (AverageQueryTime (d_Metrics d)), FInt (ms_SlowQueries (d_Metrics d))]"

section \<open>The logging callback\<close>

text \<open>The events of the monitor always carry diagnostics.\<close>

definition DefaultLoggingCallback :: "MonitorEvent \<Rightarrow> print_call" where
  "DefaultLoggingCallback event =
     (if ev_Type event = ''health_warning'' then
        Stdout (ln ''[WARN] %s: %s'') [FTime (ev_Timestamp event), FString (ev_Message event)]
      else if ev_Type event = ''circuit_breaker_open'' then
        Stdout (ln ''[ERROR] %s: Circuit breaker is open'') [FTime (ev_Timestamp event)]
      else if ev_Type event = ''slow_queries'' then
        Stdout (ln ''[WARN] %s: %s'') [FTime (ev_Timestamp event), FString (ev_Message event)]
      else
        (let stats = ConnectionStats (ev_Diagnostics event); m = d_Metrics (ev_Diagnostics event)
         in Stdout (ln ''[INFO] %s: Connections=%d/%d, Queries=%d, SuccessRate=%.2f%%'')
              [FTime (ev_Timestamp event), FInt (InUse stats), FInt (OpenConnections stats), FInt (ms_TotalQueries m),
               FFloat (SuccessRate m)]))"

text \<open>What a round of the monitor logs, and when.\<close>

fun is_error_line :: "print_call \<Rightarrow> bool" where
  "is_error_line (Stdout f args) = (f = ln ''[ERROR] %s: Circuit breaker is open'')"
| "is_error_line (Stderr f args) = False"

lemma error_line_iff: "is_error_line (DefaultLoggingCallback event) \<longleftrightarrow> ev_Type event = ''circuit_breaker_open''"
  by (simp add: DefaultLoggingCallback_def ln_def Let_def)

lemma notify_if_events:
  "snd (notify_if drv call cbs cond event r) = snd r @ (if cond then [event (drv_Now drv (snd (fst r)))] else [])"
  by (simp add: notify_if_def Let_def split: prod.split)

text \<open>An error line is logged in exactly the rounds in which the circuit breaker is open, and then once.\<close>

lemma error_line_when_open:
  assumes "checkAndNotify drv call ctx m st = (st1, Ret evs)"
  shows "length (filter is_error_line (map DefaultLoggingCallback evs)) =
    (if CircuitBreakerState (fst st) = CircuitStateOpen then 1 else 0)"
proof -
  obtain diag where d: "GetDiagnostics drv st = Ret diag"
    using assms by (auto simp: checkAndNotify_def split: outcome.splits)
  obtain st2 h where h: "CheckHealth drv ctx st = (st2, Ret h)"
    using assms d by (auto simp: checkAndNotify_def split: outcome.splits prod.splits)
  have "d_CircuitBreaker diag = CircuitBreakerState (fst st)"
    using d
    by (cases "Runtime_Stats drv st"; cases "Runtime_Metrics (fst st)"; cases st) (auto simp: GetDiagnostics_def)
  then show ?thesis
    using assms d h by (auto simp: checkAndNotify_def Let_def notify_if_events error_line_iff filter_map comp_def)
qed

end
