(* ===== verification/Programs.thy ===== *)
theory Programs
  imports Reports Config
begin

text \<open>
  Programs on top of the runtime: the demonstration in \<open>main\<close> of \<open>dbruntime.go\<close> and the example functions call its
  operations one after the other, print, return early, end the process, and defer calls. A program is a function on a
  state and the lines printed so far; where control goes after it is its result. The calls that pass the gate take what they
  meet there from a supply \<open>genv\<close>, one entry for each call.
\<close>

section \<open>Control flow\<close>

text \<open>
  A function goes on with a value, returns early, ends the process with \<open>os.Exit\<close> (as \<open>log.Fatalf\<close> does, without
  the deferred calls), panics, or does not return.
\<close>

datatype 'a flow = Goes 'a | Returns | Exits int | Crashes string | Hangs

type_synonym ('s, 'a) prog = "'s \<times> print_call list \<Rightarrow> ('s \<times> print_call list) \<times> 'a flow"

definition pret :: "'a \<Rightarrow> ('s, 'a) prog" where
  "pret x = (\<lambda>s. (s, Goes x))"

definition pbind :: "('s, 'a) prog \<Rightarrow> ('a \<Rightarrow> ('s, 'b) prog) \<Rightarrow> ('s, 'b) prog" where
  "pbind p q = (\<lambda>s.
     (case p s of
        (s1, Goes x) \<Rightarrow> q x s1
      | (s1, Returns) \<Rightarrow> (s1, Returns)
      | (s1, Exits n) \<Rightarrow> (s1, Exits n)
      | (s1, Crashes m) \<Rightarrow> (s1, Crashes m)
      | (s1, Hangs) \<Rightarrow> (s1, Hangs)))"

text \<open>\<open>defer d\<close> with the rest of the function: \<open>d\<close> runs when that is left, by a panic too, and its own panic replaces it.\<close>

definition pdefer :: "('s, unit) prog \<Rightarrow> ('s, 'a) prog \<Rightarrow> ('s, 'a) prog" where
  "pdefer d rest = (\<lambda>s.
     (case rest s of
        (s1, Exits n) \<Rightarrow> (s1, Exits n)
      | (s1, Hangs) \<Rightarrow> (s1, Hangs)
      | (s1, r) \<Rightarrow>
          (case d s1 of
             (s2, Exits n) \<Rightarrow> (s2, Exits n)
           | (s2, Hangs) \<Rightarrow> (s2, Hangs)
           | (s2, Crashes m) \<Rightarrow> (s2, Crashes m)
           | (s2, _) \<Rightarrow> (s2, r))))"

fun pfor :: "'b list \<Rightarrow> ('b \<Rightarrow> ('s, unit) prog) \<Rightarrow> ('s, unit) prog" where
  "pfor [] body = pret ()"
| "pfor (x # xs) body = pbind (body x) (\<lambda>_. pfor xs body)"

definition pprint :: "string \<Rightarrow> fmt_arg list \<Rightarrow> ('s, unit) prog" where
  "pprint f args = (\<lambda>(s, out). ((s, out @ [Stdout f args]), Goes ()))"

definition plog :: "string \<Rightarrow> fmt_arg list \<Rightarrow> ('s, unit) prog" where
  "plog f args = (\<lambda>(s, out). ((s, out @ [Stderr f args]), Goes ()))"

definition pfatal :: "string \<Rightarrow> fmt_arg list \<Rightarrow> ('s, 'a) prog" where
  "pfatal f args = (\<lambda>(s, out). ((s, out @ [Stderr f args]), Exits 1))"

text \<open>\<open>if err != nil { log.Fatalf(f, err) }\<close>\<close>

definition fatal_if :: "string \<Rightarrow> go_error option \<Rightarrow> ('s, unit) prog" where
  "fatal_if f e = (case e of None \<Rightarrow> pret () | Some err \<Rightarrow> pfatal f [FError err])"

definition or_fatal :: "string \<Rightarrow> go_error + 'a \<Rightarrow> ('s, 'a) prog" where
  "or_fatal f r = (case r of Inl err \<Rightarrow> pfatal f [FError err] | Inr x \<Rightarrow> pret x)"

fun is_log_line :: "print_call \<Rightarrow> bool" where
  "is_log_line (Stderr f args) = True"
| "is_log_line (Stdout f args) = False"

fun from_outcome :: "'a outcome \<Rightarrow> 'a flow" where
  "from_outcome (Ret x) = Goes x"
| "from_outcome (Panic m) = Crashes m"
| "from_outcome Blocked = Hangs"

section \<open>Calls of the runtime\<close>

type_synonym ('w, 'a) rt_prog = "('w rt_state \<times> nat, 'a) prog"

definition rt_op :: "('w rt_state \<Rightarrow> 'w rt_state \<times> 'a outcome) \<Rightarrow> ('w, 'a) rt_prog" where
  "rt_op f = (\<lambda>((st, k), out). (case f st of (st1, r) \<Rightarrow> (((st1, k), out), from_outcome r)))"

definition rt_gated :: "(nat \<Rightarrow> gate_env) \<Rightarrow> (gate_env \<Rightarrow> 'w rt_state \<Rightarrow> 'w rt_state \<times> 'a outcome) \<Rightarrow> ('w, 'a) rt_prog" where
  "rt_gated genv f = (\<lambda>((st, k), out). (case f (genv k) st of (st1, r) \<Rightarrow> (((st1, Suc k), out), from_outcome r)))"

definition new_runtime :: "'w sql_driver \<Rightarrow> RuntimeConfig \<Rightarrow> ('w, unit) rt_prog" where
  "new_runtime drv config = rt_op (\<lambda>(_, w). ((NewDBRuntime (drv_Now drv w) (Some config), w), Ret ()))"

definition call_Connect :: "'w sql_driver \<Rightarrow> ('w, go_error option) rt_prog" where
  "call_Connect drv = rt_op (\<lambda>st. map_prod id Ret (Runtime_Connect drv st))"

definition call_Exec :: "'w sql_driver \<Rightarrow> (nat \<Rightarrow> gate_env) \<Rightarrow> string \<Rightarrow> go_value list \<Rightarrow> ('w, go_error + handle) rt_prog" where
  "call_Exec drv genv q args = rt_gated genv (\<lambda>e. Runtime_Exec drv e None q args)"

definition call_Query :: "'w sql_driver \<Rightarrow> (nat \<Rightarrow> gate_env) \<Rightarrow> string \<Rightarrow> go_value list \<Rightarrow> ('w, go_error + handle) rt_prog" where
  "call_Query drv genv q args = rt_gated genv (\<lambda>e. Runtime_Query drv e None q args)"

definition call_Begin :: "'w sql_driver \<Rightarrow> (nat \<Rightarrow> gate_env) \<Rightarrow> ('w, go_error + handle) rt_prog" where
  "call_Begin drv genv = rt_gated genv (\<lambda>e. Runtime_Begin drv e None)"

definition call_TxExec :: "'w sql_driver \<Rightarrow> handle \<Rightarrow> string \<Rightarrow> go_value list \<Rightarrow> ('w, go_error + handle) rt_prog" where
  "call_TxExec drv tx q args = rt_op (on_advancedDB (\<lambda>s. map_prod id Ret (AdvancedTx_Exec drv tx None q args s)))"

definition world_op :: "('w \<Rightarrow> 'w \<times> 'a) \<Rightarrow> ('w, 'a) rt_prog" where
  "world_op f = rt_op (\<lambda>(rt, w). (case f w of (w1, x) \<Rightarrow> ((rt, w1), Ret x)))"

definition call_QueryCached ::
    "'w sql_driver \<Rightarrow> (nat \<Rightarrow> gate_env) \<Rightarrow> string \<Rightarrow> duration \<Rightarrow> string \<Rightarrow> go_value list \<Rightarrow>
     ('w, go_error + string list \<times> go_value list list \<times> bool) rt_prog" where
  "call_QueryCached drv genv key ttl q args = rt_gated genv (\<lambda>e. QueryCached drv e None key ttl q args)"

definition call_Sleep :: "'w sql_driver \<Rightarrow> duration \<Rightarrow> ('w, unit) rt_prog" where
  "call_Sleep drv d = world_op (\<lambda>w. (drv_Sleep drv d w, ()))"

definition call_CircuitBreakerState :: "('w, string) rt_prog" where
  "call_CircuitBreakerState = rt_op (\<lambda>st. (st, Ret (CircuitBreakerState (fst st))))"

definition call_Stats :: "'w sql_driver \<Rightarrow> ('w, DBStats) rt_prog" where
  "call_Stats drv = rt_op (\<lambda>st. (st, Runtime_Stats drv st))"

definition call_Metrics :: "('w, MetricsStats) rt_prog" where
  "call_Metrics = rt_op (\<lambda>st. (st, Runtime_Metrics (fst st)))"

definition call_HealthCheck :: "'w sql_driver \<Rightarrow> ('w, go_error option) rt_prog" where
  "call_HealthCheck drv = rt_op (Runtime_HealthCheck drv None)"

definition call_DisconnectWithLog :: "'w sql_driver \<Rightarrow> ('w, unit) rt_prog" where
  "call_DisconnectWithLog drv =
     pbind (rt_op (Runtime_Disconnect drv)) (\<lambda>e.
     (case e of None \<Rightarrow> pret () | Some err \<Rightarrow> plog ''Error disconnecting database runtime: %v'' [FError err]))"

text \<open>
  Creating a runtime, connecting it, and the deferred disconnection, as the programs do it; they differ in what they do when the
  connection fails. In the examples that is \<open>log.Fatalf\<close>: what follows it in the code is never reached.
\<close>

definition connected_session ::
    "'w sql_driver \<Rightarrow> RuntimeConfig \<Rightarrow> (go_error \<Rightarrow> ('w, unit) rt_prog) \<Rightarrow> ('w, unit) rt_prog \<Rightarrow> ('w, unit) rt_prog" where
  "connected_session drv config refuse body =
     pbind (new_runtime drv config) (\<lambda>_.
     pbind (call_Connect drv) (\<lambda>e.
     (case e of
        Some err \<Rightarrow> refuse err
      | None \<Rightarrow> pdefer (call_DisconnectWithLog drv) body)))"

definition session :: "'w sql_driver \<Rightarrow> RuntimeConfig \<Rightarrow> ('w, unit) rt_prog \<Rightarrow> ('w, unit) rt_prog" where
  "session drv config = connected_session drv config (\<lambda>err. pfatal ''Failed to connect: %v'' [FError err])"

section \<open>Programs that do not panic\<close>

text \<open>\<open>tame I p\<close>: from a state with \<open>I\<close>, \<open>p\<close> keeps \<open>I\<close> and does not panic.\<close>

definition tame :: "('s \<Rightarrow> bool) \<Rightarrow> ('s, 'a) prog \<Rightarrow> bool" where
  "tame I p \<longleftrightarrow> (\<forall>s out s1 out1 r. I s \<longrightarrow> p (s, out) = ((s1, out1), r) \<longrightarrow> I s1 \<and> (\<forall>m. r \<noteq> Crashes m))"

named_theorems tame_intros \<open>programs that do not panic\<close>

lemma tame_pret [tame_intros]: "tame I (pret x)"
  by (simp add: tame_def pret_def)

lemma tame_pprint [tame_intros]: "tame I (pprint f args)"
  by (simp add: tame_def pprint_def)

lemma tame_plog [tame_intros]: "tame I (plog f args)"
  by (simp add: tame_def plog_def)

lemma tame_pfatal [tame_intros]: "tame I (pfatal f args)"
  by (simp add: tame_def pfatal_def)

lemma tame_pbind [tame_intros]:
  assumes "tame I p" "\<And>x. tame I (q x)"
  shows "tame I (pbind p q)"
  unfolding tame_def
proof (intro allI impI)
  fix s out s1 out1 r
  assume "I s" and b: "pbind p q (s, out) = ((s1, out1), r)"
  obtain s2 out2 r2 where p: "p (s, out) = ((s2, out2), r2)" by (metis surj_pair)
  with assms(1) \<open>I s\<close> have "I s2" "\<forall>m. r2 \<noteq> Crashes m" by (auto simp: tame_def)
  with b p assms(2) show "I s1 \<and> (\<forall>m. r \<noteq> Crashes m)"
    by (cases r2) (auto simp: pbind_def tame_def)
qed

lemma tame_pdefer [tame_intros]:
  assumes "tame I d" "tame I rest"
  shows "tame I (pdefer d rest)"
  unfolding tame_def
proof (intro allI impI)
  fix s out s1 out1 r
  assume "I s" and b: "pdefer d rest (s, out) = ((s1, out1), r)"
  obtain s2 out2 r2 where p: "rest (s, out) = ((s2, out2), r2)" by (metis surj_pair)
  obtain s3 out3 r3 where d: "d (s2, out2) = ((s3, out3), r3)" by (metis surj_pair)
  from assms(2) \<open>I s\<close> p have i2: "I s2" "\<forall>m. r2 \<noteq> Crashes m" by (auto simp: tame_def)
  with assms(1) d have "I s3" "\<forall>m. r3 \<noteq> Crashes m" by (auto simp: tame_def)
  with i2 b p d show "I s1 \<and> (\<forall>m. r \<noteq> Crashes m)"
    by (auto simp: pdefer_def split: flow.splits)
qed

lemma tame_pfor [tame_intros]: "(\<And>x. tame I (body x)) \<Longrightarrow> tame I (pfor xs body)"
  by (induction xs) (simp_all add: tame_pret tame_pbind)

lemma tame_if [tame_intros]: "tame I p \<Longrightarrow> tame I q \<Longrightarrow> tame I (if b then p else q)"
  by simp

lemma tame_case_sum [tame_intros]:
  "(\<And>x. tame I (p x)) \<Longrightarrow> (\<And>y. tame I (q y)) \<Longrightarrow> tame I (case r of Inl x \<Rightarrow> p x | Inr y \<Rightarrow> q y)"
  by (cases r) simp_all

lemma tame_case_option [tame_intros]:
  "tame I p \<Longrightarrow> (\<And>y. tame I (q y)) \<Longrightarrow> tame I (case r of None \<Rightarrow> p | Some y \<Rightarrow> q y)"
  by (cases r) simp_all

lemma tame_case_prod [tame_intros]: "(\<And>x y. tame I (p x y)) \<Longrightarrow> tame I (case r of (x, y) \<Rightarrow> p x y)"
  by (cases r) simp

lemma tame_fatal_if [tame_intros]: "tame I (fatal_if f e)"
  unfolding fatal_if_def by (intro tame_intros)

lemma tame_or_fatal [tame_intros]: "tame I (or_fatal f r)"
  unfolding or_fatal_def by (intro tame_intros)

section \<open>Programs that only log\<close>

text \<open>
  \<open>silently I p J\<close>: from a state with \<open>I\<close>, \<open>p\<close> writes nothing but log lines; if it goes on, its value and the state have \<open>J\<close>,
  and otherwise it ends the process with code 1 or does not return.
\<close>

definition silently :: "('s \<Rightarrow> bool) \<Rightarrow> ('s, 'a) prog \<Rightarrow> ('a \<Rightarrow> 's \<Rightarrow> bool) \<Rightarrow> bool" where
  "silently I p J \<longleftrightarrow>
     (\<forall>s out s1 out1 r. I s \<longrightarrow> p (s, out) = ((s1, out1), r) \<longrightarrow>
        (\<exists>lines. out1 = out @ lines \<and> list_all is_log_line lines) \<and>
        (case r of Goes x \<Rightarrow> J x s1 | Returns \<Rightarrow> False | Exits n \<Rightarrow> n = 1 | Crashes m \<Rightarrow> False | Hangs \<Rightarrow> True))"

lemma silently_pret: "(\<And>s. I s \<Longrightarrow> J x s) \<Longrightarrow> silently I (pret x) J"
  by (simp add: silently_def pret_def)

lemma silently_pfatal: "silently I (pfatal f args) J"
  by (simp add: silently_def pfatal_def)

lemma silently_or_fatal: "(\<And>s x. I s \<Longrightarrow> r = Inr x \<Longrightarrow> J x s) \<Longrightarrow> silently I (or_fatal f r) J"
  by (cases r) (simp_all add: or_fatal_def silently_pret silently_pfatal)

lemma silently_fatal_if: "(\<And>s. I s \<Longrightarrow> e = None \<Longrightarrow> J () s) \<Longrightarrow> silently I (fatal_if f e) J"
  by (cases e) (simp_all add: fatal_if_def silently_pret silently_pfatal)

lemma silently_nothing: "silently (\<lambda>_. False) p J"
  by (simp add: silently_def)

lemma silently_pbind:
  assumes "silently I p J" "\<And>x. silently (J x) (q x) K"
  shows "silently I (pbind p q) K"
  unfolding silently_def
proof (intro allI impI)
  fix s out s1 out1 r
  assume i: "I s" and b: "pbind p q (s, out) = ((s1, out1), r)"
  obtain s2 out2 r2 where p: "p (s, out) = ((s2, out2), r2)" by (metis surj_pair)
  obtain lines where l: "out2 = out @ lines" "list_all is_log_line lines"
    using assms(1) i p unfolding silently_def by blast
  have flow: "case r2 of Goes x \<Rightarrow> J x s2 | Returns \<Rightarrow> False | Exits n \<Rightarrow> n = 1 | Crashes m \<Rightarrow> False | Hangs \<Rightarrow> True"
    using assms(1) i p unfolding silently_def by blast
  show "(\<exists>lines. out1 = out @ lines \<and> list_all is_log_line lines) \<and>
      (case r of Goes x \<Rightarrow> K x s1 | Returns \<Rightarrow> False | Exits n \<Rightarrow> n = 1 | Crashes m \<Rightarrow> False | Hangs \<Rightarrow> True)"
  proof (cases r2)
    case (Goes x)
    with flow b p have "J x s2" "q x (s2, out2) = ((s1, out1), r)" by (simp_all add: pbind_def)
    with assms(2) [of x] obtain more where "out1 = out2 @ more" "list_all is_log_line more"
        "case r of Goes x \<Rightarrow> K x s1 | Returns \<Rightarrow> False | Exits n \<Rightarrow> n = 1 | Crashes m \<Rightarrow> False | Hangs \<Rightarrow> True"
      unfolding silently_def by blast
    with l show ?thesis by (auto intro: exI [of _ "lines @ more"])
  qed (use flow b p l in \<open>auto simp: pbind_def\<close>)
qed

lemma silently_pfor: "(\<And>x. silently I (body x) (\<lambda>_. I)) \<Longrightarrow> silently I (pfor xs body) (\<lambda>_. I)"
  by (induction xs) (auto intro: silently_pret silently_pbind)

section \<open>Sessions do not panic\<close>

text \<open>The runtime of a session after it was connected and before the deferred disconnection.\<close>

fun session_inv :: "'w rt_state \<times> nat \<Rightarrow> bool" where
  "session_inv ((rt, w), k) \<longleftrightarrow> runtime_inv rt \<and> IsConnected rt \<and> detector_closed rt \<noteq> Some True"

text \<open>The same without the connection, for programs that do not look whether they are connected.\<close>

fun calm_inv :: "'w rt_state \<times> nat \<Rightarrow> bool" where
  "calm_inv ((rt, w), k) \<longleftrightarrow> runtime_inv rt \<and> detector_closed rt \<noteq> Some True"

text \<open>
  Calls that the runtime guards by itself are safe under every property of the runtime that implies its invariant and depends on
  the connection manager only.
\<close>

locale runtime_frame =
  fixes I :: "'w rt_state \<times> nat \<Rightarrow> bool"
  assumes frame_inv: "I ((rt, w), k) \<Longrightarrow> runtime_inv rt"
    and frame: "I ((rt, w), k) \<Longrightarrow> runtime_inv rt' \<Longrightarrow> connManager rt' = connManager rt \<Longrightarrow> I ((rt', w'), k')"
begin

lemma tame_rt_gated:
  assumes "\<And>e rt w rt' w' r. runtime_inv rt \<Longrightarrow> f e (rt, w) = ((rt', w'), r) \<Longrightarrow>
      runtime_inv rt' \<and> connManager rt' = connManager rt \<and> \<not> panics r"
  shows "tame I (rt_gated genv f)"
  unfolding tame_def
proof (intro allI impI)
  fix s out s1 out1 r
  assume i: "I s" and c: "rt_gated genv f (s, out) = ((s1, out1), r)"
  obtain rt w k where s: "s = ((rt, w), k)" by (metis surj_pair)
  obtain rt' w' x where f: "f (genv k) (rt, w) = ((rt', w'), x)" by (metis surj_pair)
  note inv = frame_inv [OF i [unfolded s]]
  from assms [OF inv f] have g: "runtime_inv rt'" "connManager rt' = connManager rt" "\<not> panics x" by simp_all
  from frame [OF i [unfolded s] g(1,2), of w' "Suc k"] g(3) s f c show "I s1 \<and> (\<forall>m. r \<noteq> Crashes m)"
    by (cases x) (auto simp: rt_gated_def)
qed

lemma tame_rt_op:
  assumes "\<And>rt w rt' w' r. I ((rt, w), j) \<Longrightarrow> f (rt, w) = ((rt', w'), r) \<Longrightarrow>
      runtime_inv rt' \<and> connManager rt' = connManager rt \<and> \<not> panics r"
  shows "tame I (rt_op f)"
  unfolding tame_def
proof (intro allI impI)
  fix s out s1 out1 r
  assume i: "I s" and c: "rt_op f (s, out) = ((s1, out1), r)"
  obtain rt w k where s: "s = ((rt, w), k)" by (metis surj_pair)
  obtain rt' w' x where f: "f (rt, w) = ((rt', w'), x)" by (metis surj_pair)
  have "I ((rt, w), j)" by (rule frame [OF i [unfolded s] frame_inv [OF i [unfolded s]] refl])
  from assms [OF this f] have g: "runtime_inv rt'" "connManager rt' = connManager rt" "\<not> panics x" by simp_all
  from frame [OF i [unfolded s] g(1,2), of w' k] g(3) s f c show "I s1 \<and> (\<forall>m. r \<noteq> Crashes m)"
    by (cases x) (auto simp: rt_op_def)
qed

lemma tame_Exec: "tame I (call_Exec drv genv q args)"
  unfolding call_Exec_def by (rule tame_rt_gated) (drule (1) Exec_guarded, simp)

lemma tame_Query: "tame I (call_Query drv genv q args)"
  unfolding call_Query_def by (rule tame_rt_gated) (drule (1) Query_guarded, simp)

lemma tame_QueryCached: "tame I (call_QueryCached drv genv key ttl q args)"
  unfolding call_QueryCached_def by (rule tame_rt_gated) (drule (1) QueryCached_guarded, simp)

lemma tame_Begin: "tame I (call_Begin drv genv)"
  unfolding call_Begin_def by (rule tame_rt_gated) (drule (1) Begin_guarded, simp)

lemma tame_Prepare: "tame I (rt_op (Runtime_Prepare drv pick ctx q))"
  by (rule tame_rt_op) (drule frame_inv, drule (1) Prepare_guarded, simp)

lemma tame_HealthCheck: "tame I (rt_op (Runtime_HealthCheck drv ctx))"
  by (rule tame_rt_op) (drule frame_inv, frule (1) HealthCheck_guarded, simp)

lemma tame_world: "tame I (world_op f)"
  unfolding world_op_def by (rule tame_rt_op [where j = 0]) (drule frame_inv, auto split: prod.splits)

lemma tame_Sleep: "tame I (call_Sleep drv d)"
  unfolding call_Sleep_def by (rule tame_world)

lemma tame_CircuitBreakerState: "tame I call_CircuitBreakerState"
  unfolding call_CircuitBreakerState_def by (rule tame_rt_op [where j = 0]) (drule frame_inv, simp)

end

interpretation session: runtime_frame session_inv
  by unfold_locales (simp_all add: IsConnected_def detector_closed_def)

interpretation calm: runtime_frame calm_inv
  by unfold_locales (simp_all add: detector_closed_def)

lemmas [tame_intros] = session.tame_Exec session.tame_Query session.tame_QueryCached session.tame_Begin session.tame_Prepare
  session.tame_HealthCheck session.tame_world session.tame_Sleep session.tame_CircuitBreakerState
  calm.tame_Exec calm.tame_Query calm.tame_QueryCached calm.tame_Begin calm.tame_Prepare calm.tame_HealthCheck calm.tame_world
  calm.tame_Sleep calm.tame_CircuitBreakerState

context db_operation
begin

lemma on_connected:
  assumes "runtime_inv rt" "IsConnected rt" "on_advancedDB f (rt, w) = ((rt', w'), r)"
  shows "runtime_inv rt' \<and> connManager rt' = connManager rt \<and> \<not> panics r"
  using guarded [of rt w undefined rt' w' r] assms by simp

end

interpretation tx_exec_op: db_operation "\<lambda>s. map_prod id Ret (AdvancedTx_Exec drv tx ctx q args s)" for drv tx ctx q args
  by unfold_locales (auto simp: AdvancedTx_Exec_def Let_def split: prod.splits)

interpretation tx_commit_op: db_operation "\<lambda>s. map_prod id Ret (AdvancedTx_Commit drv tx s)" for drv tx
  by unfold_locales (auto simp: AdvancedTx_Commit_def split: prod.splits option.splits)

interpretation tx_rollback_op: db_operation "\<lambda>s. map_prod id Ret (AdvancedTx_Rollback drv tx s)" for drv tx
  by unfold_locales (auto simp: AdvancedTx_Rollback_def split: prod.splits option.splits)

lemma tame_TxExec [tame_intros]: "tame session_inv (call_TxExec drv tx q args)"
  unfolding call_TxExec_def by (rule session.tame_rt_op [where j = 0]) (rule tx_exec_op.on_connected, simp_all)

lemma tame_commit [tame_intros]: "tame session_inv (rt_op (tx_commit drv tx))"
  unfolding tx_commit_def by (rule session.tame_rt_op [where j = 0]) (rule tx_commit_op.on_connected, simp_all)

lemma tame_rollback [tame_intros]: "tame session_inv (rt_op (tx_rollback drv tx))"
  unfolding tx_rollback_def by (rule session.tame_rt_op [where j = 0]) (rule tx_rollback_op.on_connected, simp_all)

lemma connected_wrapper: "runtime_inv rt \<Longrightarrow> IsConnected rt \<Longrightarrow> \<exists>adb. advancedDB rt = Some adb"
  by (auto simp: runtime_inv_def IsConnected_def)

lemma tame_Stats [tame_intros]: "tame session_inv (call_Stats drv)"
  unfolding call_Stats_def by (rule session.tame_rt_op) (auto simp: Runtime_Stats_def dest: connected_wrapper split: option.splits)

lemma tame_Metrics [tame_intros]: "tame session_inv call_Metrics"
  unfolding call_Metrics_def by (rule session.tame_rt_op) (auto simp: Runtime_Metrics_def dest: connected_wrapper split: option.splits)

lemma tame_call_HealthCheck [tame_intros]: "tame session_inv (call_HealthCheck drv)"
  unfolding call_HealthCheck_def by (rule session.tame_HealthCheck)

text \<open>The deferred call finds a detector that nobody has stopped.\<close>

lemma Disconnect_once:
  assumes "detector_closed rt \<noteq> Some True" "Runtime_Disconnect drv (rt, w) = (st, r)"
  shows "\<exists>e. r = Ret e"
proof -
  obtain rt' w' where st: "st = (rt', w')" by (cases st)
  with assms(2) have d: "Runtime_Disconnect drv (rt, w) = ((rt', w'), r)" by simp
  from d obtain w0 where c: "ConnectionManager_Close drv (connManager rt, w0) = ((connManager rt', w'), r)"
    by (auto simp: Runtime_Disconnect_def psc_Clear_def Let_def split: prod.splits option.splits)
  with assms(1) show ?thesis
    by (auto simp: ConnectionManager_Close_def LeakDetector_Stop_def detector_closed_def Let_def
        split: outcome.splits option.splits if_splits prod.splits)
qed

lemma call_DisconnectWithLog_goes:
  assumes "detector_closed rt \<noteq> Some True"
  obtains st1 lines where "call_DisconnectWithLog drv (((rt, w), k), out) = (((st1, k), out @ lines), Goes ())"
    "length lines \<le> 1" "list_all is_log_line lines"
proof -
  obtain st1 r where d: "Runtime_Disconnect drv (rt, w) = (st1, r)" by (metis surj_pair)
  with Disconnect_once [OF assms d] obtain e where e: "r = Ret e" by blast
  show thesis
  proof (cases e)
    case None
    with d e that [of st1 "[]"] show thesis by (simp add: call_DisconnectWithLog_def pbind_def rt_op_def pret_def)
  next
    case (Some err)
    with d e that [of st1 "[Stderr ''Error disconnecting database runtime: %v'' [FError err]]"] show thesis
      by (simp add: call_DisconnectWithLog_def pbind_def rt_op_def plog_def)
  qed
qed

lemma Connect_session:
  assumes "Runtime_Connect drv (NewDBRuntime now (Some c), w) = ((rt, w1), None)"
  shows "session_inv ((rt, w1), k)"
proof -
  let ?rt = "NewDBRuntime now (Some c)"
  have "runtime_inv ?rt" by (simp add: runtime_inv_def NewDBRuntime_def NewConnectionManager_def Let_def)
  moreover have "detector_closed ?rt \<noteq> Some True"
    by (simp add: detector_closed_def NewDBRuntime_def NewConnectionManager_def NewLeakDetector_def Let_def)
  moreover have "IsConnected rt"
    using assms Open_connects(1)
    by (fastforce simp: Runtime_Connect_def IsConnected_def split: prod.splits option.splits)
  ultimately show ?thesis using Connect_inv [OF _ assms] Connect_detector [OF assms] by simp
qed

text \<open>A session is refused because it cannot connect, or runs its body connected and then disconnects.\<close>

lemma connected_session_cases:
  obtains (refused) err rt1 w1 where "Runtime_Connect drv (NewDBRuntime (drv_Now drv w) (Some c), w) = ((rt1, w1), Some err)"
      "connected_session drv c refuse body (((rt, w), k), out) = refuse err (((rt1, w1), k), out)"
  | (connected) rt1 w1 where "Runtime_Connect drv (NewDBRuntime (drv_Now drv w) (Some c), w) = ((rt1, w1), None)"
      "session_inv ((rt1, w1), k)"
      "connected_session drv c refuse body (((rt, w), k), out) = pdefer (call_DisconnectWithLog drv) body (((rt1, w1), k), out)"
proof -
  obtain rt1 w1 e where c: "Runtime_Connect drv (NewDBRuntime (drv_Now drv w) (Some c), w) = ((rt1, w1), e)" by (metis surj_pair)
  have step: "connected_session drv c refuse body (((rt, w), k), out) =
      (case e of Some err \<Rightarrow> refuse err | None \<Rightarrow> pdefer (call_DisconnectWithLog drv) body) (((rt1, w1), k), out)"
    using c by (simp add: connected_session_def pbind_def new_runtime_def call_Connect_def rt_op_def)
  show thesis
  proof (cases e)
    case None
    with c have "Runtime_Connect drv (NewDBRuntime (drv_Now drv w) (Some c), w) = ((rt1, w1), None)" by simp
    from connected [OF this Connect_session [OF this]] step None show thesis by simp
  next
    case (Some err)
    with c have "Runtime_Connect drv (NewDBRuntime (drv_Now drv w) (Some c), w) = ((rt1, w1), Some err)" by simp
    from refused [OF this] step Some show thesis by simp
  qed
qed

fun ends_process :: "'a flow \<Rightarrow> bool" where
  "ends_process (Exits n) = True"
| "ends_process Hangs = True"
| "ends_process r = False"

lemma pdefer_goes:
  assumes "rest s = (s1, r)" "d s1 = (s2, Goes ())"
  shows "pdefer d rest s = (if ends_process r then s1 else s2, r)"
  using assms by (cases r) (simp_all add: pdefer_def)

text \<open>The flow of a body that does not panic is the flow of its session.\<close>

lemma pdefer_disconnect:
  assumes "body s = ((((rt, w), k), out), r)" "detector_closed rt \<noteq> Some True"
  shows "\<exists>st lines. pdefer (call_DisconnectWithLog drv) body s = ((st, out @ lines), r) \<and> list_all is_log_line lines"
proof -
  obtain st1 lines where "call_DisconnectWithLog drv (((rt, w), k), out) = (((st1, k), out @ lines), Goes ())"
    "list_all is_log_line lines"
    using call_DisconnectWithLog_goes [OF assms(2), of drv w k out] by metis
  then show ?thesis
    using pdefer_goes [of body s "(((rt, w), k), out)" r "call_DisconnectWithLog drv", OF assms(1)]
    by (cases "ends_process r") (auto intro: exI [of _ "[]"])
qed

lemma tame_flow:
  assumes "tame session_inv body" "session_inv s" "body (s, out) = (s1, r)"
  obtains rt w k out1 where "s1 = (((rt, w), k), out1)" "session_inv ((rt, w), k)" "\<forall>m. r \<noteq> Crashes m"
proof -
  obtain rt w k out1 where s1: "s1 = (((rt, w), k), out1)" by (metis surj_pair)
  with assms have "session_inv ((rt, w), k) \<and> (\<forall>m. r \<noteq> Crashes m)" unfolding tame_def by blast
  with s1 that show thesis by blast
qed

lemma connected_session_no_crash:
  assumes "tame session_inv body" "\<And>err. tame (\<lambda>_. True) (refuse err)"
  shows "snd (connected_session drv c refuse body (((rt, w), k), out)) \<noteq> Crashes m"
proof (cases rule: connected_session_cases [of drv w c refuse body rt k out])
  case (connected rt1 w1)
  obtain s2 r where b: "body (((rt1, w1), k), out) = (s2, r)" by (metis surj_pair)
  from tame_flow [OF assms(1) connected(2) b] obtain rt2 w2 k2 out2
    where s2: "s2 = (((rt2, w2), k2), out2)" "session_inv ((rt2, w2), k2)" "\<forall>m. r \<noteq> Crashes m" by metis
  have "detector_closed rt2 \<noteq> Some True" using s2(2) by simp
  from pdefer_disconnect [of body "(((rt1, w1), k), out)", OF b [unfolded s2(1)] this, of drv] s2(3) connected(3) show ?thesis by auto
next
  case (refused err rt1 w1)
  obtain s1 out1 r where r: "refuse err (((rt1, w1), k), out) = ((s1, out1), r)" by (metis surj_pair)
  with assms(2) [of err] have "\<forall>m. r \<noteq> Crashes m" unfolding tame_def by blast
  with refused(2) r show ?thesis by simp
qed

lemma tame_connected_session:
  assumes "tame session_inv body" "\<And>err. tame (\<lambda>_. True) (refuse err)"
  shows "tame (\<lambda>_. True) (connected_session drv c refuse body)"
  unfolding tame_def
proof (intro allI impI)
  fix s out s1 out1 r
  assume run: "connected_session drv c refuse body (s, out) = ((s1, out1), r)"
  obtain rt w k where "s = ((rt, w), k)" by (metis surj_pair)
  with connected_session_no_crash [where refuse = refuse, OF assms, where drv = drv and c = c and rt = rt and w = w and k = k and out = out] run show "True \<and> (\<forall>m. r \<noteq> Crashes m)" by auto
qed

lemma tame_session: "tame session_inv body \<Longrightarrow> tame (\<lambda>_. True) (session drv c body)"
  unfolding session_def by (intro tame_connected_session tame_pfatal)

end
