(* ===== verification/Examples_Runs.thy ===== *)
theory Examples_Runs
  imports Examples_Drivers
begin

text \<open>
  Runs of two examples followed to their end: what \<open>ExampleWithMetrics\<close> prints, and why \<open>Example_InMemoryTesting\<close> panics.
\<close>

section \<open>A gate that does not block\<close>

text \<open>Without a semaphore (every mode but "block" and "timeout") a call behind the gate returns.\<close>

definition no_sem :: "ConnectionGate \<Rightarrow> bool" where
  "no_sem cg \<longleftrightarrow> sem (connectionLimiter cg) = None"

lemma no_sem_simps [simp]:
  "no_sem (cg\<lparr>circuitBreaker := cb\<rparr>) = no_sem cg" "no_sem (cg\<lparr>rateLimiter := rl\<rparr>) = no_sem cg"
  "no_sem (ConnectionGate_RecordSuccess cg) = no_sem cg"
  by (simp_all add: no_sem_def ConnectionGate_RecordSuccess_def)

lemma no_sem_RecordFailure: "no_sem cg \<Longrightarrow> no_sem (ConnectionGate_RecordFailure now cg)"
  by (simp add: no_sem_def ConnectionGate_RecordFailure_def Release_def Let_def)

lemma no_sem_Acquire:
  assumes "sem cl = None"
  shows "\<exists>cl' r. AcquireWithContext others sel cl = (cl', Ret r) \<and> sem cl' = None"
  using assms by (cases "Acquire cl") (auto simp: AcquireWithContext_def Acquire_def split: if_splits)

lemma no_sem_Allow:
  assumes "no_sem cg"
  shows "\<exists>cg' r. ConnectionGate_Allow clk others sel cg = (cg', Ret r) \<and> no_sem cg'"
proof -
  obtain cl r where "AcquireWithContext others sel (connectionLimiter cg) = (cl, Ret r)" "sem cl = None"
    using no_sem_Acquire assms unfolding no_sem_def by blast
  with assms show ?thesis
    by (cases r) (auto simp: ConnectionGate_Allow_def no_sem_def split: prod.split option.split)
qed

lemma no_sem_ExecuteWithGate:
  assumes "no_sem cg"
  shows "\<exists>cg' s' r. ExecuteWithGate clk others sel op (cg, s) = ((cg', s'), Ret r) \<and> no_sem cg'"
proof -
  obtain cg1 r where a: "ConnectionGate_Allow clk others sel cg = (cg1, Ret r)" "no_sem cg1"
    using no_sem_Allow [OF assms] by blast
  obtain s1 x where o: "op s = (s1, x)" by (metis surj_pair)
  show ?thesis
    using a o by (cases r; cases x) (simp_all add: ExecuteWithGate_def no_sem_RecordFailure)
qed

lemma no_sem_gated:
  assumes "no_sem cg"
  shows "\<exists>cg' adb' w' r. gated drv env operation ctx (cg, adb, w) = ((cg', adb', w'), Ret r) \<and> no_sem cg'"
proof -
  obtain clk others sel where env: "env = (clk, others, sel)" by (metis surj_pair)
  let ?ctx = "context_WithTimeout (drv_Now drv w) (queryTimeout adb) ctx"
  obtain cg1 w1 r where "ExecuteWithGate clk others sel (operation adb ?ctx) (cg, w) = ((cg1, w1), Ret r)" "no_sem cg1"
    using no_sem_ExecuteWithGate [OF assms, of clk others sel "operation adb ?ctx" w] by blast
  then show ?thesis by (simp add: gated_def env Let_def)
qed

lemma no_sem_New: "BackpressureMode c \<notin> {''block'', ''timeout''} \<Longrightarrow> no_sem (NewConnectionGate now (Some c))"
  by (simp add: no_sem_def NewConnectionGate_def NewConnectionLimiter_def Let_def)

section \<open>What the metrics example prints\<close>

text \<open>A connected runtime whose wrapper has counted \<open>n\<close> queries, all as successful.\<close>

definition counted_session :: "nat \<Rightarrow> 'w rt_state \<times> nat \<Rightarrow> bool" where
  "counted_session n s \<longleftrightarrow> session_inv s \<and> no_sem (rt_gate (fst (fst s))) \<and>
     (\<exists>adb. advancedDB (fst (fst s)) = Some adb \<and> TotalQueries (metrics adb) = int n \<and>
        SuccessfulQueries (metrics adb) = int n \<and> FailedQueries (metrics adb) = 0)"

lemma counted_Exec:
  assumes "counted_session n s" "n < 1000"
  shows "\<exists>s1 r. call_Exec drv genv q args (s, out) = ((s1, out), Goes r) \<and> counted_session (Suc n) s1"
proof -
  obtain rt w k where s: "s = ((rt, w), k)" by (metis surj_pair)
  obtain adb where adb: "advancedDB rt = Some adb" "TotalQueries (metrics adb) = int n" "SuccessfulQueries (metrics adb) = int n"
    "FailedQueries (metrics adb) = 0" using assms(1) s by (auto simp: counted_session_def)
  have inv: "runtime_inv rt" "IsConnected rt" "no_sem (rt_gate rt)" "detector_closed rt \<noteq> Some True"
    using assms(1) s by (simp_all add: counted_session_def)
  obtain cg1 adb1 w1 r where g: "AdvancedDB_Exec drv (genv k) None q args (rt_gate rt, adb, w) = ((cg1, adb1, w1), Ret r)"
      "no_sem cg1"
    using no_sem_gated [OF inv(3), of drv "genv k" "\<lambda>adb ctx1. retryExec drv (retryPolicy adb) (adb_db adb) ctx1 q args" None adb w]
    unfolding AdvancedDB_Exec_def by blast
  let ?rt = "rt\<lparr>rt_gate := cg1, advancedDB := Some adb1\<rparr>"
  have e: "Runtime_Exec drv (genv k) None q args (rt, w) = ((?rt, w1), Ret r)"
    using inv(2) adb(1) g(1) by (simp add: Runtime_Exec_def on_advancedDB_def)
  have m: "metrics adb1 = RecordQuery (time_Sub (drv_Now drv w1) (drv_Now drv w)) None (metrics adb)"
    by (rule gated_metrics [OF g(1) [unfolded AdvancedDB_Exec_def]])
  have "wrap64 (int n + 1) = int n + 1" using assms(2) by (simp add: in_int64_def)
  with m adb(2-4) have "TotalQueries (metrics adb1) = int (Suc n)" "SuccessfulQueries (metrics adb1) = int (Suc n)"
    "FailedQueries (metrics adb1) = 0"
    by (simp_all add: RecordQuery_def Let_def)
  moreover have "session_inv ((?rt, w1), Suc k)"
    using Exec_guarded [OF inv(1) e] inv by (simp add: IsConnected_def detector_closed_def)
  ultimately have "counted_session (Suc n) ((?rt, w1), Suc k)" using g(2) unfolding counted_session_def by simp
  with e s show ?thesis by (auto simp: call_Exec_def rt_gated_def)
qed

lemma counted_loop:
  assumes "counted_session n s" "n + length xs \<le> 1000"
  shows "\<exists>s1. pfor xs (\<lambda>i. pbind (call_Exec drv genv q args) (\<lambda>_. pret ())) (s, out) = ((s1, out), Goes ()) \<and>
    counted_session (n + length xs) s1"
  using assms
proof (induction xs arbitrary: n s)
  case (Cons x xs)
  then have "n < 1000" by simp
  with counted_Exec [OF Cons.prems(1)] obtain s1 r
    where e: "call_Exec drv genv q args (s, out) = ((s1, out), Goes r)" "counted_session (Suc n) s1" by blast
  from Cons.IH [OF e(2)] Cons.prems(2) obtain s2
    where "pfor xs (\<lambda>i. pbind (call_Exec drv genv q args) (\<lambda>_. pret ())) (s1, out) = ((s2, out), Goes ())"
      "counted_session (Suc n + length xs) s2" by auto
  with e(1) show ?case by (simp add: pbind_def pret_def)
qed (simp add: pret_def)

lemma Connect_counted:
  assumes "Runtime_Connect drv (NewDBRuntime now (Some c), w) = ((rt, w1), None)"
    "rc_BackpressureMode c \<notin> {''block'', ''timeout''}"
  shows "counted_session 0 ((rt, w1), k)"
proof -
  have "rt_gate rt = NewConnectionGate now (Some (gate_config c))"
    "\<exists>db. advancedDB rt = Some (NewAdvancedDB db (Some (db_config c)))"
    using assms(1) by (auto simp: Runtime_Connect_def NewDBRuntime_def Let_def split: prod.splits option.splits)
  moreover have "metrics (NewAdvancedDB db d) = NewDBMetrics d" for db d
    by (simp add: NewAdvancedDB_def Let_def split: option.split)
  ultimately show ?thesis
    using Connect_session [OF assms(1), of k] no_sem_New [of "gate_config c" now] assms(2)
    by (auto simp: counted_session_def gate_config_def NewDBMetrics_def)
qed

text \<open>The lines that the example prints for \<open>n\<close> queries, all of them successful.\<close>

definition all_successful :: "int \<Rightarrow> duration \<Rightarrow> int \<Rightarrow> print_call list" where
  "all_successful n avg slow =
     [Stdout (ln ''Total Queries: %d'') [FInt n], Stdout (ln ''Successful: %d'') [FInt n], Stdout (ln ''Failed: %d'') [FInt 0],
      Stdout (ln ''Success Rate: %.2f%%'') [FFloat (Finite 100)], Stdout (ln ''Average Query Time: %v'') [FDuration avg],
      Stdout (ln ''Slow Queries: %d'') [FInt slow]]"

lemma plain_mode: "env ''DB_BACKPRESSURE_MODE'' = [] \<Longrightarrow> rc_BackpressureMode (plain_config env) = ''drop''"
  by (simp add: plain_config_def Build_def WithDSN_def NewConfigBuilder_def DefaultConfig_def getEnv_def Let_def)

lemma metrics_report:
  assumes "counted_session 100 ((rt, w), k)"
  shows "\<exists>avg slow. print_metrics (((rt, w), k), out) = ((((rt, w), k), out @ all_successful 100 avg slow), Goes ())"
proof -
  obtain adb where adb: "advancedDB rt = Some adb" "TotalQueries (metrics adb) = 100" "SuccessfulQueries (metrics adb) = 100"
    "FailedQueries (metrics adb) = 0" using assms by (auto simp: counted_session_def)
  let ?m = "GetStats (metrics adb)"
  have "IsConnected rt" using assms by (simp add: counted_session_def)
  then have "Runtime_Metrics rt = Ret ?m" using adb(1) by (simp add: Runtime_Metrics_def)
  moreover have "SuccessRate ?m = Finite 100" using success_rate_values [of undefined 100 "metrics adb"] adb by simp
  moreover have "ms_TotalQueries ?m = 100" "ms_SuccessfulQueries ?m = 100" "ms_FailedQueries ?m = 0"
    using adb by (simp_all add: GetStats_def)
  ultimately show ?thesis
    by (simp add: print_metrics_def pbind_def call_Metrics_def rt_op_def pprint_def all_successful_def)
qed

text \<open>
  \<open>ExampleWithMetrics\<close> reports one hundred successful queries and a success rate of 100 for every database, also for one
  that fails every query, and although the gate lets at most a hundred of them succeed: with the default backpressure mode
  the program either cannot connect and ends, or returns having printed exactly these figures.
\<close>

theorem metrics_example_reports_success:
  assumes "env ''DB_BACKPRESSURE_MODE'' = []"
  shows "\<exists>s1 lines r. ExampleWithMetrics drv genv env (s, out) = ((s1, out @ lines), r) \<and>
    (r = Exits 1 \<and> (\<exists>err. lines = [Stderr ''Failed to connect: %v'' [FError err]]) \<or>
     r = Goes () \<and> (\<exists>avg slow logs. lines = all_successful 100 avg slow @ logs \<and> list_all is_log_line logs))"
proof -
  obtain rt w k where s: "s = ((rt, w), k)" by (metis surj_pair)
  let ?refuse = "\<lambda>err. pfatal ''Failed to connect: %v'' [FError err]"
  let ?loop = "pfor [0..<100] (\<lambda>i. pbind (call_Exec drv genv ''SELECT 1 FROM DUAL'' []) (\<lambda>_. pret ()))"
  let ?body = "pbind ?loop (\<lambda>_. print_metrics)"
  note x = ExampleWithMetrics_def session_def
  show ?thesis
  proof (cases rule: connected_session_cases [of drv w "plain_config env" ?refuse ?body rt k out])
    case (refused err rt1 w1)
    then show ?thesis by (simp add: x s pfatal_def)
  next
    case (connected rt1 w1)
    have "counted_session 0 ((rt1, w1), k)"
      using Connect_counted [OF connected(1)] plain_mode [of env, OF assms] by simp
    from counted_loop [OF this, of "[0..<100]" drv genv "''SELECT 1 FROM DUAL''" "[]" out] obtain rt2 w2 k2 where
      l: "?loop (((rt1, w1), k), out) = ((((rt2, w2), k2), out), Goes ())" "counted_session 100 ((rt2, w2), k2)" by auto
    from metrics_report [OF l(2), of out] obtain avg slow where
      b: "?body (((rt1, w1), k), out) = ((((rt2, w2), k2), out @ all_successful 100 avg slow), Goes ())"
      by (auto simp: pbind_def [of ?loop] l(1))
    have "detector_closed rt2 \<noteq> Some True" using l(2) by (simp add: counted_session_def)
    from pdefer_disconnect [of ?body "(((rt1, w1), k), out)", OF b this, of drv] connected(3) show ?thesis
      by (simp add: x s) blast
  qed
qed

text \<open>A database whose statements all fail.\<close>

theorem metrics_example_reports_success_witness:
  "\<exists>s1 lines r. ExampleWithMetrics (sample_driver (Inl (ErrExt 0 ''syntax error''))) (\<lambda>_. (sample_clock, [], SelSlot)) (\<lambda>_. [])
      (((NewDBRuntime (Time 1) None, 0), 0), []) = ((s1, lines), r) \<and> r \<noteq> Hangs"
  using metrics_example_reports_success [of "\<lambda>_. []" "sample_driver (Inl (ErrExt 0 ''syntax error''))"
      "\<lambda>_. (sample_clock, [], SelSlot)" "((NewDBRuntime (Time 1) None, 0), 0)" "[]"] by auto

section \<open>Which database the demonstration opens\<close>

text \<open>
  \<open>main\<close> sets no database type, so the connection manager opens the Oracle address with the SQLite driver; the examples of
  \<open>examples.go\<close> do the same unless \<open>DB_TYPE\<close> is set.
\<close>

lemma Connect_refused:
  assumes "driver_name (DatabaseType (config_defaults (connection_config c))) = (name, ty)"
    and "drv_Open drv name (rc_DSN c) w = (w1, Inl err)"
  shows "\<exists>rt. Runtime_Connect drv (NewDBRuntime now (Some c), w) =
    ((rt, w1), Some (ErrorfW ''failed to open connection: '' (ErrorfW (''failed to open '' @ ty @ '' database: '') err []) []))"
proof -
  have "DSN (config_defaults (connection_config c)) = rc_DSN c" by (simp add: config_defaults_def connection_config_def Let_def)
  with assms show ?thesis
    by (simp add: Runtime_Connect_def ConnectionManager_Open_def NewDBRuntime_def NewConnectionManager_def Let_def)
qed

theorem main_opens_sqlite:
  assumes "drv_Open drv ''sqlite3'' oracle_dsn w = (w1, Inl err)"
  shows "\<exists>rt1. main drv genv (((rt, w), k), out) =
    ((((rt1, w1), k), out @ [Stdout (ln ''Failed to connect: %v'') [FError (ErrorfW ''failed to open connection: ''
        (ErrorfW ''failed to open sqlite database: '' err []) [])]]), Returns)"
proof -
  have "driver_name (DatabaseType (config_defaults (connection_config main_config))) = (''sqlite3'', DatabaseTypeSQLite)"
    by (simp add: driver_name_def config_defaults_def connection_config_def main_config_def zero_RuntimeConfig_def db_types Let_def
        Second_def Minute_def)
  from Connect_refused [OF this, of drv w w1 err "drv_Now drv w"] assms obtain rt1 where
    "Runtime_Connect drv (NewDBRuntime (drv_Now drv w) (Some main_config), w) =
      ((rt1, w1), Some (ErrorfW ''failed to open connection: '' (ErrorfW ''failed to open sqlite database: '' err []) []))"
    by (auto simp: main_config_def oracle_dsn_def DatabaseTypeSQLite_def)
  then show ?thesis
    unfolding main_def connected_session_def
    by (simp add: pbind_def new_runtime_def call_Connect_def rt_op_def print_return_def pprint_def preturn_def)
qed

section \<open>Why the test example panics\<close>

text \<open>
  The gate of \<open>Example_InMemoryTesting\<close> after \<open>n\<close> calls, of which none was released: either all slots are taken, or each of
  the \<open>n\<close> calls took one, the breaker is closed and tokens are left.
\<close>

definition filling :: "nat \<Rightarrow> ConnectionGate \<Rightarrow> bool" where
  "filling n cg \<longleftrightarrow> maxConnections (connectionLimiter cg) = 100 \<and> cl_mode (connectionLimiter cg) = ''drop'' \<and>
     (\<exists>h. gate_inv cg h \<and>
        (h = 100 \<or> h = n \<and> cb_state (circuitBreaker cg) = circuitClosed \<and> 10000 - int n \<le> tokens (rateLimiter cg)))"

lemma filling_no_sem: "filling n cg \<Longrightarrow> no_sem cg"
  by (auto simp: filling_def no_sem_def gate_inv_def limiter_inv_def)

lemma filling_limits:
  assumes "filling n cg" "ExecuteWithGate clk others sel op (cg, s) = ((cg', s'), r)"
  shows "maxConnections (connectionLimiter cg') = 100 \<and> cl_mode (connectionLimiter cg') = ''drop''"
  using limits_ExecuteWithGate [OF assms(2)] assms(1) by (simp add: limits_def filling_def)

text \<open>A token is taken from a bucket that has one, and the refill never takes any.\<close>

lemma Allow_takes_token:
  assumes "rate_inv rate rl" "0 < tokens rl"
  shows "\<exists>rl'. RateLimiter_Allow now rl = (rl', None) \<and> tokens rl - 1 \<le> tokens rl'"
proof -
  have "tokens rl \<le> tokens (refilled now rl)" using assms(1) by (auto simp: refilled_def rate_inv_def Let_def)
  with assms RateLimiter_Allow_refilled [OF assms(1), of now] show ?thesis by simp
qed

lemma filling_admits:
  assumes "gate_inv cg n" "n < 100" "maxConnections (connectionLimiter cg) = 100" "cl_mode (connectionLimiter cg) = ''drop''"
    "cb_state (circuitBreaker cg) = circuitClosed" "10000 - int n \<le> tokens (rateLimiter cg)" "op s = (s1, Inr x)"
  shows "\<exists>cg'. ExecuteWithGate clk [] sel op (cg, s) = ((cg', s1), Ret (Inr x)) \<and>
    cb_state (circuitBreaker cg') = circuitClosed \<and> 10000 - int (Suc n) \<le> tokens (rateLimiter cg')"
proof -
  have "rate_inv (refillRate (rateLimiter cg)) (rateLimiter cg)" "limiter_inv (connectionLimiter cg) n"
    using assms(1) by (simp_all add: gate_inv_def)
  moreover have "0 < tokens (rateLimiter cg)" using assms(2,6) by linarith
  ultimately obtain rl where rl: "RateLimiter_Allow (at_rate clk) (rateLimiter cg) = (rl, None)"
      "tokens (rateLimiter cg) - 1 \<le> tokens rl" and l: "limiter_inv (connectionLimiter cg) n"
    using Allow_takes_token by blast
  have "CircuitBreaker_Allow (at_circuit clk) (circuitBreaker cg) = (circuitBreaker cg, None)"
    using assms(5) by (simp add: CircuitBreaker_Allow_def circuit_consts)
  moreover have "\<exists>cl. AcquireWithContext [] sel (connectionLimiter cg) = (cl, Ret None)"
    using l assms(2-4) by (simp add: AcquireWithContext_def Acquire_def limiter_inv_def)
  ultimately show ?thesis
    using rl assms(5-7)
    by (auto simp: ExecuteWithGate_def ConnectionGate_Allow_def ConnectionGate_RecordSuccess_def
        CircuitBreaker_RecordSuccess_def circuit_consts)
qed

lemma filling_step:
  assumes "filling n cg" "op s = (s1, Inr x)"
  shows "\<exists>cg' s' r. ExecuteWithGate clk [] sel op (cg, s) = ((cg', s'), Ret r) \<and> filling (Suc n) cg'"
proof -
  obtain cg' s' r where e: "ExecuteWithGate clk [] sel op (cg, s) = ((cg', s'), r)" by (metis surj_pair)
  obtain h where h: "gate_inv cg h"
    "h = 100 \<or> h = n \<and> cb_state (circuitBreaker cg) = circuitClosed \<and> 10000 - int n \<le> tokens (rateLimiter cg)"
    using assms(1) by (auto simp: filling_def)
  have f: "maxConnections (connectionLimiter cg) = 100" "cl_mode (connectionLimiter cg) = ''drop''"
    using assms(1) by (simp_all add: filling_def)
  note after = filling_limits [OF assms(1) e] ExecuteWithGate_inv [OF h(1) e]
  have "h \<le> 100" using h(1) f(1) by (auto simp: gate_inv_def dest: limiter_inv_le)
  then consider "h = 100" | "h < 100" by linarith
  then show ?thesis
  proof cases
    case 1
    from exhausted_gate_refuses [OF h(1) _ f(2) e] f(1) 1 obtain err where "r = Ret (Inl err)" by auto
    with after e 1 show ?thesis by (auto simp: filling_def)
  next
    case 2
    with h(2) have n: "h = n" "cb_state (circuitBreaker cg) = circuitClosed" "10000 - int n \<le> tokens (rateLimiter cg)" by simp_all
    from filling_admits [where op = op and s = s, OF h(1) [unfolded n(1)] 2 [unfolded n(1)] f n(2,3) assms(2), of clk sel] e after n(1) show ?thesis
      by (auto simp: filling_def)
  qed
qed

text \<open>A database on which every statement succeeds.\<close>

definition exec_succeeds :: "'w sql_driver \<Rightarrow> bool" where
  "exec_succeeds drv \<longleftrightarrow> (\<forall>db ctx q args w. \<exists>w' h. drv_Exec drv db ctx q args w = (w', Inr h))"

text \<open>No other goroutine uses the gate.\<close>

definition alone :: "(nat \<Rightarrow> gate_env) \<Rightarrow> bool" where
  "alone genv \<longleftrightarrow> (\<forall>k. fst (snd (genv k)) = [])"

lemma retryExec_succeeds:
  assumes "exec_succeeds drv" "0 \<le> MaxRetries rp"
  shows "\<exists>w' h. retryExec drv rp db ctx q args w = (w', Inr h)"
proof -
  obtain w' h where "drv_Exec drv db ctx q args w = (w', Inr h)" using assms(1) unfolding exec_succeeds_def by blast
  with assms(2) show ?thesis unfolding retryExec_def by (subst retry_loop.simps) simp
qed

text \<open>The state between two calls of the example, connected or not.\<close>

definition testing :: "nat \<Rightarrow> 'w rt_state \<times> nat \<Rightarrow> bool" where
  "testing n s \<longleftrightarrow> (case s of ((rt, w), k) \<Rightarrow>
     calm_inv s \<and> rt_cache rt = Some (NewInMemoryCache 5000 (60 * Second)) \<and>
     (IsConnected rt \<longrightarrow> filling n (rt_gate rt) \<and> (\<exists>adb. advancedDB rt = Some adb \<and> 0 \<le> MaxRetries (retryPolicy adb))))"

lemma testing_Exec:
  assumes "exec_succeeds drv" "alone genv" "testing n s"
  shows "\<exists>s1 r. call_Exec drv genv q args (s, out) = ((s1, out), Goes r) \<and> testing (Suc n) s1"
proof -
  obtain rt w k where s: "s = ((rt, w), k)" by (metis surj_pair)
  have t: "runtime_inv rt" "detector_closed rt \<noteq> Some True" "rt_cache rt = Some (NewInMemoryCache 5000 (60 * Second))"
    using assms(3) s by (simp_all add: testing_def)
  show ?thesis
  proof (cases "IsConnected rt")
    case False
    with assms(3) s show ?thesis by (simp add: call_Exec_def rt_gated_def Runtime_Exec_def testing_def)
  next
    case True
    then obtain adb where f: "filling n (rt_gate rt)" and adb: "advancedDB rt = Some adb" "0 \<le> MaxRetries (retryPolicy adb)"
      using assms(3) s by (auto simp: testing_def)
    obtain clk sel where env: "genv k = (clk, [], sel)" using assms(2) unfolding alone_def by (metis prod.collapse)
    let ?ctx = "context_WithTimeout (drv_Now drv w) (queryTimeout adb) None"
    obtain w0 h where "retryExec drv (retryPolicy adb) (adb_db adb) ?ctx q args w = (w0, Inr h)"
      using retryExec_succeeds [OF assms(1) adb(2)] by blast
    from filling_step [where op = "retryExec drv (retryPolicy adb) (adb_db adb) ?ctx q args" and s = w, OF f this, of clk sel]
    obtain cg' w1 r where
      g: "ExecuteWithGate clk [] sel (retryExec drv (retryPolicy adb) (adb_db adb) ?ctx q args) (rt_gate rt, w) = ((cg', w1), Ret r)"
        "filling (Suc n) cg'" by blast
    let ?w2 = "drv_Cancel drv ?ctx w1"
    let ?rt = "rt\<lparr>rt_gate := cg', advancedDB := Some (record_elapsed drv (drv_Now drv w) ?w2 adb)\<rparr>"
    have e: "Runtime_Exec drv (genv k) None q args (rt, w) = ((?rt, ?w2), Ret r)"
      using True adb(1) g(1) by (simp add: Runtime_Exec_def on_advancedDB_def AdvancedDB_Exec_def gated_def env Let_def)
    have "testing (Suc n) ((?rt, ?w2), Suc k)"
      using Exec_guarded [OF t(1) e] t g(2) adb(2) by (simp add: testing_def detector_closed_def record_elapsed_def)
    with e s show ?thesis by (auto simp: call_Exec_def rt_gated_def)
  qed
qed

lemma testing_loop:
  assumes "exec_succeeds drv" "alone genv" "testing n s"
  shows "\<exists>s1. pfor xs (\<lambda>i. ignored (call_Exec drv genv q (args i))) (s, out) = ((s1, out), Goes ()) \<and> testing (n + length xs) s1"
  using assms(3)
proof (induction xs arbitrary: n s)
  case (Cons x xs)
  from testing_Exec [OF assms(1,2) Cons.prems] obtain s1 r
    where e: "call_Exec drv genv q (args x) (s, out) = ((s1, out), Goes r)" "testing (Suc n) s1" by blast
  from Cons.IH [OF e(2)] obtain s2
    where "pfor xs (\<lambda>i. ignored (call_Exec drv genv q (args i))) (s1, out) = ((s2, out), Goes ())"
      "testing (Suc n + length xs) s2" by auto
  with e(1) show ?case by (simp add: ignored_def pbind_def pret_def)
qed (simp add: pret_def)

lemma filled_query:
  assumes "filling n cg" "100 < n"
  shows "\<exists>cg' adb' w' err. AdvancedDB_Query drv env ctx q args (cg, adb, w) = ((cg', adb', w'), Ret (Inl err))"
proof -
  obtain clk others sel where env: "env = (clk, others, sel)" by (metis surj_pair)
  obtain h where h: "gate_inv cg h" "h = 100 \<or> h = n" using assms(1) by (auto simp: filling_def)
  have "h \<le> 100" using h(1) assms(1) by (auto simp: gate_inv_def filling_def dest: limiter_inv_le)
  with h(2) assms have f: "int h = maxConnections (connectionLimiter cg)" "cl_mode (connectionLimiter cg) = ''drop''"
    by (simp_all add: filling_def)
  let ?op = "retryQuery drv (retryPolicy adb) (adb_db adb) (context_WithTimeout (drv_Now drv w) (queryTimeout adb) ctx) q args"
  obtain cg' w' r where e: "ExecuteWithGate clk others sel ?op (cg, w) = ((cg', w'), r)" by (metis surj_pair)
  with exhausted_gate_refuses [OF h(1) f e] obtain err where "r = Ret (Inl err)" by auto
  with e show ?thesis by (simp add: AdvancedDB_Query_def gated_def env Let_def)
qed

lemma testing_QueryCached:
  assumes "testing n s" "100 < n" "key \<noteq> []"
  shows "\<exists>s1 err. call_QueryCached drv genv key ttl q args (s, out) = ((s1, out), Goes (Inl err)) \<and> calm_inv s1"
proof -
  obtain rt w k where s: "s = ((rt, w), k)" by (metis surj_pair)
  obtain rt1 v where g: "cache_get (drv_Now drv w) key rt = (rt1, v)" by (metis surj_pair)
  then have v: "v = None"
    using assms(1) s
    by (auto simp: testing_def cache_get_def NewInMemoryCache_def InMemoryCache_Get_def Let_def split: prod.splits if_splits)
  have rt: "IsConnected rt1 = IsConnected rt" "advancedDB rt1 = advancedDB rt" "rt_gate rt1 = rt_gate rt"
    using g by (auto simp: IsConnected_def cache_get_def split: option.splits prod.splits if_splits)
  have "\<exists>st1 err. Runtime_Query drv (genv k) None q args (rt1, w) = (st1, Ret (Inl err))"
  proof (cases "IsConnected rt")
    case True
    with assms(1) s obtain adb where "filling n (rt_gate rt)" "advancedDB rt = Some adb" by (auto simp: testing_def)
    with filled_query [OF _ assms(2), of "rt_gate rt" drv "genv k" None q args adb w] True rt show ?thesis
      by (auto simp: Runtime_Query_def on_advancedDB_def)
  qed (simp add: Runtime_Query_def rt)
  then obtain st1 err where "Runtime_Query drv (genv k) None q args (rt1, w) = (st1, Ret (Inl err))" by blast
  then have q: "QueryCached drv (genv k) None key ttl q args (rt, w) = (st1, Ret (Inl err))"
    by (cases st1) (simp add: QueryCached_def query_uncached_def g v)
  then have c: "call_QueryCached drv genv key ttl q args (s, out) = (((st1, Suc k), out), Goes (Inl err))"
    by (simp add: call_QueryCached_def rt_gated_def s)
  moreover have "calm_inv s" using assms(1) s by (simp add: testing_def)
  with calm.tame_QueryCached c have "calm_inv (st1, Suc k)" unfolding tame_def by blast
  ultimately show ?thesis by blast
qed

lemma pbind_goes: "p s = (s1, Goes x) \<Longrightarrow> pbind p q s = q x s1"
  by (simp add: pbind_def)

lemma pbind_crashes: "p s = (s1, Crashes m) \<Longrightarrow> pbind p q s = (s1, Crashes m)"
  by (simp add: pbind_def)

lemma ignored_goes: "p s = (s1, Goes x) \<Longrightarrow> ignored p s = (s1, Goes ())"
  by (simp add: ignored_def pbind_def pret_def)

lemma testing_body_panics:
  assumes "exec_succeeds drv" "alone genv" "testing 0 s"
  shows "\<exists>s1. testing_body drv genv (s, out) = ((s1, out), Crashes (index_panic 0 0)) \<and> calm_inv s1"
proof -
  obtain s1 r where e: "call_Exec drv genv ''CREATE TABLE test_table (id INTEGER PRIMARY KEY, value TEXT)'' [] (s, out) =
      ((s1, out), Goes r)" "testing 1 s1"
    using testing_Exec [OF assms] by (metis One_nat_def)
  let ?ins = "\<lambda>i. [VString (''value_'' @ show_int (int i))]"
  obtain s2 where l: "pfor [0..<1000] (\<lambda>i. ignored (call_Exec drv genv ''INSERT INTO test_table (value) VALUES (?)'' (?ins i)))
      (s1, out) = ((s2, out), Goes ())" "testing 1001 s2"
    using testing_loop [OF assms(1,2) e(2), of "[0..<1000]" "''INSERT INTO test_table (value) VALUES (?)''" ?ins out]
    by (auto simp del: upt_rec_numeral)
  obtain s3 err where q: "call_QueryCached drv genv ''count_test'' (30 * Second) ''SELECT COUNT(*) FROM test_table'' [] (s2, out) =
      ((s3, out), Goes (Inl err))" "calm_inv s3"
    using testing_QueryCached [OF l(2), of "''count_test''" drv genv "30 * Second" "''SELECT COUNT(*) FROM test_table''" "[]" out] by auto
  have "testing_body drv genv (s, out) = ((s3, out), Crashes (index_panic 0 0))"
    unfolding testing_body_def
    by (subst pbind_goes, rule ignored_goes, rule e(1), subst pbind_goes, rule l(1), subst pbind_goes, rule q(1),
        rule pbind_crashes, simp add: pindex_def)
  with q(2) show ?thesis by blast
qed

lemma testing_config_fields:
  "rc_MaxConcurrentConnections (testing_config (\<lambda>_. [])) = 100" "rc_BackpressureMode (testing_config (\<lambda>_. [])) = ''drop''"
  "rc_MaxRequestsPerSecond (testing_config (\<lambda>_. [])) = 1000" "rc_CircuitBreakerMaxFailures (testing_config (\<lambda>_. [])) = 5"
  "rc_CircuitBreakerResetTimeout (testing_config (\<lambda>_. [])) = 60 * Second"
  "rc_EnableAggressiveCaching (testing_config (\<lambda>_. []))" "rc_CacheCapacity (testing_config (\<lambda>_. [])) = 5000"
  "rc_CacheDefaultTTL (testing_config (\<lambda>_. [])) = 60 * Second"
  by (simp_all add: testing_config_def Build_def WithAggressiveCaching_def WithDSN_def WithDatabaseType_def NewConfigBuilder_def
      DefaultConfig_def getEnv_def getEnvInt_def getEnvInt64_def getEnvDuration_def getEnvBool_def Let_def)

lemma testing_gate: "filling 0 (NewConnectionGate now (Some (gate_config (testing_config (\<lambda>_. [])))))"
proof -
  let ?c = "gate_config (testing_config (\<lambda>_. []))"
  have "gate_config_ok (Some ?c)"
    by (simp add: gate_config_ok_def config_ok_def rate_config_ok_def limiter_config_ok_def gate_config_def testing_config_fields
        in_int64_def max_rate_def Second_def)
  note inv = NewConnectionGate_inv [OF this, of now]
  let ?cg = "NewConnectionGate now (Some ?c)"
  have "maxConnections (connectionLimiter ?cg) = 100" "cl_mode (connectionLimiter ?cg) = ''drop''"
    "cb_state (circuitBreaker ?cg) = circuitClosed" "tokens (rateLimiter ?cg) = 10000"
    by (simp_all add: NewConnectionGate_def NewConnectionLimiter_def NewCircuitBreaker_def NewRateLimiter_def gate_config_def
        testing_config_fields in_int64_def)
  with inv show ?thesis unfolding filling_def by auto
qed

lemma testing_Connect:
  assumes "Runtime_Connect drv (NewDBRuntime now (Some (testing_config (\<lambda>_. []))), w) = ((rt, w1), e)"
  shows "testing 0 ((rt, w1), k)"
proof -
  let ?c = "testing_config (\<lambda>_. [])"
  let ?rt = "NewDBRuntime now (Some ?c)"
  have "runtime_inv ?rt" by (simp add: runtime_inv_def NewDBRuntime_def NewConnectionManager_def Let_def)
  moreover have "detector_closed ?rt \<noteq> Some True"
    by (simp add: detector_closed_def NewDBRuntime_def NewConnectionManager_def NewLeakDetector_def Let_def)
  ultimately have "calm_inv ((rt, w1), k)" using Connect_inv [OF _ assms] Connect_detector [OF assms] by simp
  moreover have "rt_gate rt = NewConnectionGate now (Some (gate_config ?c))" "rt_cache rt = rt_cache ?rt"
    "advancedDB rt = None \<or> (\<exists>db. advancedDB rt = Some (NewAdvancedDB db (Some (db_config ?c))))"
    using assms by (auto simp: Runtime_Connect_def NewDBRuntime_def Let_def split: prod.splits option.splits)
  moreover have "retryPolicy (NewAdvancedDB db (Some d)) = NewRetryPolicy (Some d)" for db d
    by (simp add: NewAdvancedDB_def Let_def)
  moreover have "rt_cache ?rt = Some (NewInMemoryCache 5000 (60 * Second))"
    by (simp add: NewDBRuntime_def testing_config_fields Second_def Let_def)
  ultimately show ?thesis
    using testing_gate [of now] NewRetryPolicy_fields(4) [of "Some (db_config ?c)"]
    by (auto simp: testing_def runtime_inv_def IsConnected_def)
qed

text \<open>
  C35. \<open>Example_InMemoryTesting\<close>, with nothing set in the environment and a database on which every statement succeeds, never
  prints its count: every successful call keeps its slot of the gate, so after a hundred of them everything is refused, the
  final query too, and the index into its missing rows panics. It panics as well if the connection failed.
\<close>

theorem testing_example_panics:
  assumes "exec_succeeds drv" and "alone genv"
  shows "\<exists>s1. Example_InMemoryTesting drv genv (\<lambda>_. []) (s, out) = ((s1, out), Crashes (index_panic 0 0))"
proof -
  obtain rt w k where s: "s = ((rt, w), k)" by (metis surj_pair)
  let ?d = "ignored (rt_op (Runtime_Disconnect drv))"
  obtain rt1 w1 e where c: "Runtime_Connect drv (NewDBRuntime (drv_Now drv w) (Some (testing_config (\<lambda>_. []))), w) = ((rt1, w1), e)"
    by (metis surj_pair)
  have x: "Example_InMemoryTesting drv genv (\<lambda>_. []) (s, out) = pdefer ?d (testing_body drv genv) (((rt1, w1), k), out)"
    using c by (simp add: Example_InMemoryTesting_def loose_session_def pbind_def new_runtime_def call_Connect_def rt_op_def s)
  obtain rt2 w2 k2 where b: "testing_body drv genv (((rt1, w1), k), out) = ((((rt2, w2), k2), out), Crashes (index_panic 0 0))"
      "calm_inv ((rt2, w2), k2)"
    using testing_body_panics [OF assms testing_Connect [OF c]] by (metis surj_pair)
  obtain st3 r where d: "Runtime_Disconnect drv (rt2, w2) = (st3, r)" by (metis surj_pair)
  with Disconnect_once [OF _ d] b(2) obtain e3 where "r = Ret e3" by auto
  then have "?d (((rt2, w2), k2), out) = (((st3, k2), out), Goes ())"
    using d by (simp add: ignored_def pbind_def rt_op_def pret_def)
  with pdefer_goes [of "testing_body drv genv" "(((rt1, w1), k), out)", OF b(1)] x show ?thesis by simp
qed

text \<open>The database of the other witnesses, on which every statement succeeds.\<close>

theorem testing_example_panics_witness:
  "\<exists>s1. Example_InMemoryTesting (sample_driver (Inr 9)) (\<lambda>_. (sample_clock, [], SelSlot)) (\<lambda>_. [])
     (((NewDBRuntime (Time 1) None, 0), 0), []) = ((s1, []), Crashes ''index out of range [0] with length 0'')"
proof -
  have "exec_succeeds (sample_driver (Inr 9))" by (simp add: exec_succeeds_def sample_driver_def)
  moreover have "alone (\<lambda>_. (sample_clock, [], SelSlot))" by (simp add: alone_def)
  moreover have "index_panic 0 0 = ''index out of range [0] with length 0''" by code_simp
  ultimately show ?thesis using testing_example_panics by metis
qed

end
