(* ===== verification/Examples_Clients.thy ===== *)
theory Examples_Clients
  imports Programs Client
begin

text \<open>
  The example programs of \<open>examples_tcp.go\<close> and \<open>examples_security.go\<close> that use the TCP client. The network is the parameter of
  \<open>Client\<close>; \<open>time.Sleep\<close> acts on it.
\<close>

section \<open>Calls of the client\<close>

type_synonym ('n, 'a) cl_prog = "('n cl_state, 'a) prog"

definition cl_op :: "('n cl_state \<Rightarrow> 'n cl_state \<times> 'a outcome) \<Rightarrow> ('n, 'a) cl_prog" where
  "cl_op f = (\<lambda>(st, out). (case f st of (st1, r) \<Rightarrow> ((st1, out), from_outcome r)))"

definition new_client :: "TCPClientConfig \<Rightarrow> ('n, unit) cl_prog" where
  "new_client config = cl_op (\<lambda>(_, n). ((NewTCPClient config, n), Ret ()))"

definition client_sleep :: "(duration \<Rightarrow> 'n \<Rightarrow> 'n) \<Rightarrow> duration \<Rightarrow> ('n, unit) cl_prog" where
  "client_sleep sleep d = cl_op (\<lambda>(c, n). ((c, sleep d n), Ret ()))"

text \<open>The deferred \<open>client.Disconnect()\<close>; its error is ignored.\<close>

definition defer_Disconnect :: "json_codec \<Rightarrow> 'n network \<Rightarrow> ('n, unit) cl_prog \<Rightarrow> ('n, unit) cl_prog" where
  "defer_Disconnect cdc net = pdefer (pbind (cl_op (Client_Disconnect cdc net)) (\<lambda>_. pret ()))"

definition client_session ::
    "json_codec \<Rightarrow> 'n network \<Rightarrow> TCPClientConfig \<Rightarrow> string \<Rightarrow> ('n, unit) cl_prog \<Rightarrow> ('n, unit) cl_prog" where
  "client_session cdc net config refused body =
     pbind (new_client config) (\<lambda>_.
     pbind (cl_op (Client_Connect net)) (\<lambda>e.
     pbind (fatal_if refused e) (\<lambda>_.
     defer_Disconnect cdc net body)))"

section \<open>Examples of \<open>examples_tcp.go\<close>\<close>

definition local_server :: "duration \<Rightarrow> TCPClientConfig" where
  "local_server timeout = \<lparr>cc_Address = ''localhost:9090'', cc_Timeout = timeout\<rparr>"

definition ExampleTCPClientBasic :: "json_codec \<Rightarrow> 'n network \<Rightarrow> ('n, unit) cl_prog" where
  "ExampleTCPClientBasic cdc net =
     client_session cdc net (local_server (30 * Second)) ''Failed to connect to server: %v''
       (pbind (cl_op (Client_Ping cdc net)) (\<lambda>r.
        pbind (or_fatal ''Ping failed: %v'' r) (\<lambda>_.
        pbind (pprint (ln ''Ping successful!'') []) (\<lambda>_.
        pbind (cl_op (Client_Exec cdc net ''INSERT INTO users (name, email) VALUES (?, ?)''
            [VString ''John Doe'', VString ''john@example.com''])) (\<lambda>r.
        pbind (or_fatal ''Exec failed: %v'' r) (\<lambda>result.
        pbind (pprint (ln ''Insert successful: %d rows affected'') [FInt (RowsAffected result)]) (\<lambda>_.
        pbind (cl_op (Client_Query cdc net ''SELECT * FROM users WHERE name = ?'' [VString ''John Doe''])) (\<lambda>r.
        pbind (or_fatal ''Query failed: %v'' r) (\<lambda>(columns, rows).
        pbind (pprint (ln ''Found %d rows with columns: %v'') [FInt (int (length rows)), FStrings columns]) (\<lambda>_.
        pbind (cl_op (Client_Stats cdc net)) (\<lambda>r.
        pbind (or_fatal ''Stats failed: %v'' r) (\<lambda>stats.
        pbind (pprint (ln ''Connection pool: %d open, %d in use, %d idle'')
            [FInt (sr_OpenConnections stats), FInt (sr_InUse stats), FInt (sr_Idle stats)]) (\<lambda>_.
        pbind (cl_op (Client_Metrics cdc net)) (\<lambda>r.
        pbind (or_fatal ''Metrics failed: %v'' r) (\<lambda>metrics.
        pprint (ln ''Queries: %d total, %d successful, %d failed'')
          [FInt (mr_TotalQueries metrics), FInt (mr_SuccessfulQueries metrics), FInt (mr_FailedQueries metrics)])))))))))))))))"

text \<open>The loops over the attempts, which are left by \<open>break\<close>.\<close>

fun connect_attempts :: "(duration \<Rightarrow> 'n \<Rightarrow> 'n) \<Rightarrow> 'n network \<Rightarrow> int list \<Rightarrow> ('n, unit) cl_prog" where
  "connect_attempts sleep net [] = pret ()"
| "connect_attempts sleep net (i # is) =
     pbind (cl_op (Client_Connect net)) (\<lambda>e.
     (case e of
        Some err \<Rightarrow>
          pbind (plog ''Connection attempt %d failed: %v'' [FInt (i + 1), FError err]) (\<lambda>_.
          pbind (client_sleep sleep ((i + 1) * Second)) (\<lambda>_.
          connect_attempts sleep net is))
      | None \<Rightarrow> pprint (ln ''Connected successfully!'') []))"

fun exec_attempts ::
    "(duration \<Rightarrow> 'n \<Rightarrow> 'n) \<Rightarrow> json_codec \<Rightarrow> 'n network \<Rightarrow> go_error + ExecResult \<Rightarrow> int list \<Rightarrow>
     ('n, go_error + ExecResult) cl_prog" where
  "exec_attempts sleep cdc net prev [] = pret prev"
| "exec_attempts sleep cdc net prev (i # is) =
     pbind (cl_op (Client_Exec cdc net ''UPDATE users SET active = 1 WHERE id = ?'' [VInt 123])) (\<lambda>r.
     (case r of
        Inr result \<Rightarrow> pret (Inr result)
      | Inl err \<Rightarrow>
          pbind (plog ''Exec attempt %d failed: %v'' [FInt (i + 1), FError err]) (\<lambda>_.
          pbind (client_sleep sleep ((i + 1) * Second)) (\<lambda>_.
          exec_attempts sleep cdc net (Inl err) is))))"

text \<open>
  Before the second loop \<open>result\<close> and \<open>err\<close> are nil, which never shows, as the loop runs at least once.
\<close>

definition ExampleTCPClientWithRetry :: "(duration \<Rightarrow> 'n \<Rightarrow> 'n) \<Rightarrow> json_codec \<Rightarrow> 'n network \<Rightarrow> ('n, unit) cl_prog" where
  "ExampleTCPClientWithRetry sleep cdc net =
     pbind (new_client (local_server (10 * Second))) (\<lambda>_.
     pbind (connect_attempts sleep net [0, 1, 2]) (\<lambda>_.
     pbind (cl_op (\<lambda>(c, n). ((c, n), Client_IsConnected c))) (\<lambda>connected.
     pbind (if \<not> connected then pfatal ''Failed to connect after retries'' [] else pret ()) (\<lambda>_.
     defer_Disconnect cdc net
       (pbind (exec_attempts sleep cdc net (Inr \<lparr>RowsAffected = 0, LastInsertID = 0\<rparr>) [0, 1, 2]) (\<lambda>r.
        pbind (or_fatal ''Failed to execute after retries: %v'' r) (\<lambda>result.
        pprint (ln ''Update successful: %d rows affected'') [FInt (RowsAffected result)])))))))"

text \<open>The variable \<open>totalAffected\<close> is threaded through the loop.\<close>

fun batch_inserts :: "json_codec \<Rightarrow> 'n network \<Rightarrow> int64 \<Rightarrow> (string \<times> string) list \<Rightarrow> ('n, int64) cl_prog" where
  "batch_inserts cdc net affected [] = pret affected"
| "batch_inserts cdc net affected ((name, email) # users) =
     pbind (cl_op (Client_Exec cdc net ''INSERT INTO users (name, email) VALUES (?, ?)'' [VString name, VString email])) (\<lambda>r.
     (case r of
        Inl err \<Rightarrow>
          pbind (plog ''Failed to insert %s: %v'' [FString name, FError err]) (\<lambda>_. batch_inserts cdc net affected users)
      | Inr result \<Rightarrow>
          pbind (pprint (ln ''Inserted %s (ID: %d)'') [FString name, FInt (LastInsertID result)]) (\<lambda>_.
          batch_inserts cdc net (wrap64 (affected + RowsAffected result)) users)))"

definition ExampleTCPClientBatchOperations :: "json_codec \<Rightarrow> 'n network \<Rightarrow> ('n, unit) cl_prog" where
  "ExampleTCPClientBatchOperations cdc net =
     client_session cdc net (local_server 0) ''Failed to connect: %v''
       (pbind (batch_inserts cdc net 0 [(''Alice'', ''alice@example.com''), (''Bob'', ''bob@example.com''),
            (''Charlie'', ''charlie@example.com'')]) (\<lambda>affected.
        pprint (ln ''Total rows inserted: %d'') [FInt affected]))"

definition print_row :: "nat \<times> go_value list \<Rightarrow> ('n, unit) cl_prog" where
  "print_row = (\<lambda>(i, row).
     if length row \<ge> 3
     then pprint (ln ''%d. ID: %v, Name: %v, Email: %v'')
            [FInt (int i + 1), FValue (row ! 0), FValue (row ! 1), FValue (row ! 2)]
     else pret ())"

definition ExampleTCPClientQueryIteration :: "json_codec \<Rightarrow> 'n network \<Rightarrow> ('n, unit) cl_prog" where
  "ExampleTCPClientQueryIteration cdc net =
     client_session cdc net (local_server 0) ''Failed to connect: %v''
       (pbind (cl_op (Client_Query cdc net ''SELECT id, name, email FROM users LIMIT 100'' [])) (\<lambda>r.
        pbind (or_fatal ''Query failed: %v'' r) (\<lambda>(columns, rows).
        pbind (pprint (ln ''Columns: %v'') [FStrings columns]) (\<lambda>_.
        pbind (pprint (ln ''Found %d users:'') [FInt (int (length rows))]) (\<lambda>_.
        pfor (enumerate 0 rows) print_row)))))"

section \<open>Examples of \<open>examples_security.go\<close>\<close>

text \<open>These ignore the error of \<open>Connect\<close>.\<close>

definition loose_client ::
    "json_codec \<Rightarrow> 'n network \<Rightarrow> TCPClientConfig \<Rightarrow> ('n, unit) cl_prog \<Rightarrow> ('n, unit) cl_prog" where
  "loose_client cdc net config body =
     pbind (new_client config) (\<lambda>_.
     pbind (cl_op (Client_Connect net)) (\<lambda>_.
     defer_Disconnect cdc net body))"

text \<open>\<open>time.Time.Unix\<close>: seconds since 1970.\<close>

definition time_Unix :: "time \<Rightarrow> int64" where
  "time_Unix t = nanos t div 1000000000 - 62135596800"

definition payment_key :: "time \<Rightarrow> string" where
  "payment_key now = ''payment-'' @ show_int 12345 @ ''-'' @ show_int (time_Unix now)"

definition insert_payment :: "json_codec \<Rightarrow> 'n network \<Rightarrow> string \<Rightarrow> ('n, go_error + ExecResult) cl_prog" where
  "insert_payment cdc net key =
     cl_op (ExecWithIdempotency cdc net ''INSERT INTO payments (user_id, amount, status) VALUES (?, ?, 'PENDING')'' key
       [VInt 12345, VFloat (f64_of_rat 100)])"

definition Example_IdempotentTransactions :: "json_codec \<Rightarrow> 'n network \<Rightarrow> ('n, unit) cl_prog" where
  "Example_IdempotentTransactions cdc net =
     loose_client cdc net \<lparr>cc_Address = ''legacy-db-service:9090'', cc_Timeout = 30 * Second\<rparr>
       (pbind (cl_op (\<lambda>(c, n). ((c, n), Ret (payment_key (net_Now net n))))) (\<lambda>key.
        pbind (insert_payment cdc net key) (\<lambda>r1.
        pbind (insert_payment cdc net key) (\<lambda>r2.
        (case (r1, r2) of
           (Inr result1, Inr result2) \<Rightarrow>
             pbind (pprint (ln ''First call: %d rows affected'') [FInt (RowsAffected result1)]) (\<lambda>_.
             pprint (ln ''Second call: %d rows affected (cached)'') [FInt (RowsAffected result2)])
         | _ \<Rightarrow> pret ())))))"

text \<open>The two counters are threaded through the loop.\<close>

fun count_queries :: "json_codec \<Rightarrow> 'n network \<Rightarrow> int \<Rightarrow> int \<Rightarrow> nat \<Rightarrow> ('n, int \<times> int) cl_prog" where
  "count_queries cdc net successCount rateLimitCount 0 = pret (successCount, rateLimitCount)"
| "count_queries cdc net successCount rateLimitCount (Suc n) =
     pbind (cl_op (Client_Query cdc net ''SELECT COUNT(*) FROM users'' [])) (\<lambda>r.
     (case r of
        Inl err \<Rightarrow>
          count_queries cdc net successCount
            (if error_text err = ''rate limit exceeded'' then rateLimitCount + 1 else rateLimitCount) n
      | Inr _ \<Rightarrow> count_queries cdc net (successCount + 1) rateLimitCount n))"

definition Example_RateLimitProtection :: "json_codec \<Rightarrow> 'n network \<Rightarrow> ('n, unit) cl_prog" where
  "Example_RateLimitProtection cdc net =
     loose_client cdc net \<lparr>cc_Address = ''legacy-db:9090'', cc_Timeout = 0\<rparr>
       (pbind (count_queries cdc net 0 0 100) (\<lambda>(successCount, rateLimitCount).
        pprint (ln ''Successful: %d, Rate limited: %d'') [FInt successCount, FInt rateLimitCount]))"

section \<open>A client between two calls\<close>

text \<open>Its locks are free, and it has a connection if it says so.\<close>

fun settled :: "bool \<Rightarrow> 'n cl_state \<Rightarrow> bool" where
  "settled b (c, n) \<longleftrightarrow> \<not> mu_locked c \<and> connMu c = Unlocked \<and> connected c = b \<and> (b \<longrightarrow> c_conn c \<noteq> None)"

lemma settled_new: "settled False (NewTCPClient config, n)"
  by (simp add: NewTCPClient_def)

lemma settled_Connect:
  assumes "settled False s" "Client_Connect net s = (s1, r)"
  shows "(r = Ret None \<and> settled True s1) \<or> (\<exists>err. r = Ret (Some err) \<and> settled False s1)"
  using assms by (cases s) (auto simp: Client_Connect_def split: prod.splits sum.splits)

lemma request_settled:
  assumes "settled b s" "request cdc net mk what parse s = (s1, r)"
  shows "settled b s1" "\<exists>x. r = Ret x"
proof -
  obtain c n where s: "s = (c, n)" by (cases s)
  show "settled b s1" "\<exists>x. r = Ret x"
    using assms s
    by (auto simp: request_def nextID_def sendAndReceive_def Client_IsConnected_def Let_def
        split: prod.splits sum.splits option.splits if_splits bool.splits)
qed

lemma tame_cl_op:
  assumes "\<And>s s1 r. I s \<Longrightarrow> f s = (s1, r) \<Longrightarrow> I s1 \<and> \<not> panics r"
  shows "tame I (cl_op f)"
  unfolding tame_def
proof (intro allI impI)
  fix s out s1 out1 r
  assume i: "I s" and c: "cl_op f (s, out) = ((s1, out1), r)"
  obtain s2 x where f: "f s = (s2, x)" by (metis surj_pair)
  from assms [OF i f] c f show "I s1 \<and> (\<forall>m. r \<noteq> Crashes m)" by (cases x) (auto simp: cl_op_def)
qed

lemma tame_request [tame_intros]: "tame (settled b) (cl_op (request cdc net mk what parse))"
proof (rule tame_cl_op)
  fix s s1 r
  assume "settled b s" "request cdc net mk what parse s = (s1, r)"
  from request_settled [OF this] show "settled b s1 \<and> \<not> panics r" by auto
qed

lemmas client_calls = Client_Ping_def Client_Exec_def Client_Query_def Client_Stats_def Client_Metrics_def
  ExecWithIdempotency_def QueryWithIdempotency_def

lemma tame_client_calls [tame_intros]:
  "tame (settled b) (cl_op (Client_Ping cdc net))" "tame (settled b) (cl_op (Client_Exec cdc net q args))"
  "tame (settled b) (cl_op (Client_Query cdc net q args))" "tame (settled b) (cl_op (Client_Stats cdc net))"
  "tame (settled b) (cl_op (Client_Metrics cdc net))" "tame (settled b) (cl_op (ExecWithIdempotency cdc net q key args))"
  unfolding client_calls by (rule tame_request)+

lemma tame_client_sleep [tame_intros]: "tame (settled b) (client_sleep sleep d)"
  unfolding client_sleep_def by (rule tame_cl_op) auto

lemma tame_exec_attempts: "tame (settled b) (exec_attempts sleep cdc net prev is)"
  by (induction "is" arbitrary: prev) (auto intro!: tame_intros)

lemma tame_batch_inserts: "tame (settled b) (batch_inserts cdc net affected users)"
  by (induction users arbitrary: affected) (auto intro!: tame_intros)

lemma tame_print_row [tame_intros]: "tame I (print_row r)"
  unfolding print_row_def by (intro tame_intros)

text \<open>What is left of a connected client's program when it disconnects: nothing returns.\<close>

lemma Disconnect_blocks: "settled True s \<Longrightarrow> \<exists>s1. Client_Disconnect cdc net s = (s1, Blocked)"
  by (cases s) (simp add: Client_Disconnect_def nextID_def sendMessage_def Client_IsConnected_def Let_def)

lemma defer_Disconnect_ends:
  assumes "tame (settled True) body" "settled True s"
  shows "ends_process (snd (defer_Disconnect cdc net body (s, out)))"
proof -
  obtain s1 out1 r where b: "body (s, out) = ((s1, out1), r)" by (metis surj_pair)
  with assms have s1: "settled True s1" "\<forall>m. r \<noteq> Crashes m" unfolding tame_def by blast+
  obtain s2 where "Client_Disconnect cdc net s1 = (s2, Blocked)" using Disconnect_blocks [OF s1(1)] by blast
  then have d: "pbind (cl_op (Client_Disconnect cdc net)) (\<lambda>_. pret ()) (s1, out1) = ((s2, out1), Hangs)"
    by (simp add: pbind_def cl_op_def)
  show ?thesis using b d s1(2) by (cases r) (simp_all add: defer_Disconnect_def pdefer_def)
qed

lemma client_session_ends:
  assumes "tame (settled True) body"
  shows "ends_process (snd (client_session cdc net config refused body s))"
proof -
  obtain c n out where s: "s = ((c, n), out)" by (metis surj_pair)
  obtain s1 r where c: "Client_Connect net (NewTCPClient config, n) = (s1, r)" by (metis surj_pair)
  have x: "client_session cdc net config refused body s =
      pbind (\<lambda>s. (s, from_outcome r)) (\<lambda>e. pbind (fatal_if refused e) (\<lambda>_. defer_Disconnect cdc net body)) (s1, out)"
    using c by (simp add: client_session_def new_client_def cl_op_def pbind_def s)
  from settled_Connect [OF settled_new c] show ?thesis
  proof (elim disjE conjE exE)
    assume "r = Ret None" "settled True s1"
    with defer_Disconnect_ends [OF assms, of s1 cdc net out] x show ?thesis by (simp add: pbind_def fatal_if_def pret_def)
  qed (use x in \<open>simp add: pbind_def fatal_if_def pfatal_def\<close>)
qed

lemma connect_attempts_goes:
  "settled False s \<Longrightarrow> \<exists>s1 out1 b. connect_attempts sleep net is (s, out) = ((s1, out1), Goes ()) \<and> settled b s1"
proof (induction "is" arbitrary: s out)
  case (Cons i "is")
  obtain s1 r where c: "Client_Connect net s = (s1, r)" by (metis surj_pair)
  from settled_Connect [OF Cons.prems c] show ?case
  proof (elim disjE conjE exE)
    fix err
    assume r: "r = Ret (Some err)" and s1: "settled False s1"
    obtain d n where "s1 = (d, n)" by (cases s1)
    with s1 have "settled False (d, sleep ((i + 1) * Second) n)" by simp
    from Cons.IH [OF this] c r \<open>s1 = (d, n)\<close> show ?thesis
      by (simp add: pbind_def cl_op_def plog_def client_sleep_def)
  qed (use c in \<open>auto simp: pbind_def cl_op_def pprint_def\<close>)
qed (auto simp: pret_def)

lemma retry_example_ends: "ends_process (snd (ExampleTCPClientWithRetry sleep cdc net s))"
proof -
  obtain c n out where s: "s = ((c, n), out)" by (metis surj_pair)
  obtain s1 out1 b where a: "connect_attempts sleep net [0, 1, 2] ((NewTCPClient (local_server (10 * Second)), n), out) =
      ((s1, out1), Goes ())" "settled b s1"
    using connect_attempts_goes [OF settled_new [of "local_server (10 * Second)" n], of sleep net "[0, 1, 2]" out] by blast
  obtain d m where s1: "s1 = (d, m)" by (cases s1)
  define body where "body = pbind (exec_attempts sleep cdc net (Inr \<lparr>RowsAffected = 0, LastInsertID = 0\<rparr>) [0, 1, 2]) (\<lambda>r.
        pbind (or_fatal ''Failed to execute after retries: %v'' r) (\<lambda>result.
        pprint (ln ''Update successful: %d rows affected'') [FInt (RowsAffected result)]))"
  have t: "tame (settled True) body" unfolding body_def by (intro tame_pbind tame_exec_attempts tame_intros)
  have "ExampleTCPClientWithRetry sleep cdc net s =
      pbind (if \<not> b then pfatal ''Failed to connect after retries'' [] else pret ()) (\<lambda>_. defer_Disconnect cdc net body) (s1, out1)"
    unfolding ExampleTCPClientWithRetry_def body_def [symmetric] using a s1
    by (simp add: new_client_def cl_op_def pbind_def s Client_IsConnected_def del: connect_attempts.simps)
  with defer_Disconnect_ends [OF t, of s1 cdc net out1] a(2) show ?thesis
    by (cases b) (simp_all add: pbind_def pret_def pfatal_def)
qed

text \<open>
  No client example of \<open>examples_tcp.go\<close> ever returns, whatever the network and the server do: each ends the process through
  \<open>log.Fatal\<close>, or does its work and then hangs in its deferred \<open>Disconnect\<close>.
\<close>

theorem client_examples_never_return:
  "list_all (\<lambda>p. ends_process (snd (p s)))
    [ExampleTCPClientBasic cdc net, ExampleTCPClientWithRetry sleep cdc net, ExampleTCPClientBatchOperations cdc net,
     ExampleTCPClientQueryIteration cdc net]"
proof -
  have "ends_process (snd (ExampleTCPClientBasic cdc net s))" "ends_process (snd (ExampleTCPClientQueryIteration cdc net s))"
    unfolding ExampleTCPClientBasic_def ExampleTCPClientQueryIteration_def by (intro client_session_ends tame_intros)+
  moreover have "ends_process (snd (ExampleTCPClientBatchOperations cdc net s))"
    unfolding ExampleTCPClientBatchOperations_def by (intro client_session_ends tame_pbind tame_batch_inserts tame_intros)
  ultimately show ?thesis by (simp add: retry_example_ends)
qed

section \<open>The rate limit that is never counted\<close>

text \<open>
  What the texts of \<open>encoding/json\<close> errors are not; every other error of the client begins with a text of its own.
\<close>

definition json_errors_differ :: "json_codec \<Rightarrow> bool" where
  "json_errors_differ cdc \<longleftrightarrow> (\<forall>d e. unmarshal_query cdc d = Inl e \<longrightarrow> error_text e \<noteq> ''rate limit exceeded'')"

lemma read_response_errors: "read_response cdc m input = Inl err \<Longrightarrow> error_text err \<noteq> ''rate limit exceeded''"
  by (cases input; cases "scan_lines (fst input)")
    (auto simp: read_response_def DecodeTCPResponse_def id_mismatch_def split: list.splits bool.splits option.splits sum.splits if_splits)

lemma exchange_errors: "exchange cdc net m t conn n = (n1, Inl err) \<Longrightarrow> error_text err \<noteq> ''rate limit exceeded''"
  by (auto simp: exchange_def EncodeTCPMessage_def dest: read_response_errors split: prod.splits option.splits sum.splits)

lemma query_errors:
  assumes "json_errors_differ cdc" "Client_Query cdc net q args s = (s1, Ret (Inl err))"
  shows "error_text err \<noteq> ''rate limit exceeded''"
proof -
  obtain c n where s: "s = (c, n)" by (cases s)
  let ?m = "query_message MessageTypeQuery q [] args (show_int (uint (messageID c + 1)))"
  obtain s2 r where r: "sendAndReceive cdc net ?m (c\<lparr>messageID := messageID c + 1\<rparr>, n) = (s2, r)" by (metis surj_pair)
  have "r = Ret (Inl e) \<Longrightarrow> error_text e \<noteq> ''rate limit exceeded''" for e
    using r
    by (cases "TCPClient.connected c")
      (auto simp: sendAndReceive_def Client_IsConnected_def not_connected_client_def dest: exchange_errors
        split: if_splits option.splits prod.splits)
  with assms r s show ?thesis
    by (auto simp: client_calls request_def nextID_def Let_def ParseQueryResult_def json_errors_differ_def
        split: outcome.splits sum.splits if_splits)
qed

lemma count_queries_goes:
  assumes "json_errors_differ cdc" "settled b s"
  shows "\<exists>s1 k. count_queries cdc net sc rc m (s, out) = ((s1, out), Goes (sc + int k, rc)) \<and> settled b s1 \<and> k \<le> m"
  using assms(2)
proof (induction m arbitrary: s sc)
  case (Suc m)
  obtain s1 r where q: "Client_Query cdc net ''SELECT COUNT(*) FROM users'' [] s = (s1, r)" by (metis surj_pair)
  have r: "settled b s1" "\<exists>x. r = Ret x"
    using request_settled [OF Suc.prems q [unfolded client_calls]] by simp_all
  then obtain x where x: "r = Ret x" by blast
  show ?case
  proof (cases x)
    case (Inl err)
    then have "error_text err \<noteq> ''rate limit exceeded''" using query_errors [OF assms(1)] q x by simp
    with Suc.IH [OF r(1), of sc] q x Inl show ?thesis by (fastforce simp: pbind_def cl_op_def)
  next
    case (Inr res)
    from Suc.IH [OF r(1), of "sc + 1"] obtain s2 k where
      "count_queries cdc net (sc + 1) rc m (s1, out) = ((s2, out), Goes (sc + 1 + int k, rc))" "settled b s2" "k \<le> m" by blast
    with q x Inr show ?thesis by (intro exI [of _ s2] exI [of _ "Suc k"]) (simp add: pbind_def cl_op_def)
  qed
qed (auto simp: pret_def)

text \<open>
  \<open>Example_RateLimitProtection\<close> never counts a refused request, whatever the server does: it compares the text of the
  error with one that the client never returns. It prints zero, and then returns only if it had no connection.
\<close>

theorem rate_limit_never_counted:
  assumes "json_errors_differ cdc"
  shows "\<exists>s1 k. Example_RateLimitProtection cdc net ((c, n), out) =
    ((s1, out @ [Stdout (ln ''Successful: %d, Rate limited: %d'') [FInt (int k), FInt 0]]),
     case net_Dial net ''legacy-db:9090'' (30 * Second) n of (_, Inl err) \<Rightarrow> Goes () | (_, Inr conn) \<Rightarrow> Hangs) \<and> k \<le> 100"
proof -
  let ?cfg = "\<lparr>cc_Address = ''legacy-db:9090'', cc_Timeout = 0\<rparr>"
  obtain s1 r where c: "Client_Connect net (NewTCPClient ?cfg, n) = (s1, r)" by (metis surj_pair)
  define b where "b = (case net_Dial net ''legacy-db:9090'' (30 * Second) n of (_, Inl err) \<Rightarrow> False | (_, Inr conn) \<Rightarrow> True)"
  note dial = b_def
  have b: "settled b s1" "\<exists>e. r = Ret e"
    using c by (auto simp: b_def Client_Connect_def NewTCPClient_def split: prod.splits sum.splits)
  obtain s2 k where q: "count_queries cdc net 0 0 100 (s1, out) = ((s2, out), Goes (int k, 0))" "settled b s2" "k \<le> 100"
    using count_queries_goes [OF assms b(1), of net 0 0 100 out] by auto
  let ?line = "Stdout (ln ''Successful: %d, Rate limited: %d'') [FInt (int k), FInt 0]"
  let ?body = "pbind (count_queries cdc net 0 0 100) (\<lambda>(successCount, rateLimitCount).
        pprint (ln ''Successful: %d, Rate limited: %d'') [FInt successCount, FInt rateLimitCount])"
  have body: "?body (s1, out) = ((s2, out @ [?line]), Goes ())" using q(1) by (simp add: pbind_def pprint_def)
  have x: "Example_RateLimitProtection cdc net ((c, n), out) = defer_Disconnect cdc net ?body (s1, out)"
    using c b(2) by (auto simp: Example_RateLimitProtection_def loose_client_def new_client_def cl_op_def pbind_def)
  obtain d m where s2: "s2 = (d, m)" by (cases s2)
  show ?thesis
  proof (cases b)
    case True
    with q(2) have "settled True s2" by simp
    from Disconnect_blocks [OF this] obtain s3 where "Client_Disconnect cdc net s2 = (s3, Blocked)" by blast
    with body x True dial q(3) show ?thesis
      by (auto simp: defer_Disconnect_def pdefer_def pbind_def cl_op_def split: prod.splits sum.splits)
  next
    case False
    then have "Client_Disconnect cdc net s2 = (s2, Ret (Some not_connected_client))"
      using q(2) s2 by (simp add: Client_Disconnect_def)
    with body x False dial q(3) show ?thesis
      by (auto simp: defer_Disconnect_def pdefer_def pbind_def cl_op_def pret_def split: prod.splits sum.splits)
  qed
qed

theorem rate_limit_never_counted_witness:
  "\<exists>s1 k. Example_RateLimitProtection sample_codec
      (server_network sample_codec (sample_driver (Inr 9)) (sample_clock, [], SelSlot) ''1.2.3.4'')
      ((sample_client, ((sample_server, 3), [])), []) =
    ((s1, [Stdout (ln ''Successful: %d, Rate limited: %d'') [FInt (int k), FInt 0]]), Hangs)"
proof -
  have "json_errors_differ sample_codec" by (simp add: json_errors_differ_def sample_codec_def table_defs)
  from rate_limit_never_counted [OF this, of "server_network sample_codec (sample_driver (Inr 9)) (sample_clock, [], SelSlot) ''1.2.3.4''"
      sample_client "((sample_server, 3), [])" "[]"]
  show ?thesis by (auto simp: server_network_def)
qed

end
