(* ===== verification/Examples_Pools.thy ===== *)
theory Examples_Pools
  imports Examples_Runs
begin

text \<open>
  The examples that start fifteen goroutines on one runtime (\<open>examples_mysql.go\<close> and \<open>examples_postgres.go\<close>). Each goroutine is at a
  point of its code; between two points it makes one access that the others see as a whole: it passes the gate, runs
  the query, records its result there, counts it, writes its line, or meets the receiving main goroutine on the channel.
  (The accesses inside the gate interleave in \<open>Gate_Threads\<close>.) A schedule says which of them moves next.
\<close>

section \<open>A goroutine\<close>

datatype pool_point =
    Asking
  | Running time go_context
  | Recording time go_context "go_error + handle"
  | Measuring time go_context "go_error + handle"
  | Reporting "go_error + handle"
  | Sending
  | Finished
  | Stuck

definition report_line :: "nat \<Rightarrow> go_error + handle \<Rightarrow> print_call" where
  "report_line i r =
     (case r of
        Inl err \<Rightarrow> Stderr ''Query %d failed: %v'' [FInt (int i), FError err]
      | Inr _ \<Rightarrow> Stdout (ln ''Query %d completed'') [FInt (int i)])"

text \<open>An access to the wrapper of the runtime, the gate and the world.\<close>

definition pool_access ::
    "('w db_state \<Rightarrow> 'w db_state \<times> pool_point outcome) \<Rightarrow> ('w, pool_point) rt_prog" where
  "pool_access f = rt_op (on_advancedDB f)"

definition pass_gate :: "'w sql_driver \<Rightarrow> gate_env \<Rightarrow> 'w db_state \<Rightarrow> 'w db_state \<times> pool_point outcome" where
  "pass_gate drv env = (\<lambda>(cg, adb, w).
     (let start = drv_Now drv w; ctx = context_WithTimeout start (queryTimeout adb) None
      in case env of (clk, others, sel) \<Rightarrow>
           (case ConnectionGate_Allow clk others sel cg of
              (cg1, Ret (Some err)) \<Rightarrow> ((cg1, adb, w), Ret (Measuring start ctx (Inl err)))
            | (cg1, Ret None) \<Rightarrow> ((cg1, adb, w), Ret (Running start ctx))
            | (cg1, Panic m) \<Rightarrow> ((cg1, adb, w), Panic m)
            | (cg1, Blocked) \<Rightarrow> ((cg1, adb, w), Ret Stuck))))"

definition run_query ::
    "'w sql_driver \<Rightarrow> string \<Rightarrow> time \<Rightarrow> go_context \<Rightarrow> 'w db_state \<Rightarrow> 'w db_state \<times> pool_point outcome" where
  "run_query drv q start ctx = (\<lambda>(cg, adb, w).
     (case retryQuery drv (retryPolicy adb) (adb_db adb) ctx q [] w of
        (w1, r) \<Rightarrow> ((cg, adb, w1), Ret (Recording start ctx r))))"

definition record_result ::
    "'w sql_driver \<Rightarrow> time \<Rightarrow> go_context \<Rightarrow> go_error + handle \<Rightarrow> 'w db_state \<Rightarrow> 'w db_state \<times> pool_point outcome" where
  "record_result drv start ctx r = (\<lambda>(cg, adb, w).
     ((case r of
         Inl _ \<Rightarrow> ConnectionGate_RecordFailure (drv_Now drv w) cg
       | Inr _ \<Rightarrow> ConnectionGate_RecordSuccess cg, adb, w), Ret (Measuring start ctx r)))"

definition measure_query ::
    "'w sql_driver \<Rightarrow> time \<Rightarrow> go_context \<Rightarrow> go_error + handle \<Rightarrow> 'w db_state \<Rightarrow> 'w db_state \<times> pool_point outcome" where
  "measure_query drv start ctx r = (\<lambda>(cg, adb, w).
     (let w1 = drv_Cancel drv ctx w in ((cg, record_elapsed drv start w1 adb, w1), Ret (Reporting r))))"

text \<open>
  One move of goroutine \<open>i\<close>. Its call of \<open>runtime.Query\<close> is cut where other goroutines see it: the accesses are those of
  \<open>AdvancedDB.Query\<close> and \<open>ExecuteWithGate\<close> in their order, and \<open>goroutine_alone_queries\<close> below shows that in a row they are the
  whole call. A goroutine that the gate does not let through does not move again, and one that sends on the channel, which
  has no buffer, waits until the main goroutine receives.
\<close>

fun pool_move ::
    "'w sql_driver \<Rightarrow> (nat \<Rightarrow> gate_env) \<Rightarrow> string \<Rightarrow> nat \<Rightarrow> pool_point \<Rightarrow> ('w, pool_point) rt_prog" where
  "pool_move drv genv q i Asking = (\<lambda>((st, k), out).
     (if \<not> IsConnected (fst st) then (((st, k), out), Goes (Reporting (Inl not_connected)))
      else pool_access (pass_gate drv (genv k)) ((st, Suc k), out)))"
| "pool_move drv genv q i (Running start ctx) = pool_access (run_query drv q start ctx)"
| "pool_move drv genv q i (Recording start ctx r) = pool_access (record_result drv start ctx r)"
| "pool_move drv genv q i (Measuring start ctx r) = pool_access (measure_query drv start ctx r)"
| "pool_move drv genv q i (Reporting r) = (\<lambda>(s, out). ((s, out @ [report_line i r]), Goes Sending))"
| "pool_move drv genv q i Sending = pret Sending"
| "pool_move drv genv q i Finished = pret Finished"
| "pool_move drv genv q i Stuck = pret Stuck"

section \<open>The examples\<close>

text \<open>
  The goroutines under a schedule, while the main goroutine receives \<open>m\<close> times from the channel: a scheduled goroutine that is
  sending meets it there. After the last receive the main goroutine goes on. A panic of a goroutine ends the process with code 2,
  without the deferred calls of the main goroutine.
\<close>

partial_function (option) pool_loop ::
    "(nat \<Rightarrow> pool_point \<Rightarrow> ('w, pool_point) rt_prog) \<Rightarrow> (nat \<Rightarrow> nat) \<Rightarrow> nat \<Rightarrow> nat \<Rightarrow> pool_point list \<Rightarrow>
     ('w rt_state \<times> nat) \<times> print_call list \<Rightarrow> ((('w rt_state \<times> nat) \<times> print_call list) \<times> unit flow) option" where
  "pool_loop move sched t m ps s =
     (if m = 0 then Some (s, Goes ())
      else
        (let i = sched t mod length ps
         in if ps ! i = Sending then pool_loop move sched (Suc t) (m - 1) (ps[i := Finished]) s
            else
              (let (s1, r) = move i (ps ! i) s
               in case r of
                    Goes p \<Rightarrow> pool_loop move sched (Suc t) m (ps[i := p]) s1
                  | _ \<Rightarrow> Some (s1, Exits 2))))"

text \<open>\<open>n\<close> goroutines are started, and \<open>m\<close> values received.\<close>

definition goroutines ::
    "'w sql_driver \<Rightarrow> (nat \<Rightarrow> gate_env) \<Rightarrow> (nat \<Rightarrow> nat) \<Rightarrow> nat \<Rightarrow> nat \<Rightarrow> string \<Rightarrow> ('w, unit) rt_prog" where
  "goroutines drv genv sched n m q s =
     (case pool_loop (pool_move drv genv q) sched 0 m (replicate n Asking) s of None \<Rightarrow> (s, Hangs) | Some x \<Rightarrow> x)"

definition pool_body :: "'w sql_driver \<Rightarrow> (nat \<Rightarrow> gate_env) \<Rightarrow> (nat \<Rightarrow> nat) \<Rightarrow> string \<Rightarrow> ('w, unit) rt_prog" where
  "pool_body drv genv sched q =
     (pbind (pprint (ln ''Initial connection pool stats:'') []) (\<lambda>_.
      pbind (call_Stats drv) (\<lambda>stats.
      pbind (pprint (ln (ln ''%+v'')) [FStats stats]) (\<lambda>_.
      pbind (goroutines drv genv sched 15 15 q) (\<lambda>_.
      pbind (pprint (ln (newline # ''Final connection pool stats:'')) []) (\<lambda>_.
      pbind (call_Stats drv) (\<lambda>stats.
      pprint (ln ''%+v'') [FStats stats])))))))"

definition pool_example ::
    "'w sql_driver \<Rightarrow> (nat \<Rightarrow> gate_env) \<Rightarrow> (nat \<Rightarrow> nat) \<Rightarrow> RuntimeConfig \<Rightarrow> string \<Rightarrow> ('w, unit) rt_prog" where
  "pool_example drv genv sched config q = session drv config (pool_body drv genv sched q)"

definition small_pool_config :: "environment \<Rightarrow> DatabaseType \<Rightarrow> string \<Rightarrow> RuntimeConfig" where
  "small_pool_config env dbType dsn = Build (WithConnectionPool 10 5 (typed_builder env dbType dsn))"

definition ExampleMySQLWithConnectionPool ::
    "'w sql_driver \<Rightarrow> (nat \<Rightarrow> gate_env) \<Rightarrow> (nat \<Rightarrow> nat) \<Rightarrow> environment \<Rightarrow> ('w, unit) rt_prog" where
  "ExampleMySQLWithConnectionPool drv genv sched env =
     pool_example drv genv sched (small_pool_config env DatabaseTypeMySQL mysql_dsn) ''SELECT SLEEP(1)''"

definition ExamplePostgreSQLWithConnectionPool ::
    "'w sql_driver \<Rightarrow> (nat \<Rightarrow> gate_env) \<Rightarrow> (nat \<Rightarrow> nat) \<Rightarrow> environment \<Rightarrow> ('w, unit) rt_prog" where
  "ExamplePostgreSQLWithConnectionPool drv genv sched env =
     pool_example drv genv sched (small_pool_config env DatabaseTypePostgreSQL postgres_dsn) ''SELECT pg_sleep(1)''"

section \<open>A goroutine that is alone\<close>

text \<open>Moves of one goroutine until it has the result of its query.\<close>

fun solo ::
    "'w sql_driver \<Rightarrow> (nat \<Rightarrow> gate_env) \<Rightarrow> string \<Rightarrow> nat \<Rightarrow> nat \<Rightarrow> pool_point \<Rightarrow> ('w, pool_point) rt_prog" where
  "solo drv genv q i 0 p = pret p"
| "solo drv genv q i (Suc n) p =
     (case p of
        Reporting r \<Rightarrow> pret p
      | _ \<Rightarrow> pbind (pool_move drv genv q i p) (solo drv genv q i n))"

lemmas pool_steps = pool_access_def rt_op_def on_advancedDB_def pass_gate_def run_query_def record_result_def measure_query_def

lemma solo_refused:
  assumes "IsConnected rt" "advancedDB rt = Some adb" "genv k = (clk, others, sel)"
    and "ConnectionGate_Allow clk others sel (rt_gate rt) = (cg, Ret (Some err))"
  shows "solo drv genv q i 4 Asking (((rt, w), k), out) =
    (case Runtime_Query drv (genv k) None q [] (rt, w) of (st, r) \<Rightarrow> (((st, Suc k), out), from_outcome (map_outcome Reporting r)))"
  using assms
  by (simp add: numeral_eq_Suc pbind_def pret_def pool_steps Runtime_Query_def AdvancedDB_Query_def gated_def ExecuteWithGate_def Let_def)

lemma solo_allowed:
  assumes "IsConnected rt" "advancedDB rt = Some adb" "genv k = (clk, others, sel)"
    and "ConnectionGate_Allow clk others sel (rt_gate rt) = (cg, Ret None)"
    and "retryQuery drv (retryPolicy adb) (adb_db adb) (context_WithTimeout (drv_Now drv w) (queryTimeout adb) None) q [] w = (w1, x)"
    and "at_done clk = drv_Now drv w1"
  shows "solo drv genv q i 4 Asking (((rt, w), k), out) =
    (case Runtime_Query drv (genv k) None q [] (rt, w) of (st, r) \<Rightarrow> (((st, Suc k), out), from_outcome (map_outcome Reporting r)))"
  using assms
  by (cases x)
    (simp_all add: numeral_eq_Suc pbind_def pret_def pool_steps Runtime_Query_def AdvancedDB_Query_def gated_def ExecuteWithGate_def Let_def)

text \<open>
  A goroutine of the pool examples that nobody interrupts does, access by access, what one call of \<open>Runtime.Query\<close>
  does: it ends up with the same runtime, the same world and the same result.
\<close>

lemma goroutine_alone_queries:
  assumes "IsConnected rt" and "advancedDB rt = Some adb" and "genv k = (clk, others, sel)"
    and "ConnectionGate_Allow clk others sel (rt_gate rt) = (cg, Ret e)"
    and "retryQuery drv (retryPolicy adb) (adb_db adb) (context_WithTimeout (drv_Now drv w) (queryTimeout adb) None) q [] w = (w1, x)"
    and "at_done clk = drv_Now drv w1"
  shows "solo drv genv q i 4 Asking (((rt, w), k), out) =
    (case Runtime_Query drv (genv k) None q [] (rt, w) of (st, r) \<Rightarrow> (((st, Suc k), out), from_outcome (map_outcome Reporting r)))"
proof (cases e)
  case None
  with solo_allowed [OF assms(1,2), where genv = genv and k = k, OF assms(3) _ assms(5,6)] assms(4) show ?thesis by simp
next
  case (Some err)
  with assms(4) have "ConnectionGate_Allow clk others sel (rt_gate rt) = (cg, Ret (Some err))" by simp
  from solo_refused [OF assms(1,2), where genv = genv and k = k, OF assms(3) this] show ?thesis .
qed

section \<open>Under a fair schedule\<close>

text \<open>A connected runtime whose gate does not make callers wait.\<close>

definition pool_ok :: "'w rt_state \<times> nat \<Rightarrow> bool" where
  "pool_ok s \<longleftrightarrow> session_inv s \<and> no_sem (rt_gate (fst (fst s)))"

fun moves_left :: "pool_point \<Rightarrow> nat" where
  "moves_left Asking = 6"
| "moves_left (Running _ _) = 5"
| "moves_left (Recording _ _ _) = 4"
| "moves_left (Measuring _ _ _) = 3"
| "moves_left (Reporting _) = 2"
| "moves_left Sending = 1"
| "moves_left _ = 0"

fun reported :: "pool_point \<Rightarrow> bool" where
  "reported Sending = True"
| "reported Finished = True"
| "reported _ = False"

text \<open>An access that keeps the pool and the kind of gate leaves such a runtime as it is.\<close>

lemma pool_access_goes:
  assumes "pool_ok ((rt, w), k)"
    and "\<And>cg adb w. no_sem cg \<Longrightarrow> \<exists>cg' adb' w' p. f (cg, adb, w) = ((cg', adb', w'), Ret p) \<and> no_sem cg' \<and>
      adb_db adb' = adb_db adb \<and> P p"
  shows "\<exists>s1 p. pool_access f (((rt, w), k), out) = ((s1, out), Goes p) \<and> pool_ok s1 \<and> P p"
proof -
  have i: "runtime_inv rt" "IsConnected rt" "detector_closed rt \<noteq> Some True" "no_sem (rt_gate rt)"
    using assms(1) by (simp_all add: pool_ok_def)
  then obtain adb where adb: "advancedDB rt = Some adb" using connected_wrapper by blast
  obtain cg' adb' w' p where f: "f (rt_gate rt, adb, w) = ((cg', adb', w'), Ret p)" "no_sem cg'" "adb_db adb' = adb_db adb" "P p"
    using assms(2) [OF i(4)] by blast
  then have "pool_access f (((rt, w), k), out) = ((((rt\<lparr>rt_gate := cg', advancedDB := Some adb'\<rparr>, w'), k), out), Goes p)"
    using adb by (simp add: pool_access_def rt_op_def on_advancedDB_def)
  moreover have "pool_ok ((rt\<lparr>rt_gate := cg', advancedDB := Some adb'\<rparr>, w'), k)"
    using i adb f by (auto simp: pool_ok_def runtime_inv_def IsConnected_def detector_closed_def split: option.splits)
  ultimately show ?thesis using f(4) by blast
qed

definition moves_on :: "pool_point \<Rightarrow> pool_point \<Rightarrow> bool" where
  "moves_on p p' \<longleftrightarrow> moves_left p' < moves_left p \<and> p' \<noteq> Stuck \<and> \<not> reported p'"

lemma pass_gate_goes:
  assumes "no_sem cg"
  shows "\<exists>cg' adb' w' p. pass_gate drv env (cg, adb, w) = ((cg', adb', w'), Ret p) \<and> no_sem cg' \<and> adb_db adb' = adb_db adb \<and>
    moves_on Asking p"
proof -
  obtain clk others sel where env: "env = (clk, others, sel)" by (metis surj_pair)
  obtain cg' r where "ConnectionGate_Allow clk others sel cg = (cg', Ret r)" "no_sem cg'" using no_sem_Allow [OF assms] by blast
  then show ?thesis by (cases r) (simp_all add: pass_gate_def env Let_def moves_on_def)
qed

lemma access_goes:
  assumes "no_sem cg"
  shows "\<exists>cg' adb' w' p. run_query drv q start ctx (cg, adb, w) = ((cg', adb', w'), Ret p) \<and> no_sem cg' \<and>
      adb_db adb' = adb_db adb \<and> moves_on (Running start ctx) p"
    "\<exists>cg' adb' w' p. record_result drv start ctx r (cg, adb, w) = ((cg', adb', w'), Ret p) \<and> no_sem cg' \<and>
      adb_db adb' = adb_db adb \<and> moves_on (Recording start ctx r) p"
    "\<exists>cg' adb' w' p. measure_query drv start ctx r (cg, adb, w) = ((cg', adb', w'), Ret p) \<and> no_sem cg' \<and>
      adb_db adb' = adb_db adb \<and> moves_on (Measuring start ctx r) p"
  using assms
  by (auto simp: run_query_def record_result_def measure_query_def record_elapsed_def moves_on_def no_sem_RecordFailure Let_def
      split: prod.split sum.split)

text \<open>A move of a goroutine that has not finished: it gets nearer to its end, and it writes its line when it reports.\<close>

lemma pool_move_goes:
  assumes "pool_ok s" "p \<noteq> Stuck" "p \<noteq> Finished" "p \<noteq> Sending"
  shows "\<exists>s1 p1 rs. pool_move drv genv q i p (s, out) = ((s1, out @ map (case_prod report_line) rs), Goes p1) \<and> pool_ok s1 \<and>
    moves_left p1 < moves_left p \<and> p1 \<notin> {Stuck, Finished} \<and> map fst rs = (if reported p1 then [i] else [])"
proof -
  obtain rt w k where s: "s = ((rt, w), k)" by (metis surj_pair)
  have k: "pool_ok ((rt, w), Suc k)" "IsConnected rt" using assms(1) s by (simp_all add: pool_ok_def)
  have access: "\<exists>s1 p1 rs. pool_access f (((rt, w), j), out) = ((s1, out @ map (case_prod report_line) rs), Goes p1) \<and> pool_ok s1 \<and>
      moves_left p1 < moves_left p \<and> p1 \<notin> {Stuck, Finished} \<and> map fst rs = (if reported p1 then [i] else [])"
    if "\<exists>s1 p1. pool_access f (((rt, w), j), out) = ((s1, out), Goes p1) \<and> pool_ok s1 \<and> moves_on p p1" for f j
    using that by (fastforce simp: moves_on_def)
  note ok = assms(1) [unfolded s]
  show ?thesis
  proof (cases p)
    case Asking
    have "\<exists>s1 p1. pool_access (pass_gate drv (genv k)) (((rt, w), Suc k), out) = ((s1, out), Goes p1) \<and> pool_ok s1 \<and> moves_on p p1"
      unfolding Asking by (rule pool_access_goes [OF k(1)]) (rule pass_gate_goes)
    from access [OF this] Asking s k(2) show ?thesis by simp
  next
    case (Running start ctx)
    have "\<exists>s1 p1. pool_access (run_query drv q start ctx) (((rt, w), k), out) = ((s1, out), Goes p1) \<and> pool_ok s1 \<and> moves_on p p1"
      unfolding Running by (rule pool_access_goes [OF ok]) (rule access_goes(1))
    from access [OF this] Running s show ?thesis by simp
  next
    case (Recording start ctx r)
    have "\<exists>s1 p1. pool_access (record_result drv start ctx r) (((rt, w), k), out) = ((s1, out), Goes p1) \<and> pool_ok s1 \<and> moves_on p p1"
      unfolding Recording by (rule pool_access_goes [OF ok]) (rule access_goes(2))
    from access [OF this] Recording s show ?thesis by simp
  next
    case (Measuring start ctx r)
    have "\<exists>s1 p1. pool_access (measure_query drv start ctx r) (((rt, w), k), out) = ((s1, out), Goes p1) \<and> pool_ok s1 \<and> moves_on p p1"
      unfolding Measuring by (rule pool_access_goes [OF ok]) (rule access_goes(3))
    from access [OF this] Measuring s show ?thesis by simp
  next
    case (Reporting r)
    with assms(1) show ?thesis by (intro exI [of _ s] exI [of _ Sending] exI [of _ "[(i, r)]"]) simp
  qed (use assms in simp_all)
qed

text \<open>Which goroutines have still to report, after a move.\<close>

lemma unreported_update:
  "i < length ps \<Longrightarrow> {j. j < length ps \<and> \<not> reported (ps[i := p] ! j)} =
     {j. j < length ps \<and> \<not> reported (ps ! j)} - {i} \<union> (if reported p then {} else {i})"
  by (auto simp: nth_list_update)

lemma moves_left_update:
  "i < length ps \<Longrightarrow> moves_left p < moves_left (ps ! i) \<Longrightarrow> sum_list (map moves_left (ps[i := p])) < sum_list (map moves_left ps)"
  by (induction ps arbitrary: i) (auto simp: less_Suc_eq_0_disj nth_Cons split: nat.splits)

text \<open>How many goroutines have still to send.\<close>

definition unfinished :: "pool_point list \<Rightarrow> nat" where
  "unfinished ps = length (filter (\<lambda>p. p \<noteq> Finished) ps)"

lemma unfinished_update:
  "i < length ps \<Longrightarrow> ps ! i \<noteq> Finished \<Longrightarrow> unfinished ps = Suc (unfinished (ps[i := Finished]))"
  "i < length ps \<Longrightarrow> ps ! i \<noteq> Finished \<Longrightarrow> p \<noteq> Finished \<Longrightarrow> unfinished (ps[i := p]) = unfinished ps"
  by (induction ps arbitrary: i) (auto simp: unfinished_def nth_Cons split: nat.splits)

definition fair :: "nat \<Rightarrow> (nat \<Rightarrow> nat) \<Rightarrow> bool" where
  "fair n sched \<longleftrightarrow> (\<forall>i < n. \<forall>t. \<exists>d. sched (t + d) mod n = i)"

text \<open>
  What is left to a group of goroutines while the main goroutine receives as often as there are senders: all finish, and each
  that has not reported does so once.
\<close>

definition all_finish ::
    "'w sql_driver \<Rightarrow> (nat \<Rightarrow> gate_env) \<Rightarrow> string \<Rightarrow> (nat \<Rightarrow> nat) \<Rightarrow> nat \<Rightarrow> pool_point list \<Rightarrow> 'w rt_state \<times> nat \<Rightarrow>
     print_call list \<Rightarrow> bool" where
  "all_finish drv genv q sched t ps s out \<longleftrightarrow>
     (\<exists>s1 rs. pool_loop (pool_move drv genv q) sched t (unfinished ps) ps (s, out) =
          Some ((s1, out @ map (case_prod report_line) rs), Goes ()) \<and>
        pool_ok s1 \<and> distinct (map fst rs) \<and> set (map fst rs) = {j. j < length ps \<and> \<not> reported (ps ! j)})"

lemma finish_after_send:
  assumes "j < length ps" "sched t mod length ps = j" "ps ! j = Sending"
    and "all_finish drv genv q sched (Suc t) (ps[j := Finished]) s out"
  shows "all_finish drv genv q sched t ps s out"
proof -
  have u: "unfinished ps = Suc (unfinished (ps[j := Finished]))" using unfinished_update(1) [OF assms(1)] assms(3) by simp
  have "pool_loop (pool_move drv genv q) sched t (unfinished ps) ps (s, out) =
      pool_loop (pool_move drv genv q) sched (Suc t) (unfinished (ps[j := Finished])) (ps[j := Finished]) (s, out)"
    using u assms(2,3) by (subst pool_loop.simps) (simp add: Let_def)
  moreover have "{i. i < length ps \<and> \<not> reported (ps[j := Finished] ! i)} = {i. i < length ps \<and> \<not> reported (ps ! i)}"
    using assms(1,3) by (auto simp: unreported_update)
  ultimately show ?thesis using assms(4) unfolding all_finish_def by simp
qed

lemma finish_after_access:
  assumes "pool_ok s" "Stuck \<notin> set ps" "j < length ps" "sched t mod length ps = j" "ps ! j \<noteq> Finished" "ps ! j \<noteq> Sending"
    and "\<And>s1 p1 out1. pool_ok s1 \<Longrightarrow> p1 \<noteq> Stuck \<Longrightarrow> moves_left p1 < moves_left (ps ! j) \<Longrightarrow>
      all_finish drv genv q sched (Suc t) (ps[j := p1]) s1 out1"
  shows "all_finish drv genv q sched t ps s out"
proof -
  have p: "ps ! j \<noteq> Stuck" using assms(2,3) by (metis nth_mem)
  then have new: "\<not> reported (ps ! j)" using assms(5,6) by (cases "ps ! j") simp_all
  obtain s1 p1 rs where m: "pool_move drv genv q j (ps ! j) (s, out) = ((s1, out @ map (case_prod report_line) rs), Goes p1)"
    "pool_ok s1" "moves_left p1 < moves_left (ps ! j)" "p1 \<notin> {Stuck, Finished}" "map fst rs = (if reported p1 then [j] else [])"
    using pool_move_goes [OF assms(1) p assms(5,6)] by metis
  have u: "unfinished (ps[j := p1]) = unfinished ps" "unfinished ps \<noteq> 0"
    using unfinished_update [OF assms(3,5)] m(4) by simp_all
  obtain s2 rs2 where l: "pool_loop (pool_move drv genv q) sched (Suc t) (unfinished ps) (ps[j := p1])
        (s1, out @ map (case_prod report_line) rs) =
      Some ((s2, (out @ map (case_prod report_line) rs) @ map (case_prod report_line) rs2), Goes ())" "pool_ok s2"
    "distinct (map fst rs2)" "set (map fst rs2) = {i. i < length ps \<and> \<not> reported (ps[j := p1] ! i)}"
    using assms(7) [OF m(2) _ m(3), of "out @ map (case_prod report_line) rs"] m(4) u(1) unfolding all_finish_def by auto
  then have "pool_loop (pool_move drv genv q) sched t (unfinished ps) ps (s, out) =
      Some ((s2, out @ map (case_prod report_line) (rs @ rs2)), Goes ())"
    using m(1) l(1) assms(4,6) u(2) by (subst pool_loop.simps) (simp add: Let_def)
  moreover have "distinct (map fst (rs @ rs2)) \<and> set (map fst (rs @ rs2)) = {i. i < length ps \<and> \<not> reported (ps ! i)}"
    using m(5) new l(3,4) assms(3) unfolding unreported_update [OF assms(3)] by (auto split: if_splits)
  ultimately show ?thesis using l(2) unfolding all_finish_def by blast
qed

lemma finish_after_move:
  assumes "pool_ok s" "Stuck \<notin> set ps" "j < length ps" "sched t mod length ps = j" "ps ! j \<noteq> Finished"
    and "\<And>s1 p1 out1. pool_ok s1 \<Longrightarrow> p1 \<noteq> Stuck \<Longrightarrow> moves_left p1 < moves_left (ps ! j) \<Longrightarrow>
      all_finish drv genv q sched (Suc t) (ps[j := p1]) s1 out1"
  shows "all_finish drv genv q sched t ps s out"
proof (cases "ps ! j = Sending")
  case True
  then show ?thesis by (intro finish_after_send [where sched = sched and t = t, OF assms(3,4)] assms(6) [OF assms(1)]) simp_all
next
  case False
  from finish_after_access [where sched = sched and t = t, OF assms(1-5) False assms(6)] show ?thesis .
qed

lemma finish_after_idle:
  assumes "unfinished ps \<noteq> 0" "ps ! (sched t mod length ps) = Finished"
    and "all_finish drv genv q sched (Suc t) ps s out"
  shows "all_finish drv genv q sched t ps s out"
proof -
  have "ps[sched t mod length ps := Finished] = ps" using assms(2) by (metis list_update_id)
  then have "pool_loop (pool_move drv genv q) sched t (unfinished ps) ps (s, out) =
      pool_loop (pool_move drv genv q) sched (Suc t) (unfinished ps) ps (s, out)"
    using assms(1,2) by (subst pool_loop.simps) (simp add: Let_def pret_def)
  with assms(3) show ?thesis unfolding all_finish_def by simp
qed

lemma pool_loop_ends:
  assumes "fair (length ps) sched" "pool_ok s" "Stuck \<notin> set ps"
  shows "all_finish drv genv q sched t ps s out"
  using assms
proof (induction "sum_list (map moves_left ps)" arbitrary: ps s t out rule: less_induct)
  case (less ps s t out)
  show ?case
  proof (cases "unfinished ps = 0")
    case True
    then have "pool_loop (pool_move drv genv q) sched t (unfinished ps) ps (s, out) = Some ((s, out), Goes ())"
      by (subst pool_loop.simps) simp
    moreover have "{j. j < length ps \<and> \<not> reported (ps ! j)} = {}"
      using True by (auto simp: unfinished_def filter_empty_conv) (metis nth_mem reported.simps(2))
    ultimately show ?thesis
      unfolding all_finish_def using less.prems(2) by (intro exI [of _ s] exI [of _ "[]"]) simp
  next
    case False
    then obtain i where i: "i < length ps" "ps ! i \<noteq> Finished" by (auto simp: unfinished_def filter_empty_conv in_set_conv_nth)
    with less.prems(1) obtain d where "sched (t + d) mod length ps = i" unfolding fair_def by blast
    then show ?thesis
    proof (induction d arbitrary: t)
      case (Suc d)
      let ?j = "sched t mod length ps"
      have j: "?j < length ps" by (rule mod_less_divisor) (use i(1) in linarith)
      show ?case
      proof (cases "ps ! ?j = Finished")
        case True
        have "all_finish drv genv q sched (Suc t) ps s out" by (rule Suc.IH) (use Suc.prems in simp)
        then show ?thesis by (rule finish_after_idle [where t = t and sched = sched, OF False True])
      next
        case unfinished: False
        show ?thesis
          by (rule finish_after_move [where t = t and sched = sched, OF less.prems(2,3) j refl unfinished], rule less.hyps)
            (use less.prems j in \<open>auto simp: moves_left_update dest: set_update_subset_insert [THEN subsetD]\<close>)
      qed
    next
      case 0
      show ?case
        by (rule finish_after_move [OF less.prems(2,3) i(1) _ i(2)], use 0 in simp, rule less.hyps)
          (use less.prems i in \<open>auto simp: moves_left_update dest: set_update_subset_insert [THEN subsetD]\<close>)
    qed
  qed
qed

section \<open>Properties\<close>

lemma stats_goes:
  assumes "pool_ok s"
  shows "\<exists>stats. call_Stats drv (s, out) = ((s, out), Goes stats)"
proof -
  obtain rt w k where s: "s = ((rt, w), k)" by (metis surj_pair)
  with assms obtain adb where "advancedDB rt = Some adb" "IsConnected rt"
    using connected_wrapper by (auto simp: pool_ok_def)
  then show ?thesis by (simp add: s call_Stats_def rt_op_def Runtime_Stats_def)
qed

lemma goroutines_go:
  assumes "fair 15 sched" "pool_ok s"
  shows "\<exists>s1 rs. goroutines drv genv sched 15 15 q (s, out) = ((s1, out @ map (case_prod report_line) rs), Goes ()) \<and> pool_ok s1 \<and>
    distinct (map fst rs) \<and> set (map fst rs) = {..<15}"
proof -
  have "all_finish drv genv q sched 0 (replicate 15 Asking) s out"
    by (rule pool_loop_ends) (use assms in simp_all)
  moreover have "unfinished (replicate 15 Asking) = 15" by (simp add: unfinished_def)
  moreover have "{j. j < length (replicate 15 Asking) \<and> \<not> reported (replicate 15 Asking ! j)} = {..<15}" by auto
  ultimately show ?thesis unfolding all_finish_def goroutines_def by fastforce
qed

lemma pool_body_goes:
  assumes "fair 15 sched" "pool_ok s"
  shows "\<exists>s1 stats0 stats1 rs. pool_body drv genv sched q (s, out) =
      ((s1, out @ [Stdout (ln ''Initial connection pool stats:'') [], Stdout (ln (ln ''%+v'')) [FStats stats0]] @
        map (case_prod report_line) rs @
        [Stdout (ln (newline # ''Final connection pool stats:'')) [], Stdout (ln ''%+v'') [FStats stats1]]), Goes ()) \<and> pool_ok s1 \<and>
    distinct (map fst rs) \<and> set (map fst rs) = {..<15}"
proof -
  let ?head = "out @ [Stdout (ln ''Initial connection pool stats:'') []]"
  obtain st0 where st0: "call_Stats drv (s, ?head) = ((s, ?head), Goes st0)" using stats_goes [OF assms(2)] by blast
  obtain s1 rs where g: "goroutines drv genv sched 15 15 q (s, ?head @ [Stdout (ln (ln ''%+v'')) [FStats st0]]) =
      ((s1, (?head @ [Stdout (ln (ln ''%+v'')) [FStats st0]]) @ map (case_prod report_line) rs), Goes ())" "pool_ok s1"
    "distinct (map fst rs)" "set (map fst rs) = {..<15}"
    using goroutines_go [OF assms] by metis
  let ?tail = "((?head @ [Stdout (ln (ln ''%+v'')) [FStats st0]]) @ map (case_prod report_line) rs) @
    [Stdout (ln (newline # ''Final connection pool stats:'')) []]"
  obtain st1 where st1: "call_Stats drv (s1, ?tail) = ((s1, ?tail), Goes st1)" using stats_goes [OF g(2)] by blast
  have "pool_body drv genv sched q (s, out) = ((s1, ?tail @ [Stdout (ln ''%+v'') [FStats st1]]), Goes ())"
    using st0 g(1) st1 by (simp add: pool_body_def pbind_def pprint_def)
  with g(2-4) show ?thesis by auto
qed

text \<open>
  C36. With fifteen goroutines, fifteen receives of the main goroutine and a gate that does not make callers wait (as with nothing
  set in the environment), a pool example ends under every fair schedule, whatever the database answers, as long as each of its
  calls returns: it could not connect and ends the process, or it writes its two headers, between them exactly one line for each
  goroutine, in some order, and after them at most a log line about the disconnection, and returns.
\<close>

theorem pool_example_ends:
  assumes "fair 15 sched" and "rc_BackpressureMode config \<notin> {''block'', ''timeout''}"
  shows "\<exists>s1 lines. pool_example drv genv sched config q (s, out) = ((s1, out @ lines), Exits 1) \<and> list_all is_log_line lines \<or>
    (\<exists>s1 stats0 stats1 rs logs. pool_example drv genv sched config q (s, out) =
      ((s1, out @ [Stdout (ln ''Initial connection pool stats:'') [], Stdout (ln (ln ''%+v'')) [FStats stats0]] @
        map (case_prod report_line) rs @
        [Stdout (ln (newline # ''Final connection pool stats:'')) [], Stdout (ln ''%+v'') [FStats stats1]] @ logs), Goes ()) \<and>
      distinct (map fst rs) \<and> set (map fst rs) = {..<15} \<and> list_all is_log_line logs)"
proof -
  obtain rt w k where s: "s = ((rt, w), k)" by (metis surj_pair)
  have body: "pool_example drv genv sched config q = session drv config (pool_body drv genv sched q)"
    by (simp add: pool_example_def)
  show ?thesis
  proof (cases rule: connected_session_cases [of drv w config "\<lambda>err. pfatal ''Failed to connect: %v'' [FError err]"
        "pool_body drv genv sched q" rt k out])
    case (refused err rt1 w1)
    then show ?thesis by (auto simp: body session_def s pfatal_def)
  next
    case (connected rt1 w1)
    then have "no_sem (rt_gate rt1)"
      using assms(2) no_sem_New [of "gate_config config" "drv_Now drv w"]
      by (auto simp: Runtime_Connect_def NewDBRuntime_def gate_config_def Let_def split: prod.splits option.splits)
    with connected(2) have "pool_ok ((rt1, w1), k)" by (simp add: pool_ok_def)
    from pool_body_goes [OF assms(1) this, of drv genv q out] obtain s2 st0 st1 rs where
      b: "pool_body drv genv sched q (((rt1, w1), k), out) =
        ((s2, out @ [Stdout (ln ''Initial connection pool stats:'') [], Stdout (ln (ln ''%+v'')) [FStats st0]] @
        map (case_prod report_line) rs @
        [Stdout (ln (newline # ''Final connection pool stats:'')) [], Stdout (ln ''%+v'') [FStats st1]]), Goes ())" "pool_ok s2"
      "distinct (map fst rs)" "set (map fst rs) = {..<15}" by blast
    obtain rt2 w2 k2 where s2: "s2 = ((rt2, w2), k2)" by (metis surj_pair)
    then have "detector_closed rt2 \<noteq> Some True" using b(2) by (simp add: pool_ok_def)
    from pdefer_disconnect [where body = "pool_body drv genv sched q", OF b(1) [unfolded s2] this, of drv] connected(3) b(3,4) show ?thesis
      by (auto simp: body session_def s)
  qed
qed

section \<open>Witnesses\<close>

lemma round_robin_fair: "0 < n \<Longrightarrow> fair n (\<lambda>t. t)"
  unfolding fair_def
proof (intro allI impI)
  fix i t
  assume "0 < n" "i < n"
  then have e: "t + ((n - 1) * t + i) = n * t + i" by (cases n) simp_all
  have "(t + ((n - 1) * t + i)) mod n = i" unfolding e using \<open>i < n\<close> by simp
  then show "\<exists>d. (t + d) mod n = i" ..
qed

lemma small_pool_mode: "rc_BackpressureMode (small_pool_config (\<lambda>_. []) dbType dsn) = ''drop''"
  by (simp add: small_pool_config_def typed_builder_def Build_def WithConnectionPool_def WithDSN_def WithDatabaseType_def
      NewConfigBuilder_def DefaultConfig_def getEnv_def Let_def)

theorem pool_example_ends_witness:
  "snd (ExampleMySQLWithConnectionPool (sample_driver (Inr 9)) (\<lambda>_. (sample_clock, [], SelSlot)) (\<lambda>t. t) (\<lambda>_. [])
     (((NewDBRuntime (Time 1) None, 3), 0), [])) \<in> {Exits 1, Goes ()}"
  using pool_example_ends [OF round_robin_fair [of 15], of "small_pool_config (\<lambda>_. []) DatabaseTypeMySQL mysql_dsn" "sample_driver (Inr 9)"
      "\<lambda>_. (sample_clock, [], SelSlot)" "''SELECT SLEEP(1)''" "((NewDBRuntime (Time 1) None, 3), 0)" "[]"]
  by (auto simp: small_pool_mode ExampleMySQLWithConnectionPool_def)

end
