(* ===== verification/Spec2Isabelle.thy ===== *)
theory Spec2Isabelle
  imports Gate Cache Db Open Runtime Protocol Server Client Utils Monitor Config Go_Paths Blob_Files Blob_Cli Blob_Db
    Gate_Threads Runtime_Types Reports Programs Examples_Basic Examples_Drivers Examples_Runs Examples_Clients Examples_Pairs
    Examples_Pools Examples_Servers
begin

text \<open>
  A verification of fluxor-db, a database runtime in Go: a gate that protects a database from overload, a wrapper of
  \<open>database/sql\<close> with retries, a connection manager, a cache, the runtime that combines them, a TCP
  server and client for it, and blob storages in files and in the database.

  \<^bold>\<open>Parts and theories.\<close> The file of the source is in brackets; a record carries the fields of a struct, and a
  function the name of the method, prefixed where two components share a name.

  \<^item> \<open>Fluxor_Prelude\<close>: Go values (\<open>int64\<close> with its wrap-around, durations, instants), the outcome of a call that returns,
    panics or blocks, runs of a machine, and the interfaces \<open>machine_invariant\<close>, \<open>machine_refinement\<close>
    and \<open>counted_machine\<close> that lift facts about one step to runs.
  \<^item> \<open>Go_Float64\<close>: IEEE double precision with rounding to nearest even, for the refill of the rate limiter, the backoff of the
    retry loop and the success rate. \<open>Go_Paths\<close>: what the blob storages use of \<open>strings\<close> and \<open>path/filepath\<close>.
  \<^item> \<open>Db_Errors\<close> [\<open>errors.go\<close>]: error values, their texts and classification.
  \<^item> \<open>Gate_Circuit\<close>, \<open>Gate_Rate\<close>, \<open>Gate_Limiter\<close>, \<open>Gate\<close> [\<open>gate.go\<close>]: circuit breaker, token bucket, connection limiter with its
    three backpressure modes, and the gate that puts them in series around an operation.
  \<^item> \<open>Go_Threads\<close>: interleavings of goroutines with a shared state, as a step relation, and the interface \<open>thread_invariant\<close>.
    \<open>Gate_Threads\<close> [\<open>gate.go\<close>]: the operations of the circuit breaker and the limiter access by access, each lock, atomic
    load and channel operation a step of its own.
  \<^item> \<open>Cache\<close> [\<open>cache.go\<close>]: the LRU cache with expiry, over an explicit store of list elements.
  \<^item> \<open>Sql_Driver\<close>: \<open>database/sql\<close>, its drivers and contexts as a record of operations on an arbitrary world.
    \<open>Retry\<close>, \<open>Db\<close> [\<open>db.go\<close>]: the retry loop, the statement cache, the metrics, the wrapper and its transactions.
  \<^item> \<open>Open\<close> [\<open>open.go\<close>]: the connection manager with leak detector, validator and warm-up.
  \<^item> \<open>Runtime\<close> [\<open>dbruntime.go\<close>]: the runtime, its cached queries, and all its calls as one machine. \<open>Runtime_Types\<close>: the range of every
    part of its state, and that the calls of the runtime and of its transactions keep to it (\<open>typed_operation\<close> is the
    contract of one call).
  \<^item> \<open>Config\<close> [\<open>config.go\<close>]: defaults from the environment, the builder, validation.
  \<^item> \<open>Protocol\<close>, \<open>Server\<close>, \<open>Client\<close> [\<open>tcp_protocol.go\<close>, \<open>tcp_server.go\<close>, \<open>tcp_client.go\<close>]: frames of one JSON text per line, the
    admission and handling of requests, and the client with its two locks. The handling of a message is a check and a dispatch, between which other messages are
    handled (\<open>message_step\<close>). A server may lack a runtime, as its configuration may; its handlers then panic. The client talks to a network that is an argument; the composition instantiates it with the server.
  \<^item> \<open>Utils\<close> [\<open>utils.go\<close>, the recovery part of \<open>errors.go\<close>], \<open>Monitor\<close> [\<open>monitor.go\<close>]: helpers on top of the runtime.
  \<^item> \<open>Blob_Files\<close>, \<open>Blob_Db\<close> [\<open>blob.go\<close>], \<open>Blob_Cli\<close> [\<open>cmd/blobonly/main.go\<close>]: the two storages of the library, and the
    command with a storage of its own. The file system is a table of nodes whose operations may fail, a write also half-way; \<open>Walk\<close>
    and \<open>WalkDir\<close> are two functions on it, as the first examines every node it meets and the second does not.
  \<^item> \<open>Reports\<close> [the formatting in \<open>utils.go\<close> and \<open>monitor.go\<close>]: printed lines as formats with their arguments. \<open>Programs\<close>: whole
    programs over the runtime as functions on its state and the lines printed so far, with early returns, \<open>log.Fatalf\<close>, panics
    and deferred calls, and rules for programs that do not panic or only log; \<open>runtime_frame\<close> is what they need of the runtime.
  \<^item> \<open>Examples_Basic\<close> [\<open>main\<close> of \<open>dbruntime.go\<close>, \<open>examples.go\<close>, \<open>examples_cache.go\<close>, \<open>examples_inmemory.go\<close>],
    \<open>Examples_Drivers\<close> [\<open>examples_mysql.go\<close>, \<open>examples_postgres.go\<close>], \<open>Examples_Clients\<close> [\<open>examples_tcp.go\<close>,
    \<open>examples_security.go\<close>]: the programs that the repository comes with. \<open>Examples_Runs\<close> follows some of them to their end.
    \<open>Examples_Pairs\<close> [\<open>examples_inmemory.go\<close>]: the programs on two runtimes. \<open>Examples_Pools\<close> [\<open>examples_mysql.go\<close>,
    \<open>examples_postgres.go\<close>]: the programs whose goroutines share a runtime, access by access under a schedule, with
    the receives of the main goroutine. \<open>Examples_Servers\<close>
    [\<open>examples_tcp.go\<close>, \<open>examples_security.go\<close>, \<open>examples_inmemory.go\<close>]: the programs that run a server.

  \<^bold>\<open>State and effects.\<close> Operations take the state and return it with their result. An error is a value, a panic or a call that
    never returns is an outcome. What a method does under its mutex is one step, and \<open>Gate_Threads\<close> shows for
    the circuit breaker when that is exact and when it is not; where the code waits (the
    semaphore of the limiter, the locks of the client, the mutex of the server at its shutdown) what others do meanwhile is an
    argument. Clock readings are arguments, in the order in which the code makes them, or operations on the driver's world.
    Goroutines are counted where they start, and their bodies are operations of their own. The programs that run a server stop
    between their statements for what the accept loop and the handlers do there, which is an argument; a panic in one of them ends
    the process.

  \<^bold>\<open>What is a parameter.\<close> The driver, the network, the listener, what \<open>Scan\<close> finds in a row, the JSON codec, MD5,
    the text of a time, the environment, and the order in which Go meets the entries of a map. What a theorem needs of one is a
    hypothesis that states its documentation (a round trip of the codec, a cursor that \<open>Next\<close> moves and \<open>Scan\<close> reads
    and that ends, a transaction that is rolled back with its context), and its witness instantiates it. A program that passes the gate several times takes
    what it meets there from a sequence, one entry for each call.

  \<^bold>\<open>What the theorems show.\<close> The circuit breaker and the cache refine abstract machines, and the storage in files refines a map. The
    limiter stays within its limit, and the token bucket within what it may admit over any period, for rates up to 900 million. The retry loops are bounded and wait as configured. No call of the
    runtime panics except a repeated \<open>Disconnect\<close>, which always does with the default configuration. Frames,
    tags and settings survive their encodings. A request that a client sends is executed once and its result
    is what the client returns, and one with an idempotency key is not executed again while its response is kept, in all
    interleavings of later messages. \<open>blobonly get\<close> prints what \<open>blobonly put\<close> read. The limiter keeps its limit in all interleavings
    of goroutines. The state of a runtime stays in its types. \<open>main\<close>, the examples that check their connection, those on two runtimes and
    the servers with a runtime never panic, and the pool examples end under every fair schedule. Some theorems pin down behaviour
    that is a defect: slots that are not given back, transactions that can never commit and are
    reported as committed, two statements with one idempotency key that are both executed because the
    second was checked too early, a retry with such a key that the client rejects, a \<open>Disconnect\<close> that deadlocks, keys that
    leave the root of a storage, a breaker closed by a success that was read too early, whitelists that admit nobody, a server
    that dies of its first request, and examples that panic, hang or never reach the success they announce.

  \<^bold>\<open>Loops.\<close> Loops with a counter are functions with a termination proof, without fuel. The loops over result sets (\<open>read_rows\<close>,
    \<open>select_loop\<close>, \<open>list_rows\<close>) end only if the driver says so: they are partial functions in the option monad, and
    \<open>rows_are_read\<close>, \<open>select_loop_returns\<close> and \<open>rows_are_listed\<close> show that they return on result sets that end. The accept
    loop and the loop of the monitor run over the list of what their \<open>select\<close> receives. The loops of the example programs that
    need not end (\<open>loop_run\<close>, \<open>pool_loop\<close>) are partial functions too, whose absence of a result is the flow \<open>Hangs\<close>;
    \<open>pool_example_ends\<close> shows that the goroutines finish if each of them gets its turn again and again.

  \<^bold>\<open>Not modelled.\<close> Interleavings inside the accesses of the pool examples, which \<open>Gate_Threads\<close> takes apart for the gate only;
    log lines outside the modelled programs; what \<open>fmt\<close> makes of a format and its arguments; the fields that carry pointers to
    the enclosing runtime, as it is the state the operations act on; symbolic links and permissions in the file system. Tests,
    documents and build files are not part of the model.
\<close>

section \<open>From the configuration to the life of a runtime\<close>

lemma builder_step_leak:
  "rc_EnableLeakDetection (cb_config (builder_step op cb)) =
     (case op of DoLeak a d \<Rightarrow> a | _ \<Rightarrow> rc_EnableLeakDetection (cb_config cb))"
  by (cases op) (simp_all add: builder_defs)

lemma fold_builder_leak:
  assumes "\<forall>d. DoLeak False d \<notin> set ops" "rc_EnableLeakDetection (cb_config cb)"
  shows "rc_EnableLeakDetection (cb_config (fold builder_step ops cb))"
  using assms
proof (induction ops arbitrary: cb)
  case (Cons op ops)
  have "rc_EnableLeakDetection (cb_config (builder_step op cb))"
    using Cons.prems by (auto simp: builder_step_leak split: builder_op.splits)
  with Cons show ?case by simp
qed simp

text \<open>
  C33. The life of a runtime built the default way: with no setting for leak detection in the environment, and
  whatever calls configure the builder short of turning leak detection off, the first \<open>Disconnect\<close> of the runtime
  returns and every later one panics, reconnected or not and whatever is executed in between and whatever the
  database answers. No other call panics.
\<close>

theorem default_runtime_disconnects_once:
  assumes "env ''DB_ENABLE_LEAK_DETECTION'' = []" and "\<forall>d. DoLeak False d \<notin> set ops"
  shows "map answer_panics (snd (run (rt_step drv)
      (NewDBRuntime now (Some (Build (fold builder_step ops (NewConfigBuilder env)))), w) es)) = later_disconnects False es"
proof (rule run_detector)
  let ?c = "Build (fold builder_step ops (NewConfigBuilder env))"
  have "rc_EnableLeakDetection (cb_config (NewConfigBuilder env))"
    using assms(1) by (simp add: NewConfigBuilder_def DefaultConfig_def getEnvBool_def Let_def)
  from fold_builder_leak [OF assms(2) this] have "rc_EnableLeakDetection ?c" by (simp add: Build_def)
  then show "detector_closed (NewDBRuntime now (Some ?c)) = Some False"
    by (simp add: detector_closed_def NewDBRuntime_def NewConnectionManager_def NewLeakDetector_def connection_config_def Let_def)
  show "runtime_inv (NewDBRuntime now (Some ?c))"
    by (simp add: runtime_inv_def NewDBRuntime_def NewConnectionManager_def Let_def)
qed

theorem default_runtime_disconnects_once_witness:
  "map answer_panics (snd (run (rt_step (sample_driver (Inr 9)))
      (NewDBRuntime (Time 1) (Some (Build (fold builder_step [DoDSN ''a.db'', DoPool 4 2] (NewConfigBuilder (\<lambda>_. []))))), 0)
      [RConnect, RDisconnect, RConnect, RDisconnect])) = [False, False, False, True]"
  using default_runtime_disconnects_once [of "\<lambda>_. []" "[DoDSN ''a.db'', DoPool 4 2]" "sample_driver (Inr 9)" "Time 1" 0
      "[RConnect, RDisconnect, RConnect, RDisconnect]"]
  by (simp del: run.simps)

end
